theory Spec2Isabelle
  imports Complex_Main
begin

section \<open>The browser page and the service state\<close>

text \<open>
  The analysis service (src/services/playwrightService.js) drives a headless browser.
  Everything outside the repository (the browser, the page, object storage, the clock)
  is modelled as an environment that answers each awaited call: the call either
  rejects with an error message or resolves, and some time passes.

  A \<open>page\<close> is what a check receives. Its answers to the successive awaited page calls
  are given by functions of the call's position \<open>p_calls\<close>; the only page state the
  repository's code writes is the viewport. \<open>p_clock\<close> is the wall clock that
  \<open>Date.now()\<close> reads; synchronous code takes no time, an awaited call takes
  \<open>p_elapsed\<close> milliseconds.
\<close>

record response =
  r_status :: nat
  r_statusText :: string

record metrics =
  m_loadTime :: int
  m_domContentLoaded :: int
  m_firstContentfulPaint :: int
  m_largestContentfulPaint :: int
  m_domElements :: int
  m_networkRequests :: int
  m_documentSize :: int
  m_error :: "string option"

record page =
  p_viewport :: "nat \<times> nat"
  p_url :: string
  p_clock :: int
  p_calls :: nat
  p_rejects :: "nat \<Rightarrow> string option"
  p_elapsed :: "nat \<Rightarrow> nat"
  p_response :: "nat \<Rightarrow> response option"
  p_bytes :: "nat \<Rightarrow> nat"
  p_bool :: "nat \<Rightarrow> bool"
  p_count :: "nat \<Rightarrow> nat"
  p_metrics :: "nat \<Rightarrow> metrics"

text \<open>\<open>Date.now()\<close>.\<close>

definition Date_now :: "page \<Rightarrow> int" where
  "Date_now p = p_clock p"

text \<open>
  Awaiting one page call: the environment's answer at the current position
  (\<open>Some message\<close> when the promise rejects), the clock advanced, the position moved on.
\<close>

definition await_page :: "page \<Rightarrow> string option \<times> page" where
  "await_page p =
     (p_rejects p (p_calls p),
      p\<lparr>p_clock := p_clock p + int (p_elapsed p (p_calls p)), p_calls := Suc (p_calls p)\<rparr>)"

text \<open>\<open>page.setViewportSize\<close>: on success the live viewport is the requested one.\<close>

definition setViewportSize :: "nat \<times> nat \<Rightarrow> page \<Rightarrow> string option \<times> page" where
  "setViewportSize vp p =
     (case await_page p of
        (Some e, p') \<Rightarrow> (Some e, p')
      | (None, p') \<Rightarrow> (None, p'\<lparr>p_viewport := vp\<rparr>))"

text \<open>\<open>page.waitForTimeout\<close>, \<open>page.waitForSelector\<close>, \<open>page.waitForLoadState\<close>.\<close>

definition waitForTimeout :: "nat \<Rightarrow> page \<Rightarrow> string option \<times> page" where
  "waitForTimeout ms p = await_page p"

definition waitForSelector :: "string \<Rightarrow> page \<Rightarrow> string option \<times> page" where
  "waitForSelector selector p = await_page p"

definition waitForLoadState :: "string \<Rightarrow> page \<Rightarrow> string option \<times> page" where
  "waitForLoadState state p = await_page p"

text \<open>\<open>page.goto\<close>: rejects, or resolves with \<open>null\<close> or a response.\<close>

definition goto :: "string \<Rightarrow> page \<Rightarrow> (string + response option) \<times> page" where
  "goto u p =
     (case await_page p of
        (Some e, p') \<Rightarrow> (Inl e, p')
      | (None, p') \<Rightarrow> (Inr (p_response p (p_calls p)), p'))"

text \<open>\<open>page.screenshot\<close> resolves with a buffer, of which only the length is kept.\<close>

definition screenshot :: "page \<Rightarrow> (string + nat) \<times> page" where
  "screenshot p =
     (case await_page p of
        (Some e, p') \<Rightarrow> (Inl e, p')
      | (None, p') \<Rightarrow> (Inr (p_bytes p (p_calls p)), p'))"

text \<open>
  Page reads used by the checks modelled below: \<open>page.$(selector) !== null\<close>,
  \<open>page.evaluate\<close> of a boolean expression, \<open>page.$$eval(selector, xs => xs.length)\<close>,
  and the \<open>page.evaluate\<close> of \<open>getPerformanceMetrics\<close>.
\<close>

definition query_exists :: "string \<Rightarrow> page \<Rightarrow> (string + bool) \<times> page" where
  "query_exists selector p =
     (case await_page p of
        (Some e, p') \<Rightarrow> (Inl e, p')
      | (None, p') \<Rightarrow> (Inr (p_bool p (p_calls p)), p'))"

definition evaluate_bool :: "string \<Rightarrow> page \<Rightarrow> (string + bool) \<times> page" where
  "evaluate_bool expr p =
     (case await_page p of
        (Some e, p') \<Rightarrow> (Inl e, p')
      | (None, p') \<Rightarrow> (Inr (p_bool p (p_calls p)), p'))"

definition eval_count :: "string \<Rightarrow> page \<Rightarrow> (string + nat) \<times> page" where
  "eval_count selector p =
     (case await_page p of
        (Some e, p') \<Rightarrow> (Inl e, p')
      | (None, p') \<Rightarrow> (Inr (p_count p (p_calls p)), p'))"

definition evaluate_metrics :: "page \<Rightarrow> (string + metrics) \<times> page" where
  "evaluate_metrics p =
     (case await_page p of
        (Some e, p') \<Rightarrow> (Inl e, p')
      | (None, p') \<Rightarrow> (Inr (p_metrics p (p_calls p)), p'))"

text \<open>
  The service: the singleton's \<open>isInitialized\<close> flag, the browser context of the run,
  the logger's output, and the answers of the calls that are not page calls
  (\<open>chromium.launch\<close>, \<open>browser.newContext\<close>, \<open>context.newPage\<close>,
  \<open>gcsService.uploadScreenshot\<close>, \<open>context.close\<close>), each kind counted on its own.
  \<open>the_page\<close> is the page that \<open>context.newPage()\<close> hands out. A check receives the
  page only, so it can reach nothing else of this record.
\<close>

datatype svc_call = Launch | NewContext | NewPage | UploadScreenshot | ContextClose

datatype level = LError | LWarn | LInfo | LDebug

record service =
  isInitialized :: bool
  context_open :: bool
  log :: "(level \<times> string) list"
  uuid :: string
  bucketName :: string
  svc_count :: "svc_call \<Rightarrow> nat"
  svc_rejects :: "svc_call \<Rightarrow> nat \<Rightarrow> string option"
  svc_elapsed :: "svc_call \<Rightarrow> nat \<Rightarrow> nat"
  the_page :: page

definition logger :: "level \<Rightarrow> string \<Rightarrow> service \<Rightarrow> service" where
  "logger lv msg s = s\<lparr>log := log s @ [(lv, msg)]\<rparr>"

definition await_svc :: "svc_call \<Rightarrow> service \<Rightarrow> string option \<times> service" where
  "await_svc c s =
     (svc_rejects s c (svc_count s c),
      s\<lparr>svc_count := (svc_count s)(c := Suc (svc_count s c)),
        the_page := (the_page s)\<lparr>p_clock := p_clock (the_page s)
                                      + int (svc_elapsed s c (svc_count s c))\<rparr>\<rparr>)"

section \<open>Strings\<close>

text \<open>Decimal digits of a number, as a template literal prints it.\<close>

fun show_nat :: "nat \<Rightarrow> string" where
  "show_nat n =
     (if n < 10 then [''0123456789'' ! n]
      else show_nat (n div 10) @ [''0123456789'' ! (n mod 10)])"

declare show_nat.simps [simp del]

definition show_int :: "int \<Rightarrow> string" where
  "show_int i = (if i < 0 then CHR ''-'' # show_nat (nat (- i)) else show_nat (nat i))"

text \<open>\<open>String.prototype.includes\<close>: \<open>s.includes(sub)\<close> is \<open>str_includes sub s\<close>.\<close>

fun starts_with :: "string \<Rightarrow> string \<Rightarrow> bool" where
  "starts_with [] s = True"
| "starts_with (c # cs) [] = False"
| "starts_with (c # cs) (d # ds) = (c = d \<and> starts_with cs ds)"

fun str_includes :: "string \<Rightarrow> string \<Rightarrow> bool" where
  "str_includes sub [] = (sub = [])"
| "str_includes sub (c # cs) = (starts_with sub (c # cs) \<or> str_includes sub cs)"

section \<open>JavaScript numbers\<close>

text \<open>
  \<open>passedItems / totalItems\<close> and the product with \<open>100\<close> are IEEE 754 double
  operations: each returns the double nearest to the exact result, ties to the even
  mantissa. Only non-negative, finite, normal values occur in the score, so a double is
  written \<open>(m, e)\<close> for \<open>m * 2 ^ e\<close>, and the rounding is integer arithmetic:
  \<open>to_double n d\<close> is the double nearest to the fraction \<open>n / d\<close>.
\<close>

type_synonym double = "nat \<times> int"

fun bits :: "nat \<Rightarrow> nat" where
  "bits n = (if n = 0 then 0 else Suc (bits (n div 2)))"

declare bits.simps [simp del]

text \<open>The integer nearest to \<open>n / d\<close>, a tie going to the even one.\<close>

definition rne :: "nat \<Rightarrow> nat \<Rightarrow> nat" where
  "rne n d =
     (let q = n div d; r = n mod d in
      if 2 * r < d then q else if d < 2 * r then q + 1 else if even q then q else q + 1)"

text \<open>The fraction \<open>n / d\<close> times \<open>2 ^ k\<close>, as a fraction.\<close>

definition scale :: "nat \<Rightarrow> nat \<Rightarrow> int \<Rightarrow> nat \<times> nat" where
  "scale n d k = (if 0 \<le> k then (n * 2 ^ nat k, d) else (n, d * 2 ^ nat (- k)))"

definition to_double :: "nat \<Rightarrow> nat \<Rightarrow> double" where
  "to_double n d =
     (if n = 0 then (0, 0)
      else
        let k0 = int (bits d) + 53 - int (bits n);
            k = (case scale n d k0 of (a, b) \<Rightarrow> if a < 2 ^ 53 * b then k0 else k0 - 1)
        in case scale n d k of (a, b) \<Rightarrow> (rne a b, - k))"

text \<open>\<open>p / t\<close> for two counters, and \<open>x * c\<close> for a double and a small integer.\<close>

definition js_div :: "nat \<Rightarrow> nat \<Rightarrow> double" where
  "js_div p t = to_double p t"

definition js_mul :: "double \<Rightarrow> nat \<Rightarrow> double" where
  "js_mul x c = (case x of (m, e) \<Rightarrow> case to_double (m * c) 1 of (m', e') \<Rightarrow> (m', e' + e))"

text \<open>\<open>Math.round\<close>: the integer \<open>\<lfloor>x + 1/2\<rfloor>\<close>, halves going up.\<close>

definition Math_round :: "double \<Rightarrow> nat" where
  "Math_round x =
     (case x of (m, e) \<Rightarrow>
        if 0 \<le> e then m * 2 ^ nat e
        else (2 * m + 2 ^ nat (- e)) div 2 ^ Suc (nat (- e)))"

text \<open>The exact value a double stands for.\<close>

definition dval :: "double \<Rightarrow> real" where
  "dval x = (case x of (m, e) \<Rightarrow> real m * 2 powi e)"

section \<open>The criterion registry\<close>

text \<open>
  src/config/evaluationCriteria.js and evaluationCriteriaExtended.js. A check is an
  asynchronous function of the page (and, for one criterion, of a second argument); it
  resolves with an outcome or throws, and it may leave the page changed. Every
  \<open>return\<close> of the thirty-three checks carries one of the four status literals
  \<open>'pass'\<close>, \<open>'fail'\<close>, \<open>'warning'\<close>, \<open>'info'\<close>; two of them
  (the \<open>catch\<close> of a11y-001, the early return of sec-003) carry no
  \<open>recommendations\<close> property.
\<close>

datatype verdict = VPass | VFail | VWarning | VInfo

datatype impact = Critical | Major | Minor

record outcome =
  o_status :: verdict
  o_details :: string
  o_recommendations :: "string list option"

type_synonym check = "page \<Rightarrow> int option \<Rightarrow> (string + outcome) \<times> page"

record criterion =
  c_id :: string
  c_name :: string
  c_description :: string
  c_impact :: impact
  c_check :: check

type_synonym registry = "(string \<times> criterion list) list"

section \<open>Evaluation\<close>

datatype status = Pass | Fail | Warning | Info | Error

fun status_of :: "verdict \<Rightarrow> status" where
  "status_of VPass = Pass"
| "status_of VFail = Fail"
| "status_of VWarning = Warning"
| "status_of VInfo = Info"

record evaluation_result =
  e_category :: string
  e_id :: string
  e_name :: string
  e_description :: string
  e_impact :: impact
  e_status :: status
  e_details :: string
  e_recommendations :: "string list"
  e_checkTime :: int

record categories =
  n_accessibility :: nat
  n_performance :: nat
  n_seo :: nat
  n_security :: nat
  n_usability :: nat

record summary =
  total :: nat
  passed :: nat
  failed :: nat
  score :: nat
  by_category :: categories

record analysis =
  items :: "evaluation_result list"
  summary :: summary

text \<open>The three local variables of \<open>performEvaluation\<close>.\<close>

record eval_vars =
  results :: "evaluation_result list"
  totalItems :: nat
  passedItems :: nat

text \<open>
  The call of the check (lines 250-256): the criterion with id \<open>perf-001\<close> gets
  \<open>Date.now() - navigationTime\<close> as a second argument, every other one the page only.
\<close>

definition call_check :: "criterion \<Rightarrow> int \<Rightarrow> page \<Rightarrow> (string + outcome) \<times> page" where
  "call_check criterion navigationTime p =
     (if c_id criterion = ''perf-001''
      then c_check criterion p (Some (Date_now p - navigationTime))
      else c_check criterion p None)"

text \<open>The body of the inner loop (lines 246-300), for one criterion.\<close>

definition eval_criterion ::
  "string \<Rightarrow> int \<Rightarrow> criterion \<Rightarrow> eval_vars \<times> service \<Rightarrow> eval_vars \<times> service" where
  "eval_criterion category navigationTime criterion st =
     (case st of (v, s) \<Rightarrow>
        let v1 = v\<lparr>totalItems := totalItems v + 1\<rparr>;
            startTime = Date_now (the_page s)
        in case call_check criterion navigationTime (the_page s) of
             (Inr result, p') \<Rightarrow>
               let checkTime = Date_now p' - startTime;
                   evaluationResult =
                     \<lparr>e_category = category, e_id = c_id criterion, e_name = c_name criterion,
                      e_description = c_description criterion, e_impact = c_impact criterion,
                      e_status = status_of (o_status result), e_details = o_details result,
                      e_recommendations =
                        (case o_recommendations result of Some rs \<Rightarrow> rs | None \<Rightarrow> []),
                      e_checkTime = checkTime\<rparr>;
                   v2 = v1\<lparr>results := results v1 @ [evaluationResult]\<rparr>;
                   v3 = (if o_status result = VPass
                         then v2\<lparr>passedItems := passedItems v2 + 1\<rparr> else v2);
                   s1 = s\<lparr>the_page := p'\<rparr>;
                   s2 = (if checkTime > 5000
                         then logger LWarn (''Slow evaluation check: '' @ c_id criterion) s1
                         else s1)
               in (v3, s2)
           | (Inl message, p') \<Rightarrow>
               let s1 = logger LError (''Evaluation error for '' @ c_id criterion @ '':'')
                          (s\<lparr>the_page := p'\<rparr>);
                   v2 = v1\<lparr>results := results v1 @
                          [\<lparr>e_category = category, e_id = c_id criterion,
                            e_name = c_name criterion,
                            e_description = c_description criterion,
                            e_impact = c_impact criterion,
                            e_status = Error,
                            e_details = ''Evaluation failed: '' @ message,
                            e_recommendations =
                              [''Unable to evaluate - check page accessibility''],
                            e_checkTime = 0\<rparr>]\<rparr>
               in (v2, s1))"

text \<open>The two loops (lines 242-302).\<close>

fun eval_criteria ::
  "string \<Rightarrow> int \<Rightarrow> criterion list \<Rightarrow> eval_vars \<times> service \<Rightarrow> eval_vars \<times> service" where
  "eval_criteria category navigationTime [] st = st"
| "eval_criteria category navigationTime (criterion # rest) st =
     eval_criteria category navigationTime rest
       (eval_criterion category navigationTime criterion st)"

fun eval_categories :: "int \<Rightarrow> registry \<Rightarrow> eval_vars \<times> service \<Rightarrow> eval_vars \<times> service" where
  "eval_categories navigationTime [] st = st"
| "eval_categories navigationTime ((category, criteria) # rest) st =
     eval_categories navigationTime rest
       (eval_criteria category navigationTime criteria
          (case st of (v, s) \<Rightarrow>
             (v, logger LDebug (''Evaluating '' @ category @ '' ('' @
                    show_nat (length criteria) @ '' items)'') s)))"

text \<open>\<open>results.filter(r => r.category === c).length\<close>.\<close>

definition count_category :: "string \<Rightarrow> evaluation_result list \<Rightarrow> nat" where
  "count_category c rs = length (filter (\<lambda>r. e_category r = c) rs)"

text \<open>Line 304.\<close>

definition compute_score :: "nat \<Rightarrow> nat \<Rightarrow> nat" where
  "compute_score npassed ntotal =
     (if ntotal > 0 then Math_round (js_mul (js_div npassed ntotal) 100) else 0)"

text \<open>
  \<open>performEvaluation(page, navigationTime)\<close>. The registry it iterates is the module
  constant \<open>evaluationCriteria\<close> in the source; here it is the parameter \<open>reg\<close>,
  instantiated below.
\<close>

definition performEvaluation :: "registry \<Rightarrow> int \<Rightarrow> service \<Rightarrow> analysis \<times> service" where
  "performEvaluation reg navigationTime s =
     (case eval_categories navigationTime reg
             (\<lparr>results = [], totalItems = 0, passedItems = 0\<rparr>,
              logger LInfo ''Starting 67-point evaluation...'' s) of
        (v, s1) \<Rightarrow>
          let sc = compute_score (passedItems v) (totalItems v);
              s2 = logger LInfo (''Evaluation completed: '' @ show_nat (passedItems v) @ ''/'' @
                     show_nat (totalItems v) @ '' passed ('' @ show_nat sc @ ''%)'') s1
          in (\<lparr>items = results v,
               summary = \<lparr>total = totalItems v, passed = passedItems v,
                          failed = totalItems v - passedItems v, score = sc,
                          by_category =
                            \<lparr>n_accessibility = count_category ''accessibility'' (results v),
                             n_performance = count_category ''performance'' (results v),
                             n_seo = count_category ''seo'' (results v),
                             n_security = count_category ''security'' (results v),
                             n_usability = count_category ''usability'' (results v)\<rparr>\<rparr>\<rparr>,
              s2))"

section \<open>The shipped registry\<close>

text \<open>
  Four checks are modelled statement by statement: \<open>perf-001\<close>, the one that takes the
  second argument, and the three usability checks, the first of which resizes the page.
  The bodies of the other twenty-nine are not modelled: they are supplied by the
  parameter \<open>other\<close>, so every theorem below holds whatever they do to the page and
  whatever they return or throw.
\<close>

definition show_bool :: "bool \<Rightarrow> string" where
  "show_bool b = (if b then ''true'' else ''false'')"

text \<open>
  \<open>perf-001\<close> (evaluationCriteria.js, lines 189-201). Without its second argument
  \<open>loadTime\<close> is \<open>NaN\<close>, for which every comparison is false.
\<close>

definition perf_001_check :: check where
  "perf_001_check p startTime =
     (case startTime of
        Some st \<Rightarrow>
          let loadTime = Date_now p - st in
          (Inr \<lparr>o_status = (if loadTime < 3000 then VPass
                             else if loadTime < 5000 then VWarning else VFail),
                o_details = ''Page loaded in '' @ show_int loadTime @ ''ms'',
                o_recommendations = Some (if loadTime \<ge> 3000
                  then [''Optimize images and compress assets'', ''Minimize HTTP requests'',
                        ''Use CDN for static assets'', ''Enable browser caching'']
                  else [])\<rparr>, p)
      | None \<Rightarrow>
          (Inr \<lparr>o_status = VFail, o_details = ''Page loaded in NaNms'',
                o_recommendations = Some []\<rparr>, p))"

text \<open>\<open>use-001\<close> (lines 355-370).\<close>

definition use_001_check :: check where
  \<open>use_001_check p arg =
     (case setViewportSize (375, 667) p of
        (Some e, p1) \<Rightarrow> (Inl e, p1)
      | (None, p1) \<Rightarrow>
     (case waitForTimeout 1000 p1 of
        (Some e, p2) \<Rightarrow> (Inl e, p2)
      | (None, p2) \<Rightarrow>
     (case query_exists ''meta[name="viewport"]'' p2 of
        (Inl e, p3) \<Rightarrow> (Inl e, p3)
      | (Inr hasViewportMeta, p3) \<Rightarrow>
     (case evaluate_bool ''document.body.scrollWidth > window.innerWidth'' p3 of
        (Inl e, p4) \<Rightarrow> (Inl e, p4)
      | (Inr horizontalScroll, p4) \<Rightarrow>
          (Inr \<lparr>o_status = (if hasViewportMeta \<and> \<not> horizontalScroll then VPass else VFail),
                o_details = ''Viewport meta: '' @ show_bool hasViewportMeta @
                            '', Horizontal scroll: '' @ show_bool horizontalScroll,
                o_recommendations = Some
                  ((if \<not> hasViewportMeta then [''Add viewport meta tag''] else []) @
                   (if horizontalScroll then [''Fix horizontal scrolling on mobile'']
                    else []))\<rparr>, p4)))))\<close>

text \<open>\<open>use-002\<close> (lines 377-386).\<close>

definition use_002_check :: check where
  \<open>use_002_check p arg =
     (case eval_count ''nav, [role="navigation"]'' p of
        (Inl e, p1) \<Rightarrow> (Inl e, p1)
      | (Inr navElements, p1) \<Rightarrow>
     (case eval_count ''nav a, nav button'' p1 of
        (Inl e, p2) \<Rightarrow> (Inl e, p2)
      | (Inr menuItems, p2) \<Rightarrow>
          (Inr \<lparr>o_status = (if navElements > 0 \<and> menuItems > 0 then VPass else VWarning),
                o_details = show_nat navElements @ '' navigation elements with '' @
                            show_nat menuItems @ '' menu items'',
                o_recommendations = Some
                  (if navElements = 0 then [''Add semantic navigation structure'']
                   else [])\<rparr>, p2)))\<close>

text \<open>\<open>use-003\<close> (evaluationCriteriaExtended.js).\<close>

definition use_003_check :: check where
  \<open>use_003_check p arg =
     (case eval_count ''button, a, input[type="button"], input[type="submit"]'' p of
        (Inl e, p1) \<Rightarrow> (Inl e, p1)
      | (Inr smallTargets, p1) \<Rightarrow>
     (case eval_count ''button, a, input[type="button"], input[type="submit"]'' p1 of
        (Inl e, p2) \<Rightarrow> (Inl e, p2)
      | (Inr totalTargets, p2) \<Rightarrow>
          (Inr \<lparr>o_status = (if smallTargets = 0 then VPass else VWarning),
                o_details = show_nat smallTargets @ ''/'' @ show_nat totalTargets @
                            '' targets are smaller than 44x44px'',
                o_recommendations = Some
                  (if smallTargets > 0
                   then [''Increase size of touch targets to at least 44x44 pixels'']
                   else [])\<rparr>, p2)))\<close>

definition evaluationCriteria :: "(string \<Rightarrow> check) \<Rightarrow> registry" where
  \<open>evaluationCriteria other =
    [(''accessibility'',
      [\<lparr>c_id = ''a11y-001'', c_name = ''Color Contrast Ratio'',
        c_description = ''Text has sufficient color contrast ratio (minimum 4.5:1)'',
        c_impact = Critical, c_check = other ''a11y-001''\<rparr>,
       \<lparr>c_id = ''a11y-002'', c_name = ''Alt Text for Images'',
        c_description = ''All images have descriptive alt text'',
        c_impact = Major, c_check = other ''a11y-002''\<rparr>,
       \<lparr>c_id = ''a11y-003'', c_name = ''Heading Structure'',
        c_description = ''Proper heading hierarchy (h1-h6)'',
        c_impact = Major, c_check = other ''a11y-003''\<rparr>,
       \<lparr>c_id = ''a11y-004'', c_name = ''ARIA Labels'',
        c_description = ''Interactive elements have appropriate ARIA labels'',
        c_impact = Major, c_check = other ''a11y-004''\<rparr>,
       \<lparr>c_id = ''a11y-005'', c_name = ''Keyboard Navigation'',
        c_description = ''All interactive elements are keyboard accessible'',
        c_impact = Critical, c_check = other ''a11y-005''\<rparr>]),
     (''performance'',
      [\<lparr>c_id = ''perf-001'', c_name = ''Page Load Time'',
        c_description = ''Page loads within 3 seconds'',
        c_impact = Critical, c_check = perf_001_check\<rparr>,
       \<lparr>c_id = ''perf-002'', c_name = ''Image Optimization'',
        c_description = ''Images are properly optimized'',
        c_impact = Major, c_check = other ''perf-002''\<rparr>,
       \<lparr>c_id = ''perf-003'', c_name = ''CSS Optimization'',
        c_description = ''CSS is optimized and minified'',
        c_impact = Minor, c_check = other ''perf-003''\<rparr>]),
     (''seo'',
      [\<lparr>c_id = ''seo-001'', c_name = ''Title Tag'',
        c_description = ''Page has unique and descriptive title'',
        c_impact = Critical, c_check = other ''seo-001''\<rparr>,
       \<lparr>c_id = ''seo-002'', c_name = ''Meta Description'',
        c_description = ''Page has compelling meta description'',
        c_impact = Major, c_check = other ''seo-002''\<rparr>]),
     (''security'',
      [\<lparr>c_id = ''sec-001'', c_name = ''HTTPS Usage'',
        c_description = ''Site uses HTTPS protocol'',
        c_impact = Critical, c_check = other ''sec-001''\<rparr>,
       \<lparr>c_id = ''sec-002'', c_name = ''Security Headers'',
        c_description = ''Essential security headers are present'',
        c_impact = Major, c_check = other ''sec-002''\<rparr>]),
     (''usability'',
      [\<lparr>c_id = ''use-001'', c_name = ''Mobile Responsive'',
        c_description = ''Site is mobile responsive'',
        c_impact = Critical, c_check = use_001_check\<rparr>,
       \<lparr>c_id = ''use-002'', c_name = ''Navigation Structure'',
        c_description = ''Clear and consistent navigation'',
        c_impact = Major, c_check = use_002_check\<rparr>])]\<close>

definition extendedCriteria :: "(string \<Rightarrow> check) \<Rightarrow> registry" where
  \<open>extendedCriteria other =
    [(''accessibility'',
      [\<lparr>c_id = ''a11y-006'', c_name = ''Focus Indicators'',
        c_description = ''Visible focus indicators for keyboard navigation'',
        c_impact = Major, c_check = other ''a11y-006''\<rparr>,
       \<lparr>c_id = ''a11y-007'', c_name = ''Form Labels'',
        c_description = ''All form inputs have associated labels'',
        c_impact = Critical, c_check = other ''a11y-007''\<rparr>,
       \<lparr>c_id = ''a11y-008'', c_name = ''Link Purpose'',
        c_description = ''Links have clear and descriptive text'',
        c_impact = Major, c_check = other ''a11y-008''\<rparr>,
       \<lparr>c_id = ''a11y-009'', c_name = ''Error Identification'',
        c_description = ''Form errors are clearly identified'',
        c_impact = Major, c_check = other ''a11y-009''\<rparr>,
       \<lparr>c_id = ''a11y-010'', c_name = ''Language Declaration'',
        c_description = ''Page language is declared'',
        c_impact = Minor, c_check = other ''a11y-010''\<rparr>,
       \<lparr>c_id = ''a11y-011'', c_name = ''Skip Links'',
        c_description = ''Skip navigation links are provided'',
        c_impact = Minor, c_check = other ''a11y-011''\<rparr>,
       \<lparr>c_id = ''a11y-012'', c_name = ''Color Independence'',
        c_description = ''Information not conveyed by color alone'',
        c_impact = Major, c_check = other ''a11y-012''\<rparr>,
       \<lparr>c_id = ''a11y-013'', c_name = ''Text Resize'',
        c_description = ''Text can be resized up to 200% without loss of functionality'',
        c_impact = Minor, c_check = other ''a11y-013''\<rparr>,
       \<lparr>c_id = ''a11y-014'', c_name = ''Audio/Video Controls'',
        c_description = ''Media elements have proper controls'',
        c_impact = Major, c_check = other ''a11y-014''\<rparr>,
       \<lparr>c_id = ''a11y-015'', c_name = ''ARIA Landmarks'',
        c_description = ''Page uses ARIA landmarks appropriately'',
        c_impact = Minor, c_check = other ''a11y-015''\<rparr>]),
     (''performance'',
      [\<lparr>c_id = ''perf-004'', c_name = ''HTTP Requests'',
        c_description = ''Minimize number of HTTP requests'',
        c_impact = Major, c_check = other ''perf-004''\<rparr>,
       \<lparr>c_id = ''perf-005'', c_name = ''Gzip Compression'',
        c_description = ''Text resources are compressed'',
        c_impact = Major, c_check = other ''perf-005''\<rparr>,
       \<lparr>c_id = ''perf-006'', c_name = ''Browser Caching'',
        c_description = ''Static resources have cache headers'',
        c_impact = Major, c_check = other ''perf-006''\<rparr>,
       \<lparr>c_id = ''perf-007'', c_name = ''Render Blocking Resources'',
        c_description = ''Minimize render-blocking CSS and JavaScript'',
        c_impact = Major, c_check = other ''perf-007''\<rparr>,
       \<lparr>c_id = ''perf-008'', c_name = ''CDN Usage'',
        c_description = ''Static assets served from CDN'',
        c_impact = Minor, c_check = other ''perf-008''\<rparr>]),
     (''seo'',
      [\<lparr>c_id = ''seo-003'', c_name = ''Canonical URL'',
        c_description = ''Page has canonical URL specified'',
        c_impact = Major, c_check = other ''seo-003''\<rparr>,
       \<lparr>c_id = ''seo-004'', c_name = ''Open Graph Tags'',
        c_description = ''Open Graph meta tags for social sharing'',
        c_impact = Minor, c_check = other ''seo-004''\<rparr>]),
     (''security'',
      [\<lparr>c_id = ''sec-003'', c_name = ''Mixed Content'',
        c_description = ''No mixed content (HTTP resources on HTTPS page)'',
        c_impact = Major, c_check = other ''sec-003''\<rparr>]),
     (''usability'',
      [\<lparr>c_id = ''use-003'', c_name = ''Touch Target Size'',
        c_description = ''Touch targets are at least 44x44 pixels'',
        c_impact = Major, c_check = use_003_check\<rparr>])]\<close>

text \<open>\<open>registry.category\<close>, and the merge at the end of evaluationCriteriaExtended.js.\<close>

definition category_of :: "registry \<Rightarrow> string \<Rightarrow> criterion list" where
  "category_of reg c = (case map_of reg c of Some cs \<Rightarrow> cs | None \<Rightarrow> [])"

definition fullEvaluationCriteria :: "(string \<Rightarrow> check) \<Rightarrow> registry" where
  "fullEvaluationCriteria other =
     [(''accessibility'', category_of (evaluationCriteria other) ''accessibility'' @
                          category_of (extendedCriteria other) ''accessibility''),
      (''performance'', category_of (evaluationCriteria other) ''performance'' @
                        category_of (extendedCriteria other) ''performance''),
      (''seo'', category_of (evaluationCriteria other) ''seo'' @
                category_of (extendedCriteria other) ''seo''),
      (''security'', category_of (evaluationCriteria other) ''security'' @
                     category_of (extendedCriteria other) ''security''),
      (''usability'', category_of (evaluationCriteria other) ''usability'' @
                      category_of (extendedCriteria other) ''usability'')]"

section \<open>The analysis service\<close>

text \<open>
  \<open>AppError\<close> (src/middleware/errorHandler.js): message, HTTP status code, code and
  details. What a \<open>try\<close> block can throw is an \<open>AppError\<close> or another error, of which
  the handlers read the message only.
\<close>

datatype detail = DStr string | DNum int

record app_error =
  ae_message :: string
  ae_statusCode :: nat
  ae_code :: string
  ae_details :: "(string \<times> detail) list"

datatype thrown = AppErr app_error | JsErr string

record viewport =
  v_name :: string
  v_width :: nat
  v_height :: nat

record options =
  opt_timeout :: "nat option"
  opt_waitFor :: "string option"

record screenshot_result =
  sr_viewport :: string
  sr_width :: nat
  sr_height :: nat
  sr_error :: "string option"
  sr_gcs_url :: "string option"
  sr_size_bytes :: nat
  sr_filename :: "string option"

record analysis_run =
  ar_success :: bool
  ar_url :: string
  ar_analysisId :: string
  ar_timestamp :: int
  ar_screenshots :: "screenshot_result list"
  ar_analysis :: analysis
  ar_performance :: metrics
  ar_processingTime :: int

text \<open>\<open>initialize()\<close> (lines 14-46).\<close>

definition initialize :: "service \<Rightarrow> app_error option \<times> service" where
  "initialize s =
     (if isInitialized s then (None, s)
      else
        case await_svc Launch (logger LInfo ''Initializing Playwright browser...'' s) of
          (None, s1) \<Rightarrow>
            (None, logger LInfo ''Playwright browser initialized successfully''
                     (s1\<lparr>isInitialized := True\<rparr>))
        | (Some e, s1) \<Rightarrow>
            (Some \<lparr>ae_message = ''Failed to initialize browser'', ae_statusCode = 500,
                   ae_code = ''PLAYWRIGHT_INIT_ERROR'', ae_details = [(''error'', DStr e)]\<rparr>,
             logger LError ''Failed to initialize Playwright browser:'' s1))"

text \<open>
  \<open>gcsService.uploadScreenshot(buffer, filename)\<close>, at its interface: it resolves with
  \<open>gs://bucket/filename\<close> or rejects.
\<close>

definition uploadScreenshot :: "nat \<Rightarrow> string \<Rightarrow> service \<Rightarrow> (string + string) \<times> service" where
  "uploadScreenshot buffer_length filename s =
     (case await_svc UploadScreenshot s of
        (Some e, s1) \<Rightarrow> (Inl e, s1)
      | (None, s1) \<Rightarrow> (Inr (''gs://'' @ bucketName s @ ''/'' @ filename), s1))"

text \<open>\<open>takeScreenshots\<close> (lines 174-232): the \<open>catch\<close> block, the loop body, the loop.\<close>

definition screenshot_failed :: "viewport \<Rightarrow> string \<Rightarrow> service \<Rightarrow> screenshot_result \<times> service" where
  "screenshot_failed vp message s =
     (\<lparr>sr_viewport = v_name vp, sr_width = v_width vp, sr_height = v_height vp,
       sr_error = Some message, sr_gcs_url = None, sr_size_bytes = 0, sr_filename = None\<rparr>,
      logger LError (''Screenshot failed for '' @ v_name vp @ '':'') s)"

definition capture_viewport :: "string \<Rightarrow> viewport \<Rightarrow> service \<Rightarrow> screenshot_result \<times> service" where
  "capture_viewport analysisId vp s0 =
     (let s = logger LDebug ''Playwright screenshot'' s0 in
      case setViewportSize (v_width vp, v_height vp) (the_page s) of
        (Some e, p1) \<Rightarrow> screenshot_failed vp e (s\<lparr>the_page := p1\<rparr>)
      | (None, p1) \<Rightarrow>
     (case waitForTimeout 1000 p1 of
        (Some e, p2) \<Rightarrow> screenshot_failed vp e (s\<lparr>the_page := p2\<rparr>)
      | (None, p2) \<Rightarrow>
     (case screenshot p2 of
        (Inl e, p3) \<Rightarrow> screenshot_failed vp e (s\<lparr>the_page := p3\<rparr>)
      | (Inr screenshotBuffer, p3) \<Rightarrow>
          let filename = ''screenshots/'' @ analysisId @ ''-'' @ v_name vp @ ''.png'' in
          case uploadScreenshot screenshotBuffer filename (s\<lparr>the_page := p3\<rparr>) of
            (Inl e, s4) \<Rightarrow> screenshot_failed vp e s4
          | (Inr gcsUrl, s4) \<Rightarrow>
              (\<lparr>sr_viewport = v_name vp, sr_width = v_width vp, sr_height = v_height vp,
                sr_error = None, sr_gcs_url = Some gcsUrl,
                sr_size_bytes = screenshotBuffer, sr_filename = Some filename\<rparr>,
               logger LDebug (''Screenshot taken: '' @ v_name vp @ '' ('' @
                              show_nat screenshotBuffer @ '' bytes)'') s4))))"

fun capture_all :: "string \<Rightarrow> viewport list \<Rightarrow> service \<Rightarrow> screenshot_result list \<times> service" where
  "capture_all analysisId [] s = ([], s)"
| "capture_all analysisId (vp # rest) s =
     (case capture_viewport analysisId vp s of
        (r, s1) \<Rightarrow> (case capture_all analysisId rest s1 of (rs, s2) \<Rightarrow> (r # rs, s2)))"

definition defaultViewports :: "viewport list" where
  "defaultViewports =
     [\<lparr>v_name = ''mobile'', v_width = 375, v_height = 667\<rparr>,
      \<lparr>v_name = ''tablet'', v_width = 768, v_height = 1024\<rparr>,
      \<lparr>v_name = ''desktop'', v_width = 1920, v_height = 1080\<rparr>,
      \<lparr>v_name = ''4k'', v_width = 3840, v_height = 2160\<rparr>]"

definition targetViewports :: "viewport list \<Rightarrow> viewport list" where
  "targetViewports viewports = (if length viewports > 0 then viewports else defaultViewports)"

definition takeScreenshots ::
  "string \<Rightarrow> viewport list \<Rightarrow> service \<Rightarrow> screenshot_result list \<times> service" where
  "takeScreenshots analysisId viewports s =
     capture_all analysisId (targetViewports viewports) s"

text \<open>\<open>getPerformanceMetrics\<close> (lines 326-360).\<close>

definition getPerformanceMetrics :: "service \<Rightarrow> metrics \<times> service" where
  "getPerformanceMetrics s =
     (case evaluate_metrics (the_page s) of
        (Inr m, p1) \<Rightarrow>
          (m\<lparr>m_error := None\<rparr>,
           logger LInfo ''Performance: network_requests''
             (logger LInfo ''Performance: dom_elements'' (s\<lparr>the_page := p1\<rparr>)))
      | (Inl e, p1) \<Rightarrow>
          (\<lparr>m_loadTime = 0, m_domContentLoaded = 0, m_firstContentfulPaint = 0,
            m_largestContentfulPaint = 0, m_domElements = 0, m_networkRequests = 0,
            m_documentSize = 0, m_error = Some e\<rparr>,
           logger LError ''Failed to get performance metrics:'' (s\<lparr>the_page := p1\<rparr>)))"

text \<open>
  \<open>analyzeUrl\<close> (lines 48-172). \<open>response.ok()\<close> is Playwright's: the status is
  \<open>0\<close> (no HTTP status, as for a file URL) or between 200 and 299.
  \<open>options.timeout || 30000\<close> takes the default for a missing or zero timeout, and
  \<open>if (options.waitFor)\<close> skips a missing or empty selector.
\<close>

definition response_ok :: "response \<Rightarrow> bool" where
  "response_ok r = (r_status r = 0 \<or> (200 \<le> r_status r \<and> r_status r \<le> 299))"

definition timeout_of :: "options \<Rightarrow> nat" where
  "timeout_of opts = (case opt_timeout opts of Some t \<Rightarrow> if t = 0 then 30000 else t | None \<Rightarrow> 30000)"

text \<open>Lines 55-97: browser, context, page and navigation; the result is \<open>navigationTime\<close>.\<close>

definition open_page :: "string \<Rightarrow> options \<Rightarrow> service \<Rightarrow> (thrown + int) \<times> service" where
  "open_page u opts s =
     (case initialize s of
        (Some err, s1) \<Rightarrow> (Inl (AppErr err), s1)
      | (None, s1) \<Rightarrow>
     (case await_svc NewContext s1 of
        (Some e, s2) \<Rightarrow> (Inl (JsErr e), s2)
      | (None, s2) \<Rightarrow>
     (case await_svc NewPage (s2\<lparr>context_open := True\<rparr>) of
        (Some e, s3) \<Rightarrow> (Inl (JsErr e), s3)
      | (None, s3) \<Rightarrow>
          let s4 = logger LDebug ''Playwright navigate'' s3;
              navigationStartTime = Date_now (the_page s4)
          in case goto u (the_page s4) of
               (Inl e, p5) \<Rightarrow> (Inl (JsErr e), s4\<lparr>the_page := p5\<rparr>)
             | (Inr None, p5) \<Rightarrow>
                 (Inl (AppErr \<lparr>ae_message = ''Failed to load page'', ae_statusCode = 502,
                               ae_code = ''PAGE_LOAD_FAILED'', ae_details = []\<rparr>),
                  s4\<lparr>the_page := p5\<rparr>)
             | (Inr (Some resp), p5) \<Rightarrow>
                 if \<not> response_ok resp
                 then (Inl (AppErr
                         \<lparr>ae_message = ''HTTP '' @ show_nat (r_status resp) @ '': '' @
                                        r_statusText resp,
                          ae_statusCode = 502, ae_code = ''HTTP_ERROR'',
                          ae_details = [(''status'', DNum (int (r_status resp))),
                                        (''statusText'', DStr (r_statusText resp))]\<rparr>),
                       s4\<lparr>the_page := p5\<rparr>)
                 else
                   let navigationTime = Date_now p5 - navigationStartTime
                   in (Inr navigationTime,
                       logger LInfo ''Performance: page_navigation''
                         (s4\<lparr>the_page := p5\<rparr>)))))"

text \<open>Lines 99-112: the two waits after navigation.\<close>

definition wait_for_selector :: "options \<Rightarrow> service \<Rightarrow> service" where
  "wait_for_selector opts s =
     (case opt_waitFor opts of
        None \<Rightarrow> s
      | Some selector \<Rightarrow>
          if selector = [] then s
          else case waitForSelector selector (the_page s) of
                 (None, p1) \<Rightarrow>
                   logger LDebug ''Playwright wait_for_selector'' (s\<lparr>the_page := p1\<rparr>)
               | (Some e, p1) \<Rightarrow>
                   logger LWarn (''Wait for selector failed: '' @ selector)
                     (s\<lparr>the_page := p1\<rparr>))"

definition wait_for_network_idle :: "service \<Rightarrow> service" where
  "wait_for_network_idle s =
     (case waitForLoadState ''networkidle'' (the_page s) of
        (None, p1) \<Rightarrow> s\<lparr>the_page := p1\<rparr>
      | (Some e, p1) \<Rightarrow>
          logger LWarn ''Network idle timeout - continuing with analysis''
            (s\<lparr>the_page := p1\<rparr>))"

text \<open>Lines 114-143: screenshots, evaluation, metrics, closing the context, the result.\<close>

definition finish_run ::
  "registry \<Rightarrow> string \<Rightarrow> viewport list \<Rightarrow> string \<Rightarrow> int \<Rightarrow> int \<Rightarrow> service
     \<Rightarrow> (thrown + analysis_run) \<times> service" where
  "finish_run reg u viewports analysisId startTime navigationTime s =
     (case takeScreenshots analysisId viewports s of (screenshots, s1) \<Rightarrow>
      case performEvaluation reg navigationTime s1 of (analysis, s2) \<Rightarrow>
      case getPerformanceMetrics s2 of (performanceMetrics, s3) \<Rightarrow>
      case await_svc ContextClose s3 of
        (Some e, s4) \<Rightarrow> (Inl (JsErr e), s4)
      | (None, s4) \<Rightarrow>
          let s5 = s4\<lparr>context_open := False\<rparr>;
              totalTime = Date_now (the_page s5) - startTime;
              s6 = logger LInfo (''Analysis completed for '' @ u)
                     (logger LInfo ''Performance: total_analysis'' s5)
          in (Inr \<lparr>ar_success = True, ar_url = u, ar_analysisId = analysisId,
                   ar_timestamp = Date_now (the_page s6), ar_screenshots = screenshots,
                   ar_analysis = analysis, ar_performance = performanceMetrics,
                   ar_processingTime = totalTime\<rparr>, s6))"

text \<open>The \<open>catch\<close> block (lines 145-171).\<close>

definition classify :: "string \<Rightarrow> options \<Rightarrow> thrown \<Rightarrow> app_error" where
  "classify u opts err =
     (case err of
        AppErr e \<Rightarrow> e
      | JsErr message \<Rightarrow>
          if str_includes ''timeout'' message
          then \<lparr>ae_message = ''Page load timeout'', ae_statusCode = 504,
                ae_code = ''TIMEOUT_ERROR'',
                ae_details = [(''url'', DStr u), (''timeout'', DNum (int (timeout_of opts)))]\<rparr>
          else if str_includes ''net::'' message
          then \<lparr>ae_message = ''Network error'', ae_statusCode = 502,
                ae_code = ''NETWORK_ERROR'',
                ae_details = [(''url'', DStr u), (''networkError'', DStr message)]\<rparr>
          else \<lparr>ae_message = ''Analysis failed'', ae_statusCode = 500,
                ae_code = ''ANALYSIS_ERROR'',
                ae_details = [(''url'', DStr u), (''error'', DStr message)]\<rparr>)"

text \<open>
  \<open>analyzeUrl(url, viewports, options)\<close>: \<open>Inl\<close> is the \<open>AppError\<close> thrown to the
  caller, \<open>Inr\<close> the returned result.
\<close>

definition analyzeUrl ::
  "registry \<Rightarrow> string \<Rightarrow> viewport list \<Rightarrow> options \<Rightarrow> service
     \<Rightarrow> (app_error + analysis_run) \<times> service" where
  "analyzeUrl reg u viewports opts s0 =
     (let analysisId = uuid s0;
          startTime = Date_now (the_page s0);
          s = logger LInfo (''Starting analysis for '' @ u) s0
      in case (case open_page u opts s of
                 (Inl err, s1) \<Rightarrow> (Inl err, s1)
               | (Inr navigationTime, s1) \<Rightarrow>
                   finish_run reg u viewports analysisId startTime
                     navigationTime (wait_for_network_idle (wait_for_selector opts s1))) of
           (Inr run, s2) \<Rightarrow> (Inr run, s2)
         | (Inl err, s2) \<Rightarrow>
             (Inl (classify u opts err),
              logger LError (''Analysis failed for '' @ u @ '':'') s2))"

section \<open>Auxiliary notions for the proofs\<close>

text \<open>
  The shape of the entry that the \<open>catch\<close> block of the evaluation loop pushes.
\<close>

definition error_shape :: "evaluation_result \<Rightarrow> bool" where
  "error_shape r \<longleftrightarrow>
     (e_status r = Error \<longrightarrow> e_checkTime r = 0 \<and>
        e_recommendations r = [''Unable to evaluate - check page accessibility''] \<and>
        take 19 (e_details r) = ''Evaluation failed: '')"

definition pushed_for :: "string \<Rightarrow> criterion \<Rightarrow> evaluation_result \<Rightarrow> bool" where
  "pushed_for category c r \<longleftrightarrow>
     e_category r = category \<and> e_id r = c_id c \<and> e_name r = c_name c \<and>
     e_description r = c_description c \<and> e_impact r = c_impact c \<and> error_shape r"

text \<open>The loop invariant: the counters agree with the list built so far.\<close>

definition counted :: "eval_vars \<Rightarrow> bool" where
  "counted v \<longleftrightarrow>
     totalItems v = length (results v) \<and>
     passedItems v = length (filter (\<lambda>r. e_status r = Pass) (results v)) \<and>
     (\<forall>r \<in> set (results v). error_shape r)"

text \<open>
  An entry is identified by its category and criterion id; \<open>registry_keys\<close> is the
  registry flattened in iteration order.
\<close>

definition entry_key :: "evaluation_result \<Rightarrow> string \<times> string" where
  "entry_key r = (e_category r, e_id r)"

definition registry_keys :: "registry \<Rightarrow> (string \<times> string) list" where
  "registry_keys reg = concat (map (\<lambda>(category, cs). map (\<lambda>c. (category, c_id c)) cs) reg)"

text \<open>What the environment will answer to the calls around the page.\<close>

definition browser_starts :: "service \<Rightarrow> bool" where
  "browser_starts s \<longleftrightarrow>
     (isInitialized s \<or> svc_rejects s Launch (svc_count s Launch) = None) \<and>
     svc_rejects s NewContext (svc_count s NewContext) = None \<and>
     svc_rejects s NewPage (svc_count s NewPage) = None"

definition navigation_reply :: "service \<Rightarrow> string + response option" where
  "navigation_reply s =
     (case p_rejects (the_page s) (p_calls (the_page s)) of
        Some e \<Rightarrow> Inl e
      | None \<Rightarrow> Inr (p_response (the_page s) (p_calls (the_page s))))"

definition close_reply :: "service \<Rightarrow> string option" where
  "close_reply s = svc_rejects s ContextClose (svc_count s ContextClose)"

section \<open>Sample environments\<close>

text \<open>
  A page on which every call resolves after ten milliseconds, a service whose other
  calls resolve after five, and check bodies for the unmodelled criteria: the check
  of \<open>seo-001\<close> throws, that of \<open>seo-002\<close> fails, every other one passes.
\<close>

definition sample_page :: page where
  "sample_page =
     \<lparr>p_viewport = (1280, 720), p_url = ''https://example.com'', p_clock = 1000,
      p_calls = 0, p_rejects = (\<lambda>n. None), p_elapsed = (\<lambda>n. 10),
      p_response = (\<lambda>n. Some \<lparr>r_status = 200, r_statusText = ''OK''\<rparr>),
      p_bytes = (\<lambda>n. 4096), p_bool = (\<lambda>n. True), p_count = (\<lambda>n. 2),
      p_metrics = (\<lambda>n. \<lparr>m_loadTime = 120, m_domContentLoaded = 80,
        m_firstContentfulPaint = 60, m_largestContentfulPaint = 90, m_domElements = 40,
        m_networkRequests = 7, m_documentSize = 2048, m_error = None\<rparr>)\<rparr>"

definition sample_service :: service where
  "sample_service =
     \<lparr>isInitialized = False, context_open = False, log = [], uuid = ''run-1'',
      bucketName = ''bucket'', svc_count = (\<lambda>c. 0), svc_rejects = (\<lambda>c n. None),
      svc_elapsed = (\<lambda>c n. 5), the_page = sample_page\<rparr>"

definition sample_options :: options where
  "sample_options = \<lparr>opt_timeout = None, opt_waitFor = Some ''main''\<rparr>"

definition sample_other :: "string \<Rightarrow> check" where
  "sample_other cid p arg =
     (if cid = ''seo-001'' then (Inl ''Target closed'', p)
      else (Inr \<lparr>o_status = (if cid = ''seo-002'' then VFail else VPass),
                 o_details = ''checked'', o_recommendations = None\<rparr>, p))"

text \<open>A registry of five shipped criteria: the performance and the SEO category.\<close>

definition sample_registry :: registry where
  "sample_registry =
     [(''performance'', category_of (evaluationCriteria sample_other) ''performance''),
      (''seo'', category_of (evaluationCriteria sample_other) ''seo'')]"

text \<open>The sample service, in front of a page that answers with HTTP 500.\<close>

definition http_500_service :: service where
  "http_500_service =
     sample_service\<lparr>the_page := sample_page\<lparr>p_response :=
       (\<lambda>n. Some \<lparr>r_status = 500, r_statusText = ''Internal Server Error''\<rparr>)\<rparr>\<rparr>"





text \<open>\<open>if (options.waitFor)\<close>: a selector is given and is not the empty string.\<close>

definition has_waitFor :: "options \<Rightarrow> bool" where
  "has_waitFor opts \<longleftrightarrow> (\<exists>selector. opt_waitFor opts = Some selector \<and> selector \<noteq> [])"

text \<open>The sample service, with a page on which both waits after navigation time out.\<close>

definition waits_fail_service :: service where
  "waits_fail_service =
     sample_service\<lparr>the_page := sample_page\<lparr>p_rejects :=
       (\<lambda>n. if n = 1 then Some ''page.waitForSelector: Timeout 10000ms exceeded.''
             else if n = 2 then Some ''page.waitForLoadState: Timeout 15000ms exceeded.''
             else None)\<rparr>\<rparr>"

text \<open>All criteria of a registry, in iteration order.\<close>

definition all_criteria :: "registry \<Rightarrow> criterion list" where
  "all_criteria reg = concat (map snd reg)"

text \<open>
  A registry whose only criterion has the id \<open>perf-001\<close> and a check that reports what
  it was called with: it passes exactly when its second argument is the timestamp
  \<open>expected\<close>, and its details are that argument.
\<close>

definition probe_check :: "int \<Rightarrow> check" where
  "probe_check expected p arg =
     (Inr \<lparr>o_status = (if arg = Some expected then VPass else VFail),
           o_details = (case arg of Some t \<Rightarrow> show_int t | None \<Rightarrow> ''undefined''),
           o_recommendations = None\<rparr>, p)"

definition probe_registry :: "int \<Rightarrow> registry" where
  "probe_registry expected =
     [(''performance'',
       [\<lparr>c_id = ''perf-001'', c_name = ''Page Load Time'',
         c_description = ''Page loads within 3 seconds'',
         c_impact = Critical, c_check = probe_check expected\<rparr>])]"

text \<open>The three usability criteria of the shipped registry.\<close>

definition use_001 :: criterion where
  "use_001 = \<lparr>c_id = ''use-001'', c_name = ''Mobile Responsive'',
               c_description = ''Site is mobile responsive'',
               c_impact = Critical, c_check = use_001_check\<rparr>"

definition use_002 :: criterion where
  "use_002 = \<lparr>c_id = ''use-002'', c_name = ''Navigation Structure'',
               c_description = ''Clear and consistent navigation'',
               c_impact = Major, c_check = use_002_check\<rparr>"

definition use_003 :: criterion where
  "use_003 = \<lparr>c_id = ''use-003'', c_name = ''Touch Target Size'',
               c_description = ''Touch targets are at least 44x44 pixels'',
               c_impact = Major, c_check = use_003_check\<rparr>"

text \<open>
  Criteria with a fixed outcome, for evaluations with a given tally: the check returns
  the given status, or throws for \<open>Error\<close>, and leaves the page alone.
\<close>

definition fixed_check :: "status \<Rightarrow> check" where
  "fixed_check st p arg =
     (case st of
        Pass \<Rightarrow> (Inr \<lparr>o_status = VPass, o_details = ''fixed'', o_recommendations = None\<rparr>, p)
      | Fail \<Rightarrow> (Inr \<lparr>o_status = VFail, o_details = ''fixed'', o_recommendations = None\<rparr>, p)
      | Warning \<Rightarrow>
          (Inr \<lparr>o_status = VWarning, o_details = ''fixed'', o_recommendations = None\<rparr>, p)
      | Info \<Rightarrow> (Inr \<lparr>o_status = VInfo, o_details = ''fixed'', o_recommendations = None\<rparr>, p)
      | Error \<Rightarrow> (Inl ''fixed'', p))"

definition fixed_criterion :: "status \<Rightarrow> criterion" where
  "fixed_criterion st =
     \<lparr>c_id = ''fixed'', c_name = ''Fixed outcome'', c_description = ''Returns a fixed outcome'',
      c_impact = Minor, c_check = fixed_check st\<rparr>"

definition tally_registry :: "nat \<Rightarrow> nat \<Rightarrow> nat \<Rightarrow> registry" where
  "tally_registry npass nfail nerror =
     [(''accessibility'',
       map fixed_criterion (replicate npass Pass @ replicate nfail Fail @ replicate nerror Error))]"

text \<open>
  The checks of a list of criteria, called one after the other the way the loop calls
  them, each on the page as its predecessor left it: the page after the last call.
\<close>

fun run_checks :: "int \<Rightarrow> criterion list \<Rightarrow> page \<Rightarrow> page" where
  "run_checks n [] p = p"
| "run_checks n (c # cs) p = run_checks n cs (snd (call_check c n p))"

text \<open>
  The entry that one turn of the loop pushes when the check is called on the page \<open>p\<close>;
  the entries of a list of criteria, each paired with its category.
\<close>

definition entry_of :: "string \<Rightarrow> criterion \<Rightarrow> int \<Rightarrow> page \<Rightarrow> evaluation_result" where
  "entry_of category c n p =
     (case call_check c n p of
        (Inr result, p') \<Rightarrow>
          \<lparr>e_category = category, e_id = c_id c, e_name = c_name c,
           e_description = c_description c, e_impact = c_impact c,
           e_status = status_of (o_status result), e_details = o_details result,
           e_recommendations = (case o_recommendations result of Some rs \<Rightarrow> rs | None \<Rightarrow> []),
           e_checkTime = Date_now p' - Date_now p\<rparr>
      | (Inl message, p') \<Rightarrow>
          \<lparr>e_category = category, e_id = c_id c, e_name = c_name c,
           e_description = c_description c, e_impact = c_impact c,
           e_status = Error, e_details = ''Evaluation failed: '' @ message,
           e_recommendations = [''Unable to evaluate - check page accessibility''],
           e_checkTime = 0\<rparr>)"

fun entries_of :: "int \<Rightarrow> (string \<times> criterion) list \<Rightarrow> page \<Rightarrow> evaluation_result list" where
  "entries_of n [] p = []"
| "entries_of n (x # xs) p =
     entry_of (fst x) (snd x) n p # entries_of n xs (snd (call_check (snd x) n p))"

definition registered :: "registry \<Rightarrow> (string \<times> criterion) list" where
  "registered reg = concat (map (\<lambda>(category, cs). map (Pair category) cs) reg)"

text \<open>
  A run of the sample service over the shipped registry with one viewport and no
  selector to wait for: its navigation, and the state in which its evaluation starts.
\<close>

definition desktop_only :: "viewport list" where
  "desktop_only = [\<lparr>v_name = ''desktop'', v_width = 1920, v_height = 1080\<rparr>]"

definition no_options :: options where
  "no_options = \<lparr>opt_timeout = None, opt_waitFor = None\<rparr>"

definition sample_navigation :: "(thrown + int) \<times> service" where
  "sample_navigation =
     open_page ''https://example.com'' no_options
       (logger LInfo (''Starting analysis for '' @ ''https://example.com'') sample_service)"

definition sample_evaluation_state :: service where
  "sample_evaluation_state =
     snd (takeScreenshots (uuid sample_service) desktop_only
            (wait_for_network_idle (wait_for_selector no_options (snd sample_navigation))))"

section \<open>Properties of the evaluation loop\<close>

section \<open>Unfolding a run\<close>

lemmas page_defs = Date_now_def await_page_def setViewportSize_def waitForTimeout_def
  waitForSelector_def waitForLoadState_def goto_def screenshot_def query_exists_def
  evaluate_bool_def eval_count_def evaluate_metrics_def

lemmas number_defs = compute_score_def js_div_def js_mul_def Math_round_def to_double_def
  scale_def rne_def bits.simps

lemmas registry_defs = fullEvaluationCriteria_def evaluationCriteria_def extendedCriteria_def
  category_of_def perf_001_check_def use_001_check_def use_002_check_def use_003_check_def
  show_bool_def show_int_def show_nat.simps

lemmas service_defs = analyzeUrl_def open_page_def initialize_def await_svc_def logger_def
  response_ok_def timeout_of_def wait_for_selector_def wait_for_network_idle_def
  finish_run_def takeScreenshots_def targetViewports_def defaultViewports_def
  capture_viewport_def screenshot_failed_def uploadScreenshot_def getPerformanceMetrics_def
  performEvaluation_def eval_criterion_def call_check_def count_category_def classify_def

lemmas sample_defs = sample_page_def sample_service_def sample_options_def sample_other_def
  sample_registry_def

lemma status_of_Pass [simp]: "(status_of v = Pass) = (v = VPass)"
  by (cases v) simp_all

lemma status_of_not_Error [simp]: "status_of v \<noteq> Error"
  by (cases v) simp_all

lemma eval_criterion_step:
  fixes category n c v s
  defines "v' \<equiv> fst (eval_criterion category n c (v, s))"
  shows "results v' = results v @ [last (results v')]
      \<and> totalItems v' = Suc (totalItems v)
      \<and> passedItems v' = passedItems v + (if e_status (last (results v')) = Pass then 1 else 0)
      \<and> pushed_for category c (last (results v'))"
  unfolding v'_def
  by (cases "call_check c n (the_page s)")
     (auto simp: eval_criterion_def pushed_for_def error_shape_def Let_def split: sum.splits)

lemma eval_criterion_counted:
  assumes "counted (fst st)"
  shows "counted (fst (eval_criterion category n c st))"
proof -
  obtain v s where st: "st = (v, s)" by (cases st)
  let ?v = "fst (eval_criterion category n c (v, s))"
  from eval_criterion_step[of category n c v s]
  have r: "results ?v = results v @ [last (results ?v)]"
    and t: "totalItems ?v = Suc (totalItems v)"
    and p: "passedItems ?v = passedItems v + (if e_status (last (results ?v)) = Pass then 1 else 0)"
    and e: "pushed_for category c (last (results ?v))"
    by blast+
  have len: "length (results ?v) = Suc (length (results v))"
    by (subst r) simp
  have flt: "length (filter (\<lambda>r. e_status r = Pass) (results ?v)) =
        length (filter (\<lambda>r. e_status r = Pass) (results v)) +
        (if e_status (last (results ?v)) = Pass then 1 else 0)"
    by (subst r) simp
  have mem: "set (results ?v) = insert (last (results ?v)) (set (results v))"
    by (subst r) simp
  from assms show ?thesis
    unfolding st counted_def using t p e len flt mem
    by (auto simp: pushed_for_def)
qed

lemma eval_criterion_keys:
  "map entry_key (results (fst (eval_criterion category n c (v, s)))) =
     map entry_key (results v) @ [(category, c_id c)]"
proof -
  let ?v = "fst (eval_criterion category n c (v, s))"
  from eval_criterion_step[of category n c v s]
  have r: "results ?v = results v @ [last (results ?v)]"
    and e: "pushed_for category c (last (results ?v))"
    by blast+
  show ?thesis
    by (subst r) (use e in \<open>simp add: pushed_for_def entry_key_def\<close>)
qed

lemma eval_criteria_counted:
  "counted (fst st) \<Longrightarrow> counted (fst (eval_criteria category n cs st))"
  by (induction cs arbitrary: st) (simp_all add: eval_criterion_counted)

lemma eval_criteria_keys:
  "map entry_key (results (fst (eval_criteria category n cs st))) =
     map entry_key (results (fst st)) @ map (\<lambda>c. (category, c_id c)) cs"
proof (induction cs arbitrary: st)
  case Nil
  show ?case by simp
next
  case (Cons c cs)
  obtain v s where st: "st = (v, s)" by (cases st)
  show ?case
    by (simp add: Cons.IH st eval_criterion_keys)
qed

lemma eval_categories_counted:
  "counted (fst st) \<Longrightarrow> counted (fst (eval_categories n reg st))"
proof (induction reg arbitrary: st)
  case Nil
  then show ?case by simp
next
  case (Cons entry reg)
  obtain category cs where entry: "entry = (category, cs)" by (cases entry)
  obtain v s where st: "st = (v, s)" by (cases st)
  from Cons.prems show ?case
    by (simp add: entry st Cons.IH eval_criteria_counted)
qed

lemma eval_categories_keys:
  "map entry_key (results (fst (eval_categories n reg st))) =
     map entry_key (results (fst st)) @ registry_keys reg"
proof (induction reg arbitrary: st)
  case Nil
  show ?case by (simp add: registry_keys_def)
next
  case (Cons entry reg)
  obtain category cs where entry: "entry = (category, cs)" by (cases entry)
  obtain v s where st: "st = (v, s)" by (cases st)
  show ?case
    by (simp add: entry st Cons.IH eval_criteria_keys registry_keys_def)
qed

lemma performEvaluation_items:
  "items (fst (performEvaluation reg n s)) =
     results (fst (eval_categories n reg
        (\<lparr>results = [], totalItems = 0, passedItems = 0\<rparr>,
         logger LInfo ''Starting 67-point evaluation...'' s)))"
  by (simp add: performEvaluation_def Let_def split: prod.splits)

lemma performEvaluation_summary:
  fixes reg n s
  defines "v \<equiv> fst (eval_categories n reg
        (\<lparr>results = [], totalItems = 0, passedItems = 0\<rparr>,
         logger LInfo ''Starting 67-point evaluation...'' s))"
  shows "total (summary (fst (performEvaluation reg n s))) = totalItems v"
    and "passed (summary (fst (performEvaluation reg n s))) = passedItems v"
    and "failed (summary (fst (performEvaluation reg n s))) = totalItems v - passedItems v"
    and "score (summary (fst (performEvaluation reg n s))) =
           compute_score (passedItems v) (totalItems v)"
  unfolding v_def
  by (simp_all add: performEvaluation_def Let_def split: prod.splits)

lemma performEvaluation_counted:
  "counted (fst (eval_categories n reg
        (\<lparr>results = [], totalItems = 0, passedItems = 0\<rparr>,
         logger LInfo ''Starting 67-point evaluation...'' s)))"
  by (rule eval_categories_counted) (simp add: counted_def)

lemma finish_run_Inr:
  assumes "finish_run reg u viewports analysisId startTime n s = (Inr run, s')"
  shows "ar_screenshots run = fst (takeScreenshots analysisId viewports s)"
    and "ar_analysis run =
           fst (performEvaluation reg n (snd (takeScreenshots analysisId viewports s)))"
  using assms
  by (auto simp: finish_run_def Let_def split: prod.splits option.splits)

lemma analyzeUrl_completed:
  assumes "analyzeUrl reg u viewports opts s = (Inr run, s')"
  shows "\<exists>n s1. ar_analysis run = fst (performEvaluation reg n s1)"
proof -
  from assms obtain n s1 s2 where
    "finish_run reg u viewports (uuid s) (Date_now (the_page s)) n s1 = (Inr run, s2)"
    by (auto simp: analyzeUrl_def Let_def split: prod.splits sum.splits)
  from finish_run_Inr(2)[OF this] show ?thesis by blast
qed


section \<open>When a run completes\<close>

lemma browser_starts_logger [simp]: "browser_starts (logger lv msg s) = browser_starts s"
  by (simp add: browser_starts_def logger_def)

lemma navigation_reply_logger [simp]: "navigation_reply (logger lv msg s) = navigation_reply s"
  by (simp add: navigation_reply_def logger_def split: option.splits)

lemma close_reply_logger [simp]: "close_reply (logger lv msg s) = close_reply s"
  by (simp add: close_reply_def logger_def)

lemma close_reply_page [simp]: "close_reply (s\<lparr>the_page := p\<rparr>) = close_reply s"
  by (simp add: close_reply_def)

lemma close_reply_await_svc:
  "c \<noteq> ContextClose \<Longrightarrow> close_reply (snd (await_svc c s)) = close_reply s"
  by (simp add: close_reply_def await_svc_def)

lemma close_reply_capture_viewport:
  "close_reply (snd (capture_viewport analysisId vp s)) = close_reply s"
  by (simp add: capture_viewport_def screenshot_failed_def uploadScreenshot_def Let_def
        close_reply_def await_svc_def logger_def
      split: prod.splits option.splits sum.splits)

lemma close_reply_capture_all:
  "close_reply (snd (capture_all analysisId vps s)) = close_reply s"
proof (induction vps arbitrary: s)
  case Nil
  show ?case by simp
next
  case (Cons vp vps)
  show ?case
    by (simp add: case_prod_unfold Cons.IH close_reply_capture_viewport)
qed

lemma close_reply_eval_criterion:
  "close_reply (snd (eval_criterion category n c st)) = close_reply (snd st)"
  by (cases st) (simp add: eval_criterion_def Let_def split: prod.splits sum.splits)

lemma close_reply_eval_criteria:
  "close_reply (snd (eval_criteria category n cs st)) = close_reply (snd st)"
  by (induction cs arbitrary: st) (simp_all add: close_reply_eval_criterion)

lemma close_reply_eval_categories:
  "close_reply (snd (eval_categories n reg st)) = close_reply (snd st)"
proof (induction reg arbitrary: st)
  case Nil
  show ?case by simp
next
  case (Cons entry reg)
  obtain category cs where entry: "entry = (category, cs)" by (cases entry)
  obtain v s where st: "st = (v, s)" by (cases st)
  show ?case by (simp add: entry st Cons.IH close_reply_eval_criteria)
qed

lemma close_reply_performEvaluation:
  "close_reply (snd (performEvaluation reg n s)) = close_reply s"
  by (simp add: performEvaluation_def Let_def case_prod_unfold close_reply_eval_categories)

lemma close_reply_getPerformanceMetrics:
  "close_reply (snd (getPerformanceMetrics s)) = close_reply s"
  by (simp add: getPerformanceMetrics_def split: prod.splits sum.splits)

lemma close_reply_waits:
  "close_reply (wait_for_network_idle (wait_for_selector opts s)) = close_reply s"
  by (simp add: wait_for_network_idle_def wait_for_selector_def
      split: prod.splits option.splits)

lemma finish_run_succeeds:
  assumes "close_reply s = None"
  shows "\<exists>run s'. finish_run reg u viewports analysisId startTime n s = (Inr run, s')"
proof -
  obtain shots s1 where 1: "takeScreenshots analysisId viewports s = (shots, s1)"
    by (cases "takeScreenshots analysisId viewports s")
  obtain a s2 where 2: "performEvaluation reg n s1 = (a, s2)"
    by (cases "performEvaluation reg n s1")
  obtain m s3 where 3: "getPerformanceMetrics s2 = (m, s3)"
    by (cases "getPerformanceMetrics s2")
  have "close_reply s1 = close_reply s"
    using close_reply_capture_all[of analysisId "targetViewports viewports" s] 1
    by (simp add: takeScreenshots_def)
  moreover have "close_reply s2 = close_reply s1"
    using close_reply_performEvaluation[of reg n s1] 2 by simp
  moreover have "close_reply s3 = close_reply s2"
    using close_reply_getPerformanceMetrics[of s2] 3 by simp
  ultimately have "fst (await_svc ContextClose s3) = None"
    using assms by (simp add: close_reply_def await_svc_def)
  then show ?thesis
    by (cases "await_svc ContextClose s3") (simp add: finish_run_def 1 2 3 Let_def)
qed

lemma open_page_succeeds:
  assumes "browser_starts s" and "navigation_reply s = Inr (Some resp)" and "response_ok resp"
  shows "\<exists>n s1. open_page u opts s = (Inr n, s1) \<and> close_reply s1 = close_reply s"
  using assms
  by (auto simp: open_page_def initialize_def browser_starts_def navigation_reply_def
        await_svc_def logger_def goto_def await_page_def close_reply_def Let_def
      split: option.splits)

lemma analyzeUrl_succeeds:
  assumes "browser_starts s" and "navigation_reply s = Inr (Some resp)" and "response_ok resp"
    and "close_reply s = None"
  shows "\<exists>run s'. analyzeUrl reg u viewports opts s = (Inr run, s')"
proof -
  let ?s = "logger LInfo (''Starting analysis for '' @ u) s"
  have "browser_starts ?s" "navigation_reply ?s = Inr (Some resp)"
    using assms(1,2) by simp_all
  from open_page_succeeds[OF this assms(3)] obtain n s1
    where o: "open_page u opts ?s = (Inr n, s1)" and c: "close_reply s1 = close_reply ?s"
    by blast
  have "close_reply (wait_for_network_idle (wait_for_selector opts s1)) = None"
    using c assms(4) by (simp add: close_reply_waits)
  from finish_run_succeeds[OF this] obtain run s' where
    "finish_run reg u viewports (uuid s) (Date_now (the_page s)) n
       (wait_for_network_idle (wait_for_selector opts s1)) = (Inr run, s')"
    by blast
  with o show ?thesis
    by (simp add: analyzeUrl_def Let_def)
qed

lemma sample_service_runs:
  "browser_starts sample_service"
  "navigation_reply sample_service = Inr (Some \<lparr>r_status = 200, r_statusText = ''OK''\<rparr>)"
  "response_ok \<lparr>r_status = 200, r_statusText = ''OK''\<rparr>"
  "close_reply sample_service = None"
  by (simp_all add: browser_starts_def navigation_reply_def response_ok_def close_reply_def
        sample_service_def sample_page_def)

lemma registry_keys_sample:
  "registry_keys sample_registry =
     [(''performance'', ''perf-001''), (''performance'', ''perf-002''),
      (''performance'', ''perf-003''), (''seo'', ''seo-001''), (''seo'', ''seo-002'')]"
  by (simp add: registry_keys_def sample_registry_def category_of_def evaluationCriteria_def)

lemma error_shape_details:
  assumes "error_shape r" and "e_status r = Error"
  shows "e_checkTime r = 0"
    and "e_recommendations r = [''Unable to evaluate - check page accessibility'']"
    and "\<exists>message. e_details r = ''Evaluation failed: '' @ message"
proof -
  from assms have t: "take 19 (e_details r) = ''Evaluation failed: ''"
    and "e_checkTime r = 0"
    and "e_recommendations r = [''Unable to evaluate - check page accessibility'']"
    by (simp_all add: error_shape_def)
  then show "e_checkTime r = 0"
    and "e_recommendations r = [''Unable to evaluate - check page accessibility'']"
    by simp_all
  have "e_details r = take 19 (e_details r) @ drop 19 (e_details r)" by simp
  with t have "e_details r = ''Evaluation failed: '' @ drop 19 (e_details r)" by simp
  then show "\<exists>message. e_details r = ''Evaluation failed: '' @ message" ..
qed

lemma performEvaluation_keys:
  "map entry_key (items (fst (performEvaluation reg n s))) = registry_keys reg"
  by (simp add: performEvaluation_items eval_categories_keys)

lemma eval_criterion_throws:
  assumes "call_check c n (the_page s) = (Inl message, p')"
  shows "results (fst (eval_criterion category n c (v, s))) =
           results v @ [\<lparr>e_category = category, e_id = c_id c, e_name = c_name c,
                          e_description = c_description c, e_impact = c_impact c,
                          e_status = Error, e_details = ''Evaluation failed: '' @ message,
                          e_recommendations =
                            [''Unable to evaluate - check page accessibility''],
                          e_checkTime = 0\<rparr>]"
  using assms by (simp add: eval_criterion_def Let_def)

lemma sample_seo_001:
  "items (fst (performEvaluation sample_registry 100 sample_service)) ! 3 =
     \<lparr>e_category = ''seo'', e_id = ''seo-001'', e_name = ''Title Tag'',
      e_description = ''Page has unique and descriptive title'', e_impact = Critical,
      e_status = Error, e_details = ''Evaluation failed: Target closed'',
      e_recommendations = [''Unable to evaluate - check page accessibility''],
      e_checkTime = 0\<rparr>"
  by (simp add: performEvaluation_def eval_criterion_def call_check_def logger_def
       sample_defs category_of_def evaluationCriteria_def perf_001_check_def Date_now_def Let_def)


lemma sample_seo_001_throws:
  "call_check (category_of (evaluationCriteria sample_other) ''seo'' ! 0) 100
     (the_page sample_service) = (Inl ''Target closed'', sample_page)"
  by (simp add: call_check_def sample_defs category_of_def evaluationCriteria_def)

section \<open>When navigation fails\<close>

lemma open_page_no_response:
  assumes "browser_starts s" and "navigation_reply s = Inr None"
  shows "\<exists>s1. open_page u opts s =
           (Inl (AppErr \<lparr>ae_message = ''Failed to load page'', ae_statusCode = 502,
                          ae_code = ''PAGE_LOAD_FAILED'', ae_details = []\<rparr>), s1)
         \<and> context_open s1 \<and> p_calls (the_page s1) = Suc (p_calls (the_page s))"
  using assms
  by (auto simp: open_page_def initialize_def browser_starts_def navigation_reply_def
        await_svc_def logger_def goto_def await_page_def Let_def
      split: option.splits)

lemma open_page_http_error:
  assumes "browser_starts s" and "navigation_reply s = Inr (Some resp)"
    and "\<not> response_ok resp"
  shows "\<exists>s1. open_page u opts s =
           (Inl (AppErr \<lparr>ae_message = ''HTTP '' @ show_nat (r_status resp) @ '': '' @
                                       r_statusText resp,
                          ae_statusCode = 502, ae_code = ''HTTP_ERROR'',
                          ae_details = [(''status'', DNum (int (r_status resp))),
                                        (''statusText'', DStr (r_statusText resp))]\<rparr>), s1)
         \<and> context_open s1 \<and> p_calls (the_page s1) = Suc (p_calls (the_page s))"
  using assms
  by (auto simp: open_page_def initialize_def browser_starts_def navigation_reply_def
        await_svc_def logger_def goto_def await_page_def Let_def
      split: option.splits)

text \<open>
  When \<open>open_page\<close> throws, \<open>analyzeUrl\<close> throws the classified error, whatever the
  registry and the viewports are: neither is looked at.
\<close>

lemma analyzeUrl_open_page_throws:
  assumes "open_page u opts (logger LInfo (''Starting analysis for '' @ u) s) = (Inl err, s1)"
  shows "analyzeUrl reg u viewports opts s =
           (Inl (classify u opts err), logger LError (''Analysis failed for '' @ u @ '':'') s1)"
  using assms by (simp add: analyzeUrl_def Let_def)

lemma page_calls_logger [simp]: "the_page (logger lv msg s) = the_page s"
  by (simp add: logger_def)

lemma context_open_logger [simp]: "context_open (logger lv msg s) = context_open s"
  by (simp add: logger_def)

lemma classify_AppErr [simp]: "classify u opts (AppErr e) = e"
  by (simp add: classify_def)

lemma http_500_service_replies:
  "browser_starts http_500_service"
  "navigation_reply http_500_service =
     Inr (Some \<lparr>r_status = 500, r_statusText = ''Internal Server Error''\<rparr>)"
  "\<not> context_open http_500_service"
  by (simp_all add: browser_starts_def navigation_reply_def http_500_service_def
        sample_service_def sample_page_def)

lemma finish_run_closes_context:
  assumes "finish_run reg u viewports analysisId startTime n s = (Inr run, s')"
  shows "\<not> context_open s'"
  using assms
  by (auto simp: finish_run_def Let_def split: prod.splits option.splits)

lemma analyzeUrl_closes_context:
  assumes "analyzeUrl reg u viewports opts s = (Inr run, s')"
  shows "\<not> context_open s'"
proof -
  from assms obtain n s1 where
    "finish_run reg u viewports (uuid s) (Date_now (the_page s)) n s1 = (Inr run, s')"
    by (auto simp: analyzeUrl_def Let_def split: prod.splits sum.splits)
  then show ?thesis by (rule finish_run_closes_context)
qed

lemma analyzeUrl_http_error_state:
  assumes "browser_starts s" and "navigation_reply s = Inr (Some resp)"
    and "\<not> response_ok resp"
  shows "\<exists>e s'. analyzeUrl reg u viewports opts s = (Inl e, s') \<and> ae_code e = ''HTTP_ERROR''
           \<and> context_open s'"
proof -
  let ?s = "logger LInfo (''Starting analysis for '' @ u) s"
  have "browser_starts ?s" "navigation_reply ?s = Inr (Some resp)"
    using assms by simp_all
  from open_page_http_error[OF this assms(3), of u opts] obtain s1 e where
    o: "open_page u opts ?s = (Inl (AppErr e), s1)" and e: "ae_code e = ''HTTP_ERROR''"
    and c: "context_open s1"
    by force
  from analyzeUrl_open_page_throws[OF o] e c show ?thesis by simp
qed

section \<open>Screenshots\<close>









section \<open>The log only grows\<close>

lemma log_capture_viewport:
  "set (log s) \<subseteq> set (log (snd (capture_viewport analysisId vp s)))"
  by (auto simp: capture_viewport_def screenshot_failed_def uploadScreenshot_def Let_def
        await_svc_def logger_def
      split: prod.splits option.splits sum.splits)

lemma log_capture_all:
  "set (log s) \<subseteq> set (log (snd (capture_all analysisId vps s)))"
proof (induction vps arbitrary: s)
  case Nil
  show ?case by simp
next
  case (Cons vp vps)
  have "set (log s) \<subseteq> set (log (snd (capture_viewport analysisId vp s)))"
    by (rule log_capture_viewport)
  also have "\<dots> \<subseteq> set (log (snd (capture_all analysisId vps
                          (snd (capture_viewport analysisId vp s)))))"
    by (rule Cons.IH)
  finally show ?case by (simp add: case_prod_unfold)
qed

lemma log_eval_criterion:
  "set (log (snd st)) \<subseteq> set (log (snd (eval_criterion category n c st)))"
  by (cases st)
     (auto simp: eval_criterion_def Let_def logger_def split: prod.splits sum.splits)

lemma log_eval_criteria:
  "set (log (snd st)) \<subseteq> set (log (snd (eval_criteria category n cs st)))"
proof (induction cs arbitrary: st)
  case Nil
  show ?case by simp
next
  case (Cons c cs)
  have "set (log (snd st)) \<subseteq> set (log (snd (eval_criterion category n c st)))"
    by (rule log_eval_criterion)
  also have "\<dots> \<subseteq> set (log (snd (eval_criteria category n cs
                          (eval_criterion category n c st))))"
    by (rule Cons.IH)
  finally show ?case by simp
qed

lemma log_eval_categories:
  "set (log (snd st)) \<subseteq> set (log (snd (eval_categories n reg st)))"
proof (induction reg arbitrary: st)
  case Nil
  show ?case by simp
next
  case (Cons entry reg)
  obtain category cs where entry: "entry = (category, cs)" by (cases entry)
  obtain v s where st: "st = (v, s)" by (cases st)
  let ?s = "logger LDebug (''Evaluating '' @ category @ '' ('' @
                    show_nat (length cs) @ '' items)'') s"
  have "set (log s) \<subseteq> set (log ?s)" by (auto simp: logger_def)
  also have "\<dots> \<subseteq> set (log (snd (eval_criteria category n cs (v, ?s))))"
    using log_eval_criteria[of "(v, ?s)" category n cs] by simp
  also have "\<dots> \<subseteq> set (log (snd (eval_categories n reg
                          (eval_criteria category n cs (v, ?s)))))"
    by (rule Cons.IH)
  finally show ?case by (simp add: entry st)
qed

lemma log_performEvaluation:
  "set (log s) \<subseteq> set (log (snd (performEvaluation reg n s)))"
proof -
  let ?s = "logger LInfo ''Starting 67-point evaluation...'' s"
  let ?v = "\<lparr>results = [], totalItems = 0, passedItems = 0\<rparr>"
  have "set (log s) \<subseteq> set (log ?s)" by (auto simp: logger_def)
  also have "\<dots> \<subseteq> set (log (snd (eval_categories n reg (?v, ?s))))"
    using log_eval_categories[of "(?v, ?s)" n reg] by simp
  also have "\<dots> \<subseteq> set (log (snd (performEvaluation reg n s)))"
    by (auto simp: performEvaluation_def Let_def case_prod_unfold logger_def)
  finally show ?thesis .
qed

lemma log_getPerformanceMetrics:
  "set (log s) \<subseteq> set (log (snd (getPerformanceMetrics s)))"
  by (auto simp: getPerformanceMetrics_def logger_def split: prod.splits sum.splits)

lemma log_finish_run:
  "set (log s) \<subseteq> set (log (snd (finish_run reg u viewports analysisId startTime n s)))"
proof -
  obtain shots s1 where 1: "takeScreenshots analysisId viewports s = (shots, s1)"
    by (cases "takeScreenshots analysisId viewports s")
  obtain a s2 where 2: "performEvaluation reg n s1 = (a, s2)"
    by (cases "performEvaluation reg n s1")
  obtain m s3 where 3: "getPerformanceMetrics s2 = (m, s3)"
    by (cases "getPerformanceMetrics s2")
  have "set (log s) \<subseteq> set (log s1)"
    using log_capture_all[of s analysisId "targetViewports viewports"] 1
    by (simp add: takeScreenshots_def)
  also have "\<dots> \<subseteq> set (log s2)"
    using log_performEvaluation[of s1 reg n] 2 by simp
  also have "\<dots> \<subseteq> set (log s3)"
    using log_getPerformanceMetrics[of s2] 3 by simp
  also have "\<dots> \<subseteq> set (log (snd (finish_run reg u viewports analysisId startTime n s)))"
    by (auto simp: finish_run_def 1 2 3 Let_def await_svc_def logger_def split: option.splits)
  finally show ?thesis .
qed

section \<open>The waits after navigation\<close>

lemma open_page_succeeds_page:
  assumes "browser_starts s" and "navigation_reply s = Inr (Some resp)" and "response_ok resp"
  shows "\<exists>n s1. open_page u opts s = (Inr n, s1) \<and> close_reply s1 = close_reply s
           \<and> p_calls (the_page s1) = Suc (p_calls (the_page s))
           \<and> p_rejects (the_page s1) = p_rejects (the_page s)"
  using assms
  by (auto simp: open_page_def initialize_def browser_starts_def navigation_reply_def
        await_svc_def logger_def goto_def await_page_def close_reply_def Let_def
      split: option.splits)

lemma wait_for_selector_page:
  "p_rejects (the_page (wait_for_selector opts s)) = p_rejects (the_page s)"
  "has_waitFor opts \<Longrightarrow>
     p_calls (the_page (wait_for_selector opts s)) = Suc (p_calls (the_page s))"
  "\<not> has_waitFor opts \<Longrightarrow>
     p_calls (the_page (wait_for_selector opts s)) = p_calls (the_page s)"
  "set (log s) \<subseteq> set (log (wait_for_selector opts s))"
  by (auto simp: wait_for_selector_def waitForSelector_def await_page_def logger_def
        has_waitFor_def
      split: option.splits prod.splits)

lemma wait_for_selector_warns:
  assumes "opt_waitFor opts = Some selector" and "selector \<noteq> []"
    and "p_rejects (the_page s) (p_calls (the_page s)) = Some e"
  shows "(LWarn, ''Wait for selector failed: '' @ selector) \<in> set (log (wait_for_selector opts s))"
  using assms
  by (simp add: wait_for_selector_def waitForSelector_def await_page_def logger_def)

lemma wait_for_network_idle_warns:
  assumes "p_rejects (the_page s) (p_calls (the_page s)) = Some e"
  shows "(LWarn, ''Network idle timeout - continuing with analysis'')
           \<in> set (log (wait_for_network_idle s))"
  using assms
  by (simp add: wait_for_network_idle_def waitForLoadState_def await_page_def logger_def)

lemma wait_for_network_idle_log:
  "set (log s) \<subseteq> set (log (wait_for_network_idle s))"
  by (auto simp: wait_for_network_idle_def waitForLoadState_def await_page_def logger_def
      split: option.splits prod.splits)

lemma waits_fail_service_runs:
  "browser_starts waits_fail_service"
  "navigation_reply waits_fail_service = Inr (Some \<lparr>r_status = 200, r_statusText = ''OK''\<rparr>)"
  "response_ok \<lparr>r_status = 200, r_statusText = ''OK''\<rparr>"
  "close_reply waits_fail_service = None"
  by (simp_all add: browser_starts_def navigation_reply_def response_ok_def close_reply_def
        waits_fail_service_def sample_service_def sample_page_def)

section \<open>The second argument of a check\<close>

lemma call_check_other:
  "c_id c \<noteq> ''perf-001'' \<Longrightarrow> call_check c n p = c_check c p None"
  by (simp add: call_check_def)

lemma eval_criterion_independent:
  "c_id c \<noteq> ''perf-001'' \<Longrightarrow> eval_criterion category n c st = eval_criterion category n' c st"
  by (simp add: eval_criterion_def call_check_def)

lemma eval_criteria_independent:
  "\<forall>c \<in> set cs. c_id c \<noteq> ''perf-001'' \<Longrightarrow>
     eval_criteria category n cs st = eval_criteria category n' cs st"
proof (induction cs arbitrary: st)
  case Nil
  show ?case by simp
next
  case (Cons c cs)
  then have "eval_criterion category n c st = eval_criterion category n' c st"
    by (simp add: eval_criterion_independent)
  with Cons show ?case by simp
qed

lemma eval_categories_independent:
  "\<forall>c \<in> set (all_criteria reg). c_id c \<noteq> ''perf-001'' \<Longrightarrow>
     eval_categories n reg st = eval_categories n' reg st"
proof (induction reg arbitrary: st)
  case Nil
  show ?case by simp
next
  case (Cons entry reg)
  obtain category cs where entry: "entry = (category, cs)" by (cases entry)
  from Cons.prems have cs: "\<forall>c \<in> set cs. c_id c \<noteq> ''perf-001''"
    and reg: "\<forall>c \<in> set (all_criteria reg). c_id c \<noteq> ''perf-001''"
    by (simp_all add: all_criteria_def entry)
  show ?case
    by (simp add: entry Cons.IH[OF reg] eval_criteria_independent[OF cs, of category n _ n'])
qed

lemma performEvaluation_independent:
  "\<forall>c \<in> set (all_criteria reg). c_id c \<noteq> ''perf-001'' \<Longrightarrow>
     performEvaluation reg n s = performEvaluation reg n' s"
  by (simp add: performEvaluation_def eval_categories_independent[of reg n _ n'])

text \<open>\<open>navigationTime\<close> is the time the \<open>page.goto\<close> call took.\<close>

lemma open_page_navigationTime:
  assumes "open_page u opts s = (Inr n, s1)"
  shows "n = int (p_elapsed (the_page s) (p_calls (the_page s)))"
  using assms
  by (auto simp: open_page_def initialize_def await_svc_def logger_def goto_def await_page_def
        Date_now_def Let_def
      split: option.splits if_splits prod.splits sum.splits)

lemma perf_001_in_registry:
  "filter (\<lambda>c. c_id c = ''perf-001'') (all_criteria (fullEvaluationCriteria other)) =
     [\<lparr>c_id = ''perf-001'', c_name = ''Page Load Time'',
       c_description = ''Page loads within 3 seconds'',
       c_impact = Critical, c_check = perf_001_check\<rparr>]"
  by (simp add: all_criteria_def fullEvaluationCriteria_def evaluationCriteria_def
        extendedCriteria_def category_of_def)


section \<open>The viewport during evaluation\<close>

lemma use_001_resizes:
  "p_rejects p (p_calls p) = None \<Longrightarrow> p_viewport (snd (use_001_check p arg)) = (375, 667)"
  by (simp add: use_001_check_def setViewportSize_def waitForTimeout_def query_exists_def
        evaluate_bool_def await_page_def
      split: option.splits prod.splits sum.splits)

lemma use_001_returns:
  "fst (use_001_check p arg) = Inr out \<Longrightarrow> p_rejects p (p_calls p) = None"
  by (auto simp: use_001_check_def setViewportSize_def await_page_def
      split: option.splits prod.splits sum.splits)

lemma use_001_rejected:
  "p_rejects p (p_calls p) = Some e \<Longrightarrow>
     fst (use_001_check p arg) = Inl e \<and> p_viewport (snd (use_001_check p arg)) = p_viewport p"
  by (simp add: use_001_check_def setViewportSize_def await_page_def)

lemma use_002_viewport: "p_viewport (snd (use_002_check p arg)) = p_viewport p"
  by (simp add: use_002_check_def eval_count_def await_page_def
      split: option.splits prod.splits sum.splits)

lemma use_003_viewport: "p_viewport (snd (use_003_check p arg)) = p_viewport p"
  by (simp add: use_003_check_def eval_count_def await_page_def
      split: option.splits prod.splits sum.splits)

lemma eval_criterion_page:
  "the_page (snd (eval_criterion category n c (v, s))) = snd (call_check c n (the_page s))"
  by (simp add: eval_criterion_def Let_def logger_def split: prod.splits sum.splits)

lemma eval_criterion_error_iff:
  "e_status (last (results (fst (eval_criterion category n c (v, s))))) = Error
     \<longleftrightarrow> isl (fst (call_check c n (the_page s)))"
  by (cases "call_check c n (the_page s)")
     (auto simp: eval_criterion_def Let_def split: sum.splits)

lemma call_check_usability:
  "call_check use_001 n p = use_001_check p None"
  "call_check use_002 n p = use_002_check p None"
  "call_check use_003 n p = use_003_check p None"
  by (simp_all add: call_check_def use_001_def use_002_def use_003_def)

lemma usability_last:
  "fullEvaluationCriteria other =
     take 4 (fullEvaluationCriteria other) @ [(''usability'', [use_001, use_002, use_003])]"
  by (simp add: fullEvaluationCriteria_def evaluationCriteria_def extendedCriteria_def
        category_of_def use_001_def use_002_def use_003_def)

lemma before_usability_ids:
  "''use-001'' \<notin> snd ` set (registry_keys (take 4 (fullEvaluationCriteria other)))"
  by (simp add: fullEvaluationCriteria_def evaluationCriteria_def extendedCriteria_def
        category_of_def registry_keys_def)

lemma after_use_001:
  "dropWhile (\<lambda>c. c_id c \<noteq> ''use-001'') (all_criteria (fullEvaluationCriteria other)) =
     [use_001, use_002, use_003]"
  by (simp add: all_criteria_def fullEvaluationCriteria_def evaluationCriteria_def
        extendedCriteria_def category_of_def use_001_def use_002_def use_003_def)

lemma eval_categories_append:
  "eval_categories n (xs @ ys) st = eval_categories n ys (eval_categories n xs st)"
proof (induction xs arbitrary: st)
  case Nil
  show ?case by simp
next
  case (Cons entry xs)
  obtain category cs where entry: "entry = (category, cs)" by (cases entry)
  show ?case by (simp add: entry Cons.IH)
qed

text \<open>The usability turns, from the state in which the first of them starts.\<close>

lemma usability_turns:
  fixes n v s
  defines "st1 \<equiv> eval_criterion ''usability'' n use_001 (v, s)"
  defines "st2 \<equiv> eval_criterion ''usability'' n use_002 st1"
  defines "st3 \<equiv> eval_criterion ''usability'' n use_003 st2"
  assumes "p_rejects (the_page s) (p_calls (the_page s)) = None"
  shows "p_viewport (the_page (snd st1)) = (375, 667)"
    and "p_viewport (the_page (snd st2)) = (375, 667)"
    and "p_viewport (the_page (snd st3)) = (375, 667)"
proof -
  show 1: "p_viewport (the_page (snd st1)) = (375, 667)"
    unfolding st1_def using assms(4)
    by (simp add: eval_criterion_page call_check_usability use_001_resizes)
  obtain v1 s1 where s1: "st1 = (v1, s1)" by (cases st1)
  show 2: "p_viewport (the_page (snd st2)) = (375, 667)"
    unfolding st2_def using 1
    by (simp add: s1 eval_criterion_page call_check_usability use_002_viewport)
  obtain v2 s2 where s2: "st2 = (v2, s2)" by (cases st2)
  show "p_viewport (the_page (snd st3)) = (375, 667)"
    unfolding st3_def using 2
    by (simp add: s2 eval_criterion_page call_check_usability use_003_viewport)
qed

lemma performEvaluation_page:
  "the_page (snd (performEvaluation reg n s)) =
     the_page (snd (eval_categories n reg
        (\<lparr>results = [], totalItems = 0, passedItems = 0\<rparr>,
         logger LInfo ''Starting 67-point evaluation...'' s)))"
  by (simp add: performEvaluation_def Let_def case_prod_unfold)

lemma viewport_after_evaluation:
  assumes "r \<in> set (items (fst (performEvaluation (fullEvaluationCriteria other) n s)))"
    and "e_id r = ''use-001''" and "e_status r \<noteq> Error"
  shows "p_viewport (the_page (snd (performEvaluation (fullEvaluationCriteria other) n s)))
           = (375, 667)"
proof -
  let ?pre = "take 4 (fullEvaluationCriteria other)"
  let ?st0 = "(\<lparr>results = [], totalItems = 0, passedItems = 0\<rparr>,
               logger LInfo ''Starting 67-point evaluation...'' s)"
  obtain v4 s4 where st4: "eval_categories n ?pre ?st0 = (v4, s4)"
    by (cases "eval_categories n ?pre ?st0")
  define su where "su = logger LDebug (''Evaluating '' @ ''usability'' @ '' ('' @
              show_nat (length [use_001, use_002, use_003]) @ '' items)'') s4"
  obtain v1 s1 where s1: "eval_criterion ''usability'' n use_001 (v4, su) = (v1, s1)"
    by (cases "eval_criterion ''usability'' n use_001 (v4, su)")
  obtain v2 s2 where s2: "eval_criterion ''usability'' n use_002 (v1, s1) = (v2, s2)"
    by (cases "eval_criterion ''usability'' n use_002 (v1, s1)")
  obtain v3 s3 where s3: "eval_criterion ''usability'' n use_003 (v2, s2) = (v3, s3)"
    by (cases "eval_criterion ''usability'' n use_003 (v2, s2)")
  have "eval_categories n (fullEvaluationCriteria other) ?st0 =
          eval_categories n [(''usability'', [use_001, use_002, use_003])] (v4, s4)"
    by (subst usability_last) (simp only: eval_categories_append st4)
  also have "\<dots> = eval_criteria ''usability'' n [use_001, use_002, use_003] (v4, su)"
    by (simp only: eval_categories.simps su_def prod.case)
  also have "\<dots> = (v3, s3)"
    by (simp only: eval_criteria.simps s1 s2 s3)
  finally have fin: "eval_categories n (fullEvaluationCriteria other) ?st0 = (v3, s3)" .
  have k4: "map entry_key (results v4) = registry_keys ?pre"
    using eval_categories_keys[of n ?pre ?st0] by (simp add: st4)
  from eval_criterion_step[of "''usability''" n use_001 v4 su]
  have r1: "results v1 = results v4 @ [last (results v1)]"
    and i1: "e_id (last (results v1)) = c_id use_001"
    unfolding s1 by (simp_all add: pushed_for_def)
  from eval_criterion_step[of "''usability''" n use_002 v1 s1]
  have r2: "results v2 = results v1 @ [last (results v2)]"
    and i2: "e_id (last (results v2)) = c_id use_002"
    unfolding s2 by (simp_all add: pushed_for_def)
  from eval_criterion_step[of "''usability''" n use_003 v2 s2]
  have r3: "results v3 = results v2 @ [last (results v3)]"
    and i3: "e_id (last (results v3)) = c_id use_003"
    unfolding s3 by (simp_all add: pushed_for_def)
  have "items (fst (performEvaluation (fullEvaluationCriteria other) n s)) = results v3"
    by (simp add: performEvaluation_items fin)
  with assms(1) have "r \<in> set (results v3)" by simp
  then have "r \<in> set (results v4) \<or> r = last (results v1) \<or>
      r = last (results v2) \<or> r = last (results v3)"
    by (subst (asm) r3, subst (asm) r2, subst (asm) r1) auto
  moreover have "r \<notin> set (results v4)"
  proof
    assume "r \<in> set (results v4)"
    then have "entry_key r \<in> set (map entry_key (results v4))" by simp
    with k4 have "e_id r \<in> snd ` set (registry_keys ?pre)"
      by (force simp: entry_key_def)
    with assms(2) before_usability_ids[of other] show False by simp
  qed
  moreover have "r \<noteq> last (results v2)" "r \<noteq> last (results v3)"
    using assms(2) i2 i3 by (auto simp: use_002_def use_003_def)
  ultimately have "r = last (results v1)" by blast
  with assms(3) have "\<not> isl (fst (call_check use_001 n (the_page su)))"
    using eval_criterion_error_iff[of "''usability''" n use_001 v4 su] by (simp add: s1)
  then obtain out where "fst (use_001_check (the_page su) None) = Inr out"
    by (cases "fst (use_001_check (the_page su) None)") (simp_all add: call_check_usability)
  from use_001_returns[OF this]
  have "p_rejects (the_page su) (p_calls (the_page su)) = None" .
  from usability_turns(3)[OF this, of n v4]
  show ?thesis by (simp add: performEvaluation_page fin s1 s2 s3)
qed

text \<open>The screenshots of a run do not depend on the registry.\<close>

lemma analyzeUrl_screenshots:
  assumes "analyzeUrl reg u viewports opts s = (Inr run, s')"
  shows "\<exists>n s1. open_page u opts (logger LInfo (''Starting analysis for '' @ u) s) = (Inr n, s1)
           \<and> ar_screenshots run =
               fst (takeScreenshots (uuid s) viewports
                      (wait_for_network_idle (wait_for_selector opts s1)))"
proof -
  from assms obtain n s1 where
    o: "open_page u opts (logger LInfo (''Starting analysis for '' @ u) s) = (Inr n, s1)"
    and f: "finish_run reg u viewports (uuid s) (Date_now (the_page s)) n
       (wait_for_network_idle (wait_for_selector opts s1)) = (Inr run, s')"
    by (auto simp: analyzeUrl_def Let_def split: prod.splits sum.splits)
  from finish_run_Inr(1)[OF f] o show ?thesis by blast
qed

lemma screenshots_independent_of_registry:
  assumes "analyzeUrl reg u viewports opts s = (Inr run, s')"
    and "analyzeUrl reg' u viewports opts s = (Inr run', s'')"
  shows "ar_screenshots run = ar_screenshots run'"
  using analyzeUrl_screenshots[OF assms(1)] analyzeUrl_screenshots[OF assms(2)]
  by auto

text \<open>The usability entries of an evaluation of the shipped registry, evaluated.\<close>

lemma sample_usability_entries:
  "map (\<lambda>r. (e_id r, e_status r))
     (drop 30 (items (fst (performEvaluation (fullEvaluationCriteria sample_other) 10
        sample_service)))) =
     [(''use-001'', Fail), (''use-002'', Pass), (''use-003'', Warning)]"
  by (simp add: page_defs number_defs registry_defs service_defs sample_defs Let_def
      cong: prod.case_cong_weak let_weak_cong)

section \<open>The score\<close>

lemma bits_bounds:
  "0 < n \<Longrightarrow> 2 ^ bits n \<le> 2 * n \<and> n < 2 ^ bits n"
proof (induction n rule: bits.induct)
  case (1 n)
  show ?case
  proof (cases "n div 2 = 0")
    case True
    with "1.prems" have "n = 1" by presburger
    then show ?thesis by (simp add: bits.simps)
  next
    case False
    then have pos: "0 < n div 2" by simp
    from "1.prems" have n0: "n \<noteq> 0" by simp
    from "1.IH"[OF n0 pos] have ih: "2 ^ bits (n div 2) \<le> 2 * (n div 2)"
      "n div 2 < 2 ^ bits (n div 2)" by simp_all
    have b: "bits n = Suc (bits (n div 2))" using n0 by (subst bits.simps) simp
    from ih show ?thesis unfolding b by (simp; presburger)
  qed
qed

lemma rne_error:
  assumes "0 < d"
  shows "\<bar>real (rne n d) - real n / real d\<bar> \<le> 1 / 2"
proof -
  let ?q = "n div d" and ?r = "n mod d"
  have n: "real n = real ?q * real d + real ?r"
    by (metis div_mult_mod_eq of_nat_add of_nat_mult)
  have r: "real ?r < real d" using assms by simp
  have d: "0 < real d" using assms by simp
  have frac: "real n / real d = real ?q + real ?r / real d"
    using d by (simp add: n field_simps)
  consider "2 * ?r < d" | "d < 2 * ?r" | "2 * ?r = d" by linarith
  then show ?thesis
  proof cases
    case 1
    then have "rne n d = ?q" by (simp add: rne_def Let_def)
    then have "real (rne n d) - real n / real d = - (real ?r / real d)"
      using frac by simp
    moreover from 1 have "real (2 * ?r) < real d" by (simp only: of_nat_less_iff)
    then have "real ?r / real d \<le> 1 / 2" using d by (simp add: field_simps)
    moreover have "0 \<le> real ?r / real d" by simp
    ultimately show ?thesis by linarith
  next
    case 2
    then have "rne n d = ?q + 1" by (simp add: rne_def Let_def)
    then have "real (rne n d) - real n / real d = 1 - real ?r / real d"
      using frac by simp
    moreover from 2 have "real d < real (2 * ?r)" by (simp only: of_nat_less_iff)
    then have "1 / 2 \<le> real ?r / real d" using d by (simp add: field_simps)
    moreover have "real ?r / real d \<le> 1" using r d by (simp add: field_simps)
    ultimately show ?thesis by linarith
  next
    case 3
    then have "real (2 * ?r) = real d" by simp
    then have h: "real ?r / real d = 1 / 2" using d by (simp add: field_simps)
    from 3 have "rne n d = ?q \<or> rne n d = ?q + 1" by (simp add: rne_def Let_def)
    then have "real (rne n d) - real n / real d = - (1 / 2) \<or>
               real (rne n d) - real n / real d = 1 / 2"
      using frac h by auto
    then show ?thesis by auto
  qed
qed

lemma scale_value:
  assumes "0 < d" and "scale n d k = (a, b)"
  shows "0 < b" and "real a / real b = real n / real d * 2 powi k"
proof -
  show "0 < b" using assms by (auto simp: scale_def split: if_splits)
  show "real a / real b = real n / real d * 2 powi k"
  proof (cases "0 \<le> k")
    case True
    with assms(2) have "a = n * 2 ^ nat k" "b = d" by (simp_all add: scale_def)
    then show ?thesis using True by (simp add: power_int_def)
  next
    case False
    with assms(2) have "a = n" "b = d * 2 ^ nat (- k)" by (simp_all add: scale_def)
    then show ?thesis using False by (simp add: power_int_def field_simps)
  qed
qed

lemma powi_k0:
  "(2::real) powi (int bd + 53 - int bn) = 2 ^ 52 * (2 * 2 ^ bd / 2 ^ bn)"
proof -
  have "(2::real) powi (int bd + 53 - int bn) = 2 powi (int bd + 53) / 2 powi (int bn)"
    by (rule power_int_diff) simp
  also have "(2::real) powi (int bd + 53) = 2 powi (int bd) * 2 powi 53"
    by (rule power_int_add) simp
  finally show ?thesis by simp
qed

lemma real_bits_bounds:
  assumes "0 < n"
  shows "1 \<le> 2 * real n / 2 ^ bits n" and "1 \<le> 2 ^ bits n / real n"
proof -
  from bits_bounds[OF assms] have "2 ^ bits n \<le> 2 * n" and "n < 2 ^ bits n" by simp_all
  then have "real (2 ^ bits n) \<le> real (2 * n)" and "real n < real (2 ^ bits n)"
    by (simp_all only: of_nat_le_iff of_nat_less_iff)
  then have a: "2 ^ bits n \<le> 2 * real n" and b: "real n < 2 ^ bits n" by simp_all
  from a show "1 \<le> 2 * real n / 2 ^ bits n" by simp
  from b assms show "1 \<le> 2 ^ bits n / real n" by simp
qed


lemma scaled_lower_bound:
  assumes "0 < n" and "0 < d"
  shows "2 ^ 52 \<le> real n / real d * 2 powi (int (bits d) + 53 - int (bits n))"
proof -
  let ?A = "2 * real n / 2 ^ bits n" and ?B = "2 ^ bits d / real d"
  have A: "1 \<le> ?A" by (rule real_bits_bounds(1)[OF assms(1)])
  have B: "1 \<le> ?B" by (rule real_bits_bounds(2)[OF assms(2)])
  from A have A0: "0 \<le> ?A" by linarith
  have "1 * 1 \<le> ?A * ?B"
    by (rule mult_mono[OF A B A0]) simp
  then have "2 ^ 52 * 1 \<le> 2 ^ 52 * (?A * ?B)"
    by (intro mult_left_mono) simp_all
  also have "2 ^ 52 * (?A * ?B) = real n / real d * (2 ^ 52 * (2 * 2 ^ bits d / 2 ^ bits n))"
    by (simp add: mult_ac)
  finally show ?thesis by (simp only: powi_k0 mult_1_right)
qed


text \<open>Rounding to a double has a relative error of at most \<open>2 ^ -53\<close>.\<close>

lemma to_double_error:
  assumes "0 < n" and "0 < d"
  shows "\<bar>dval (to_double n d) - real n / real d\<bar> \<le> real n / real d / 2 ^ 53"
proof -
  define k0 where "k0 = int (bits d) + 53 - int (bits n)"
  obtain a0 b0 where s0: "scale n d k0 = (a0, b0)" by (cases "scale n d k0")
  define k where "k = (if a0 < 2 ^ 53 * b0 then k0 else k0 - 1)"
  obtain a b where s: "scale n d k = (a, b)" by (cases "scale n d k")
  have "to_double n d = (case scale n d k of (a, b) \<Rightarrow> (rne a b, - k))"
    using assms(1) unfolding to_double_def Let_def k0_def[symmetric] s0 k_def
    by (simp only: prod.case) simp
  then have td: "to_double n d = (rne a b, - k)"
    by (simp add: s)
  let ?x = "real n / real d"
  from scale_value[OF assms(2) s0] have b0: "0 < b0"
    and v0: "real a0 / real b0 = ?x * 2 powi k0" by simp_all
  from scale_value[OF assms(2) s] have b: "0 < b"
    and v: "real a / real b = ?x * 2 powi k" by simp_all
  have lo0: "2 ^ 52 \<le> ?x * 2 powi k0"
    unfolding k0_def by (rule scaled_lower_bound[OF assms])
  have lo: "2 ^ 52 \<le> real a / real b"
  proof (cases "a0 < 2 ^ 53 * b0")
    case True
    then have "k = k0" by (simp add: k_def)
    with lo0 v show ?thesis by simp
  next
    case False
    then have kk: "k = k0 - 1" by (simp add: k_def)
    from False have "2 ^ 53 * b0 \<le> a0" by simp
    then have "real (2 ^ 53 * b0) \<le> real a0" by (simp only: of_nat_le_iff)
    then have "2 ^ 53 * real b0 \<le> real a0" by simp
    then have "2 ^ 53 \<le> real a0 / real b0" using b0 by (simp add: field_simps)
    then have h: "2 ^ 53 \<le> ?x * 2 powi k0" using v0 by simp
    have "(2::real) powi k = 2 powi k0 / 2 powi 1"
      unfolding kk by (rule power_int_diff) simp
    then have pk: "(2::real) powi k = 2 powi k0 / 2" by simp
    define y where "y = ?x * 2 powi k0"
    have "?x * 2 powi k = y / 2"
      unfolding y_def by (simp only: pk times_divide_eq_right)
    with v have ab: "real a / real b = y / 2" by simp
    define c :: real where "c = 2 ^ 52"
    have "(2::real) ^ 53 = 2 * c" by (simp add: c_def)
    with h have "2 * c \<le> y" by (simp only: y_def)
    then have "c \<le> y / 2" by linarith
    then show ?thesis by (simp only: ab c_def)
  qed
  have "\<bar>real (rne a b) - real a / real b\<bar> \<le> 1 / 2" by (rule rne_error[OF b])
  also have "\<dots> \<le> real a / real b / 2 ^ 53" using lo by simp
  finally have e: "\<bar>real (rne a b) - ?x * 2 powi k\<bar> \<le> ?x * 2 powi k / 2 ^ 53"
    by (simp add: v)
  have p: "(0::real) < 2 powi (- k)" by simp
  have i: "(2::real) powi k * 2 powi (- k) = 1"
    by (simp add: power_int_minus)
  have "dval (to_double n d) - ?x = real (rne a b) * 2 powi (- k) - ?x * (2 powi k * 2 powi (- k))"
    by (simp add: td dval_def i)
  also have "\<dots> = (real (rne a b) - ?x * 2 powi k) * 2 powi (- k)"
    by (simp only: algebra_simps)
  finally have "\<bar>dval (to_double n d) - ?x\<bar> =
      \<bar>real (rne a b) - ?x * 2 powi k\<bar> * 2 powi (- k)"
    using p by (simp add: abs_mult)
  also have "\<dots> \<le> (?x * 2 powi k / 2 ^ 53) * 2 powi (- k)"
    using e p by (intro mult_right_mono) simp_all
  also have "\<dots> = ?x * (2 powi k * 2 powi (- k)) / 2 ^ 53"
    by (simp only: algebra_simps times_divide_eq_left times_divide_eq_right)
  also have "\<dots> = ?x / 2 ^ 53" by (simp only: i mult_1_right)
  finally show ?thesis .
qed


lemma dval_nonneg: "0 \<le> dval x"
  by (cases x) (simp add: dval_def)

lemma js_div_error:
  assumes "0 < p" and "0 < t"
  shows "\<bar>dval (js_div p t) - real p / real t\<bar> \<le> real p / real t / 2 ^ 53"
  unfolding js_div_def by (rule to_double_error[OF assms])

lemma js_mul_error:
  "\<bar>dval (js_mul x c) - dval x * real c\<bar> \<le> dval x * real c / 2 ^ 53"
proof -
  obtain m e where x: "x = (m, e)" by (cases x)
  obtain m' e' where td: "to_double (m * c) 1 = (m', e')" by (cases "to_double (m * c) 1")
  have v: "dval (js_mul x c) = dval (to_double (m * c) 1) * 2 powi e"
  proof -
    have a: "(2::real) powi (e' + e) = 2 powi e' * 2 powi e"
      by (rule power_int_add) simp
    have "js_mul x c = (m', e' + e)"
      by (simp only: js_mul_def x td prod.case)
    then have "dval (js_mul x c) = real m' * (2 powi e' * 2 powi e)"
      by (simp only: dval_def prod.case a)
    also have "\<dots> = dval (to_double (m * c) 1) * 2 powi e"
      by (simp only: td dval_def prod.case mult.assoc)
    finally show ?thesis .
  qed
  have w: "dval x * real c = real (m * c) * 2 powi e"
    by (simp add: x dval_def)
  show ?thesis
  proof (cases "m * c = 0")
    case True
    then have "to_double (m * c) 1 = (0, 0)" by (simp add: to_double_def)
    then have "dval (to_double (m * c) 1) = 0" by (simp add: dval_def)
    then have 1: "dval (js_mul x c) = 0" by (simp only: v mult_zero_left)
    from True have 2: "dval x * real c = 0" by (simp add: w)
    show ?thesis by (simp add: 1 2)
  next
    case False
    then have pos: "0 < m * c" by simp
    from to_double_error[OF pos, of 1]
    have e: "\<bar>dval (to_double (m * c) 1) - real (m * c)\<bar> \<le> real (m * c) / 2 ^ 53"
      by simp
    have p: "(0::real) \<le> 2 powi e" by simp
    have "dval (js_mul x c) - dval x * real c =
            (dval (to_double (m * c) 1) - real (m * c)) * 2 powi e"
      by (simp only: v w left_diff_distrib)
    then have "\<bar>dval (js_mul x c) - dval x * real c\<bar> =
            \<bar>dval (to_double (m * c) 1) - real (m * c)\<bar> * 2 powi e"
      using p by (simp add: abs_mult)
    also have "\<dots> \<le> (real (m * c) / 2 ^ 53) * 2 powi e"
      using e p by (intro mult_right_mono) simp_all
    also have "\<dots> = dval x * real c / 2 ^ 53"
      by (simp only: w times_divide_eq_left)
    finally show ?thesis .
  qed
qed

lemma Math_round_floor: "int (Math_round x) = \<lfloor>dval x + 1 / 2\<rfloor>"
proof -
  obtain m e where x: "x = (m, e)" by (cases x)
  show ?thesis
  proof (cases "0 \<le> e")
    case True
    then have "Math_round x = m * 2 ^ nat e" by (simp add: Math_round_def x)
    moreover from True have "dval x = real (m * 2 ^ nat e)"
      by (simp add: dval_def x power_int_def)
    ultimately show ?thesis by (simp only:) linarith
  next
    case False
    define k where "k = nat (- e)"
    from False have mr: "Math_round x = (2 * m + 2 ^ k) div 2 ^ Suc k"
      by (simp add: Math_round_def x k_def)
    from False have "(2::real) powi e = 1 / 2 ^ k"
      by (simp add: power_int_def k_def field_simps)
    then have "dval x + 1 / 2 = real m / 2 ^ k + 1 / 2"
      by (simp add: dval_def x)
    also have "\<dots> = real (2 * m + 2 ^ k) / real (2 ^ Suc k)"
      by (simp add: field_simps)
    finally have "\<lfloor>dval x + 1 / 2\<rfloor> = \<lfloor>real (2 * m + 2 ^ k) / real (2 ^ Suc k)\<rfloor>"
      by simp
    also have "\<dots> = int ((2 * m + 2 ^ k) div 2 ^ Suc k)"
      by (rule floor_divide_of_nat_eq)
    finally show ?thesis by (simp only: mr)
  qed
qed


text \<open>The two roundings move the percentage by less than \<open>2 ^ -33\<close>.\<close>

lemma percentage_error:
  assumes "0 < p" and "p \<le> t"
  shows "\<bar>dval (js_mul (js_div p t) 100) - real p / real t * 100\<bar> < 1 / 2 ^ 33"
proof -
  from assms have t: "0 < t" by simp
  define u :: real where "u = 1 / 2 ^ 53"
  define x0 where "x0 = real p / real t"
  define x1 where "x1 = dval (js_div p t)"
  define x2 where "x2 = dval (js_mul (js_div p t) 100)"
  have x0: "0 < x0" "x0 \<le> 1" using assms t by (simp_all add: x0_def)
  have u: "0 < u" by (simp add: u_def)
  from js_div_error[OF assms(1) t] have e1: "\<bar>x1 - x0\<bar> \<le> x0 * u"
    by (simp add: x0_def x1_def u_def)
  from js_mul_error[of "js_div p t" 100] have e2: "\<bar>x2 - x1 * 100\<bar> \<le> x1 * 100 * u"
    by (simp add: x1_def x2_def u_def)
  have "x0 * u \<le> 1 * u" using x0 u by (intro mult_right_mono) simp_all
  then have xu: "x0 * u \<le> u" by simp
  with e1 have x1: "x1 \<le> 1 + u" using x0 by linarith
  have "x1 * 100 * u = 100 * (x1 * u)" by simp
  moreover have "x1 * u \<le> (1 + u) * u" using x1 u by (intro mult_right_mono) simp_all
  ultimately have e2': "\<bar>x2 - x1 * 100\<bar> \<le> 100 * ((1 + u) * u)" using e2 by linarith
  have "x2 - x0 * 100 = (x2 - x1 * 100) + 100 * (x1 - x0)" by simp
  then have "\<bar>x2 - x0 * 100\<bar> \<le> \<bar>x2 - x1 * 100\<bar> + \<bar>100 * (x1 - x0)\<bar>"
    by (simp only: abs_triangle_ineq)
  also have "\<bar>100 * (x1 - x0)\<bar> = 100 * \<bar>x1 - x0\<bar>" by (simp only: abs_mult abs_numeral)
  finally have "\<bar>x2 - x0 * 100\<bar> \<le> \<bar>x2 - x1 * 100\<bar> + 100 * \<bar>x1 - x0\<bar>" .
  also have "\<dots> \<le> 100 * ((1 + u) * u) + 100 * u"
  proof (rule add_mono[OF e2'])
    from e1 xu have "\<bar>x1 - x0\<bar> \<le> u" by (rule order_trans)
    then show "100 * \<bar>x1 - x0\<bar> \<le> 100 * u" by simp
  qed
  also have "\<dots> < 1 / 2 ^ 33" by (simp add: u_def)
  finally show ?thesis by (simp only: x2_def x0_def)
qed

lemma compute_score_exact:
  assumes "0 < t" and "p \<le> t" and "t < 2 ^ 32" and "(200 * p + t) mod (2 * t) \<noteq> 0"
  shows "compute_score p t = (200 * p + t) div (2 * t)"
proof (cases "p = 0")
  case True
  with assms(1) show ?thesis
    by (simp add: compute_score_def js_div_def js_mul_def Math_round_def to_double_def)
next
  case False
  then have p: "0 < p" by simp
  define N where "N = (200 * p + t) div (2 * t)"
  define r where "r = (200 * p + t) mod (2 * t)"
  define x2 where "x2 = dval (js_mul (js_div p t) 100)"
  define y where "y = real p / real t * 100 + 1 / 2"
  define h where "h = 1 / (2 * real t)"
  have t: "0 < real t" using assms(1) by simp
  have "200 * p + t = N * (2 * t) + r" by (simp only: N_def r_def div_mult_mod_eq)
  then have "real (200 * p + t) = real (N * (2 * t) + r)" by (rule arg_cong)
  then have dm: "200 * real p + real t = real N * (2 * real t) + real r" by simp
  have "y = (200 * real p + real t) / (2 * real t)"
    using t by (simp add: y_def field_simps)
  also have "\<dots> = real N + real r * h"
    using t by (simp only: dm) (simp add: h_def field_simps)
  finally have y: "y = real N + real r * h" .
  have r1: "1 \<le> r" using assms(4) by (simp add: r_def)
  have "r < 2 * t" using assms(1) by (simp add: r_def)
  then have "r + 1 \<le> 2 * t" by simp
  then have "real (r + 1) \<le> real (2 * t)" by (simp only: of_nat_le_iff)
  then have r2: "real r + 1 \<le> 2 * real t" by simp
  have hpos: "0 < h" using t by (simp add: h_def)
  have "1 * h \<le> real r * h" using r1 hpos by (intro mult_right_mono) simp_all
  then have lo: "h \<le> real r * h" by simp
  have "(real r + 1) * h \<le> (2 * real t) * h" using r2 hpos by (intro mult_right_mono) simp_all
  moreover have "(2 * real t) * h = 1" using t by (simp add: h_def)
  ultimately have hi: "real r * h \<le> 1 - h" by (simp add: algebra_simps)
  from assms(3) have "real t < real (2 ^ 32)" by (simp only: of_nat_less_iff)
  then have "2 * real t < 2 ^ 33" by simp
  then have hbig: "1 / 2 ^ 33 < h" using t by (simp add: h_def field_simps)
  from percentage_error[OF p assms(2)] have "\<bar>x2 - real p / real t * 100\<bar> < 1 / 2 ^ 33"
    by (simp only: x2_def)
  then have "\<bar>(x2 + 1 / 2) - y\<bar> < h" using hbig by (simp add: y_def)
  with y lo hi have "real N \<le> x2 + 1 / 2" and "x2 + 1 / 2 < real N + 1"
    by linarith+
  then have "of_int (int N) \<le> x2 + 1 / 2" and "x2 + 1 / 2 < of_int (int N) + 1"
    by simp_all
  then have "\<lfloor>x2 + 1 / 2\<rfloor> = int N" by (rule floor_unique)
  moreover have "int (compute_score p t) = \<lfloor>x2 + 1 / 2\<rfloor>"
    using assms(1) by (simp add: compute_score_def Math_round_floor x2_def)
  ultimately show ?thesis by (simp add: N_def)
qed

lemma half_up_div:
  assumes "0 < t"
  shows "round (real p / real t * 100) = int ((200 * p + t) div (2 * t))"
proof -
  have "real p / real t * 100 + 1 / 2 = real (200 * p + t) / real (2 * t)"
    using assms by (simp add: field_simps)
  then have "round (real p / real t * 100) = \<lfloor>real (200 * p + t) / real (2 * t)\<rfloor>"
    by (simp add: round_def)
  also have "\<dots> = int ((200 * p + t) div (2 * t))" by (rule floor_divide_of_nat_eq)
  finally show ?thesis .
qed

lemma not_half_mod:
  assumes "0 < t" and "real p / real t * 100 + 1 / 2 \<notin> \<int>"
  shows "(200 * p + t) mod (2 * t) \<noteq> 0"
proof
  assume "(200 * p + t) mod (2 * t) = 0"
  then have "200 * p + t = (200 * p + t) div (2 * t) * (2 * t)"
    using div_mult_mod_eq[of "200 * p + t" "2 * t"] by simp
  then have "real (200 * p + t) = real ((200 * p + t) div (2 * t) * (2 * t))"
    by (rule arg_cong)
  then have "real (200 * p + t) / real (2 * t) = real ((200 * p + t) div (2 * t))"
    using assms(1) by (simp add: field_simps)
  moreover have "real p / real t * 100 + 1 / 2 = real (200 * p + t) / real (2 * t)"
    using assms(1) by (simp add: field_simps)
  ultimately have "real p / real t * 100 + 1 / 2 = real ((200 * p + t) div (2 * t))" by simp
  then have "real p / real t * 100 + 1 / 2 \<in> \<int>" by (simp only: Ints_of_nat)
  with assms(2) show False by contradiction
qed

lemma odd_total_not_half:
  fixes p t :: nat
  assumes "odd t"
  shows "(200 * p + t) mod (2 * t) \<noteq> 0"
proof
  assume "(200 * p + t) mod (2 * t) = 0"
  then have "2 * t dvd 200 * p + t" by (simp add: dvd_eq_mod_eq_0)
  then have "even (200 * p + t)" by (meson dvd_trans dvd_triv_left)
  with assms show False by simp
qed

lemma not_half_odd:
  fixes p t :: nat
  assumes "odd t"
  shows "real p / real t * 100 + 1 / 2 \<notin> \<int>"
proof
  assume "real p / real t * 100 + 1 / 2 \<in> \<int>"
  then obtain z :: int where z: "real p / real t * 100 + 1 / 2 = of_int z"
    by (auto elim: Ints_cases)
  from assms have t: "0 < real t" by (cases "t = 0") simp_all
  have "real p / real t * 100 + 1 / 2 = real (200 * p + t) / real (2 * t)"
    using t by (simp add: field_simps)
  with z have "real (200 * p + t) = of_int z * real (2 * t)"
    using t by (simp add: field_simps)
  then have "(of_int (int (200 * p + t)) :: real) = of_int (z * int (2 * t))"
    by simp
  then have "int (200 * p + t) = z * int (2 * t)" by (simp only: of_int_eq_iff)
  then have "even (int (200 * p + t))" by simp
  then have "even (200 * p + t)" by (simp only: even_of_nat)
  with assms show False by simp
qed

lemma score_is_round:
  assumes "0 < t" and "p \<le> t" and "t < 2 ^ 32" and "real p / real t * 100 + 1 / 2 \<notin> \<int>"
  shows "int (compute_score p t) = round (real p / real t * 100)"
  using compute_score_exact[OF assms(1-3) not_half_mod[OF assms(1,4)]] half_up_div[OF assms(1)]
  by simp

section \<open>Evaluations with a given tally\<close>

lemma eval_criterion_fixed:
  "e_status (last (results (fst (eval_criterion category n (fixed_criterion st) (v, s))))) = st"
  by (cases st)
     (simp_all add: eval_criterion_def call_check_def fixed_criterion_def fixed_check_def Let_def)

lemma eval_criteria_fixed:
  "map e_status (results (fst (eval_criteria category n (map fixed_criterion sts) st))) =
     map e_status (results (fst st)) @ sts"
proof (induction sts arbitrary: st)
  case Nil
  show ?case by simp
next
  case (Cons x sts)
  obtain v s where st: "st = (v, s)" by (cases st)
  let ?v = "fst (eval_criterion category n (fixed_criterion x) (v, s))"
  from eval_criterion_step[of category n "fixed_criterion x" v s]
  have "results ?v = results v @ [last (results ?v)]" by blast
  then have "map e_status (results ?v) = map e_status (results v) @ [e_status (last (results ?v))]"
    by (metis (no_types) list.simps(8,9) map_append)
  then have "map e_status (results ?v) = map e_status (results v) @ [x]"
    by (simp only: eval_criterion_fixed)
  then show ?case by (simp add: Cons.IH st)
qed

lemma tally_statuses:
  "map e_status (items (fst (performEvaluation (tally_registry np nf ne) n s))) =
     replicate np Pass @ replicate nf Fail @ replicate ne Error"
proof -
  let ?sts = "replicate np Pass @ replicate nf Fail @ replicate ne Error"
  have "items (fst (performEvaluation (tally_registry np nf ne) n s)) =
          results (fst (eval_criteria ''accessibility'' n (map fixed_criterion ?sts)
            (\<lparr>results = [], totalItems = 0, passedItems = 0\<rparr>,
             logger LDebug (''Evaluating '' @ ''accessibility'' @ '' ('' @
                    show_nat (length (map fixed_criterion ?sts)) @ '' items)'')
               (logger LInfo ''Starting 67-point evaluation...'' s))))"
    by (simp only: performEvaluation_items tally_registry_def eval_categories.simps prod.case)
  then show ?thesis by (simp only: eval_criteria_fixed fst_conv eval_vars.simps list.map append_Nil)
qed

lemma tally_summary:
  "total (summary (fst (performEvaluation (tally_registry np nf ne) n s))) = np + nf + ne"
  "passed (summary (fst (performEvaluation (tally_registry np nf ne) n s))) = np"
  "failed (summary (fst (performEvaluation (tally_registry np nf ne) n s))) = nf + ne"
  "score (summary (fst (performEvaluation (tally_registry np nf ne) n s))) =
     compute_score np (np + nf + ne)"
proof -
  let ?a = "fst (performEvaluation (tally_registry np nf ne) n s)"
  let ?v = "fst (eval_categories n (tally_registry np nf ne)
        (\<lparr>results = [], totalItems = 0, passedItems = 0\<rparr>,
         logger LInfo ''Starting 67-point evaluation...'' s))"
  have c: "counted ?v" by (rule performEvaluation_counted)
  have i: "items ?a = results ?v" by (rule performEvaluation_items)
  have "length (items ?a) = length (map e_status (items ?a))" by simp
  also have "\<dots> = np + nf + ne" by (simp only: tally_statuses) simp
  finally have t: "totalItems ?v = np + nf + ne" using c by (simp add: counted_def i)
  have "length (filter (\<lambda>r. e_status r = Pass) (items ?a)) =
          length (filter (\<lambda>x. x = Pass) (map e_status (items ?a)))"
    by (simp add: filter_map comp_def)
  also have "\<dots> = np" by (simp only: tally_statuses) simp
  finally have p: "passedItems ?v = np" using c by (simp add: counted_def i)
  show "total (summary ?a) = np + nf + ne" "passed (summary ?a) = np"
    "failed (summary ?a) = nf + ne" "score (summary ?a) = compute_score np (np + nf + ne)"
    by (simp_all add: performEvaluation_summary t p)
qed

text \<open>
  Two scores, computed. Where the exact percentage is halfway between two integers,
  which needs an even number of criteria, the double product can fall below the half:
  23 passes of 40 give 57.
\<close>

lemma compute_score_23_40: "compute_score 23 40 = 57"
  by (simp add: number_defs Let_def)

lemma compute_score_45_67: "compute_score 45 67 = 67"
  by (simp add: number_defs Let_def)

lemma completed_summary:
  assumes "analyzeUrl reg u viewports opts s = (Inr run, s')"
  shows "total (summary (ar_analysis run)) = length (registry_keys reg)"
    and "passed (summary (ar_analysis run)) \<le> total (summary (ar_analysis run))"
    and "score (summary (ar_analysis run)) =
           compute_score (passed (summary (ar_analysis run))) (total (summary (ar_analysis run)))"
proof -
  from analyzeUrl_completed[OF assms] obtain n s1
    where a: "ar_analysis run = fst (performEvaluation reg n s1)" by blast
  let ?v = "fst (eval_categories n reg
        (\<lparr>results = [], totalItems = 0, passedItems = 0\<rparr>,
         logger LInfo ''Starting 67-point evaluation...'' s1))"
  have c: "counted ?v" by (rule performEvaluation_counted)
  have "length (registry_keys reg) = length (map entry_key (items (ar_analysis run)))"
    by (simp only: a performEvaluation_keys)
  also have "\<dots> = length (results ?v)" by (simp add: a performEvaluation_items)
  finally show "total (summary (ar_analysis run)) = length (registry_keys reg)"
    using c by (simp add: a performEvaluation_summary counted_def)
  show "passed (summary (ar_analysis run)) \<le> total (summary (ar_analysis run))"
    using c by (simp add: a performEvaluation_summary counted_def)
  show "score (summary (ar_analysis run)) =
           compute_score (passed (summary (ar_analysis run))) (total (summary (ar_analysis run)))"
    by (simp add: a performEvaluation_summary)
qed

section \<open>The entries, position by position\<close>

lemma eval_criterion_results:
  "results (fst (eval_criterion category n c (v, s))) =
     results v @ [entry_of category c n (the_page s)]"
  by (cases "call_check c n (the_page s)")
     (auto simp: eval_criterion_def entry_of_def Let_def split: sum.splits)

lemma eval_criteria_entries:
  "results (fst (eval_criteria category n cs (v, s))) =
     results v @ entries_of n (map (Pair category) cs) (the_page s)
   \<and> the_page (snd (eval_criteria category n cs (v, s))) = run_checks n cs (the_page s)"
proof (induction cs arbitrary: v s)
  case Nil
  show ?case by simp
next
  case (Cons c cs)
  obtain v1 s1 where st: "eval_criterion category n c (v, s) = (v1, s1)"
    by (cases "eval_criterion category n c (v, s)")
  from eval_criterion_results[of category n c v s]
  have r: "results v1 = results v @ [entry_of category c n (the_page s)]" by (simp add: st)
  from eval_criterion_page[of category n c v s]
  have p: "the_page s1 = snd (call_check c n (the_page s))" by (simp add: st)
  show ?case by (simp add: st Cons.IH r p)
qed

lemma run_checks_append:
  "run_checks n (xs @ ys) p = run_checks n ys (run_checks n xs p)"
  by (induction xs arbitrary: p) simp_all

lemma entries_of_append:
  "entries_of n (xs @ ys) p =
     entries_of n xs p @ entries_of n ys (run_checks n (map snd xs) p)"
  by (induction xs arbitrary: p) simp_all

lemma entries_of_length: "length (entries_of n xs p) = length xs"
  by (induction xs arbitrary: p) simp_all

lemma entries_of_nth:
  "i < length xs \<Longrightarrow>
     entries_of n xs p ! i =
       entry_of (fst (xs ! i)) (snd (xs ! i)) n (run_checks n (map snd (take i xs)) p)"
proof (induction xs arbitrary: i p)
  case Nil
  then show ?case by simp
next
  case (Cons x xs)
  show ?case
  proof (cases i)
    case 0
    then show ?thesis by simp
  next
    case (Suc j)
    with Cons.prems have "j < length xs" by simp
    from Cons.IH[OF this] show ?thesis by (simp add: Suc)
  qed
qed

lemma registered_Cons:
  "registered ((category, cs) # reg) = map (Pair category) cs @ registered reg"
  by (simp add: registered_def)

lemma registered_criteria: "map snd (registered reg) = all_criteria reg"
  by (induction reg) (auto simp: registered_def all_criteria_def comp_def)

lemma registered_keys: "map (\<lambda>x. (fst x, c_id (snd x))) (registered reg) = registry_keys reg"
  by (induction reg) (auto simp: registered_def registry_keys_def comp_def)

lemma eval_categories_entries:
  "results (fst (eval_categories n reg (v, s))) =
     results v @ entries_of n (registered reg) (the_page s)
   \<and> the_page (snd (eval_categories n reg (v, s))) = run_checks n (all_criteria reg) (the_page s)"
proof (induction reg arbitrary: v s)
  case Nil
  show ?case by (simp add: registered_def all_criteria_def)
next
  case (Cons entry reg)
  obtain category cs where entry: "entry = (category, cs)" by (cases entry)
  define s0 where "s0 = logger LDebug (''Evaluating '' @ category @ '' ('' @
                    show_nat (length cs) @ '' items)'') s"
  have s0: "the_page s0 = the_page s" by (simp only: s0_def page_calls_logger)
  obtain v1 s1 where st: "eval_criteria category n cs (v, s0) = (v1, s1)"
    by (cases "eval_criteria category n cs (v, s0)")
  from eval_criteria_entries[of category n cs v s0]
  have r: "results v1 = results v @ entries_of n (map (Pair category) cs) (the_page s)"
    and p: "the_page s1 = run_checks n cs (the_page s)"
    by (simp_all only: st fst_conv snd_conv s0)
  have a: "all_criteria ((category, cs) # reg) = cs @ all_criteria reg"
    by (simp add: all_criteria_def)
  have m: "map snd (map (Pair category) cs) = cs" by (simp add: comp_def)
  have "eval_categories n (entry # reg) (v, s) = eval_categories n reg (v1, s1)"
    by (simp only: entry eval_categories.simps prod.case s0_def[symmetric] st)
  then show ?case
    by (simp only: Cons.IH r p a entry registered_Cons entries_of_append run_checks_append m
          append_assoc)
qed

lemma performEvaluation_entries:
  "items (fst (performEvaluation reg n s)) = entries_of n (registered reg) (the_page s)"
  "the_page (snd (performEvaluation reg n s)) = run_checks n (all_criteria reg) (the_page s)"
  using eval_categories_entries[of n reg "\<lparr>results = [], totalItems = 0, passedItems = 0\<rparr>"
      "logger LInfo ''Starting 67-point evaluation...'' s"]
  by (simp_all add: performEvaluation_items performEvaluation_page)

lemma performEvaluation_nth:
  assumes "i < length (all_criteria reg)"
  shows "items (fst (performEvaluation reg n s)) ! i =
           entry_of (fst (registry_keys reg ! i)) (all_criteria reg ! i) n
             (run_checks n (take i (all_criteria reg)) (the_page s))"
proof -
  from assms have i: "i < length (registered reg)"
    by (simp add: registered_criteria[symmetric])
  have 1: "snd (registered reg ! i) = all_criteria reg ! i"
    using i by (simp add: registered_criteria[symmetric])
  have "registry_keys reg ! i = (fst (registered reg ! i), c_id (snd (registered reg ! i)))"
    using i by (simp add: registered_keys[symmetric])
  then have 2: "fst (registered reg ! i) = fst (registry_keys reg ! i)" by simp
  have 3: "map snd (take i (registered reg)) = take i (all_criteria reg)"
    by (simp add: registered_criteria[symmetric] take_map)
  show ?thesis
    by (simp only: performEvaluation_entries(1) entries_of_nth[OF i] 1 2 3)
qed

lemma performEvaluation_length:
  "length (items (fst (performEvaluation reg n s))) = length (all_criteria reg)"
  by (simp add: performEvaluation_entries(1) entries_of_length registered_criteria[symmetric])

lemma entry_of_Inr:
  assumes "call_check c n p = (Inr result, p')"
  shows "entry_of category c n p =
           \<lparr>e_category = category, e_id = c_id c, e_name = c_name c,
            e_description = c_description c, e_impact = c_impact c,
            e_status = status_of (o_status result), e_details = o_details result,
            e_recommendations =
              (case o_recommendations result of Some rs \<Rightarrow> rs | None \<Rightarrow> []),
            e_checkTime = Date_now p' - Date_now p\<rparr>"
  using assms by (simp add: entry_of_def)

lemma entry_of_Inl:
  assumes "call_check c n p = (Inl message, p')"
  shows "entry_of category c n p =
           \<lparr>e_category = category, e_id = c_id c, e_name = c_name c,
            e_description = c_description c, e_impact = c_impact c,
            e_status = Error, e_details = ''Evaluation failed: '' @ message,
            e_recommendations = [''Unable to evaluate - check page accessibility''],
            e_checkTime = 0\<rparr>"
  using assms by (simp add: entry_of_def)

lemma analyzeUrl_analysis:
  assumes "analyzeUrl reg u viewports opts s = (Inr run, s')"
  shows "\<exists>n s1. open_page u opts (logger LInfo (''Starting analysis for '' @ u) s) = (Inr n, s1)
           \<and> ar_analysis run =
               fst (performEvaluation reg n
                      (snd (takeScreenshots (uuid s) viewports
                              (wait_for_network_idle (wait_for_selector opts s1)))))"
proof -
  from assms obtain n s1 where
    o: "open_page u opts (logger LInfo (''Starting analysis for '' @ u) s) = (Inr n, s1)"
    and f: "finish_run reg u viewports (uuid s) (Date_now (the_page s)) n
       (wait_for_network_idle (wait_for_selector opts s1)) = (Inr run, s')"
    by (auto simp: analyzeUrl_def Let_def split: prod.splits sum.splits)
  from finish_run_Inr(2)[OF f] o show ?thesis by blast
qed

text \<open>The sample registry, evaluated on the sample service.\<close>

lemma sample_criteria:
  "all_criteria sample_registry =
     [\<lparr>c_id = ''perf-001'', c_name = ''Page Load Time'',
       c_description = ''Page loads within 3 seconds'',
       c_impact = Critical, c_check = perf_001_check\<rparr>,
      \<lparr>c_id = ''perf-002'', c_name = ''Image Optimization'',
       c_description = ''Images are properly optimized'',
       c_impact = Major, c_check = sample_other ''perf-002''\<rparr>,
      \<lparr>c_id = ''perf-003'', c_name = ''CSS Optimization'',
       c_description = ''CSS is optimized and minified'',
       c_impact = Minor, c_check = sample_other ''perf-003''\<rparr>,
      \<lparr>c_id = ''seo-001'', c_name = ''Title Tag'',
       c_description = ''Page has unique and descriptive title'',
       c_impact = Critical, c_check = sample_other ''seo-001''\<rparr>,
      \<lparr>c_id = ''seo-002'', c_name = ''Meta Description'',
       c_description = ''Page has compelling meta description'',
       c_impact = Major, c_check = sample_other ''seo-002''\<rparr>]"
  by (simp add: all_criteria_def sample_registry_def category_of_def evaluationCriteria_def)

lemma sample_calls:
  "call_check (all_criteria sample_registry ! 3) 100
     (run_checks 100 (take 3 (all_criteria sample_registry)) (the_page sample_service))
     = (Inl ''Target closed'', sample_page)"
  "call_check (all_criteria sample_registry ! 4) 100
     (run_checks 100 (take 4 (all_criteria sample_registry)) (the_page sample_service))
     = (Inr \<lparr>o_status = VFail, o_details = ''checked'', o_recommendations = None\<rparr>,
        sample_page)"
  by (simp_all add: sample_criteria call_check_def perf_001_check_def sample_other_def
        sample_service_def Let_def)

lemma sample_statuses:
  "map e_status (items (fst (performEvaluation sample_registry 100 sample_service))) =
     [Pass, Pass, Pass, Error, Fail]"
  by (simp add: performEvaluation_def eval_criterion_def call_check_def logger_def
       sample_defs category_of_def evaluationCriteria_def perf_001_check_def Date_now_def Let_def)

section \<open>The load-time criterion in the shipped registry\<close>

lemma full_criteria_ids:
  "map c_id (all_criteria (fullEvaluationCriteria other)) =
     [''a11y-001'', ''a11y-002'', ''a11y-003'', ''a11y-004'', ''a11y-005'', ''a11y-006'',
      ''a11y-007'', ''a11y-008'', ''a11y-009'', ''a11y-010'', ''a11y-011'', ''a11y-012'',
      ''a11y-013'', ''a11y-014'', ''a11y-015'',
      ''perf-001'', ''perf-002'', ''perf-003'', ''perf-004'', ''perf-005'', ''perf-006'',
      ''perf-007'', ''perf-008'',
      ''seo-001'', ''seo-002'', ''seo-003'', ''seo-004'',
      ''sec-001'', ''sec-002'', ''sec-003'',
      ''use-001'', ''use-002'', ''use-003'']"
  by (simp add: all_criteria_def fullEvaluationCriteria_def evaluationCriteria_def
        extendedCriteria_def category_of_def)

lemma full_criteria_length: "length (all_criteria (fullEvaluationCriteria other)) = 33"
  using full_criteria_ids[of other, THEN arg_cong, of length] by simp

lemma full_keys_length: "length (registry_keys (fullEvaluationCriteria other)) = 33"
  by (simp add: registry_keys_def fullEvaluationCriteria_def evaluationCriteria_def
        extendedCriteria_def category_of_def)

lemma perf_001_position:
  "all_criteria (fullEvaluationCriteria other) ! 15 =
     \<lparr>c_id = ''perf-001'', c_name = ''Page Load Time'',
      c_description = ''Page loads within 3 seconds'',
      c_impact = Critical, c_check = perf_001_check\<rparr>"
  "registry_keys (fullEvaluationCriteria other) ! 15 = (''performance'', ''perf-001'')"
  by (simp_all add: all_criteria_def registry_keys_def fullEvaluationCriteria_def
        evaluationCriteria_def extendedCriteria_def category_of_def)

lemma not_perf_001:
  assumes "i < 33" and "i \<noteq> 15"
  shows "c_id (all_criteria (fullEvaluationCriteria other) ! i) \<noteq> ''perf-001''"
proof
  define ids where "ids = map c_id (all_criteria (fullEvaluationCriteria other))"
  assume a: "c_id (all_criteria (fullEvaluationCriteria other) ! i) = ''perf-001''"
  have d: "distinct ids" unfolding ids_def by (simp only: full_criteria_ids) simp
  have l: "length ids = 33" by (simp add: ids_def full_criteria_length)
  have "ids ! i = c_id (all_criteria (fullEvaluationCriteria other) ! i)"
    using assms(1) by (simp add: ids_def full_criteria_length)
  moreover have "ids ! 15 = ''perf-001''" unfolding ids_def by (simp only: full_criteria_ids) simp
  ultimately have e: "ids ! i = ids ! 15" using a by simp
  have "i < length ids" "15 < length ids" using assms(1) l by simp_all
  from nth_eq_iff_index_eq[OF d this] e have "i = 15" by simp
  with assms(2) show False by simp
qed

text \<open>
  Called the way the loop calls it, the check of \<open>perf-001\<close> computes
  \<open>Date.now() - (Date.now() - navigationTime)\<close>: its load time is \<open>navigationTime\<close>,
  whenever it is called.
\<close>

lemma call_check_perf_001:
  "call_check \<lparr>c_id = ''perf-001'', c_name = ''Page Load Time'',
      c_description = ''Page loads within 3 seconds'',
      c_impact = Critical, c_check = perf_001_check\<rparr> n p =
     (Inr \<lparr>o_status = (if n < 3000 then VPass else if n < 5000 then VWarning else VFail),
           o_details = ''Page loaded in '' @ show_int n @ ''ms'',
           o_recommendations = Some (if n \<ge> 3000
             then [''Optimize images and compress assets'', ''Minimize HTTP requests'',
                   ''Use CDN for static assets'', ''Enable browser caching'']
             else [])\<rparr>, p)"
  by (simp add: call_check_def perf_001_check_def Let_def)

lemma perf_001_entry:
  "items (fst (performEvaluation (fullEvaluationCriteria other) n s)) ! 15 =
     \<lparr>e_category = ''performance'', e_id = ''perf-001'', e_name = ''Page Load Time'',
      e_description = ''Page loads within 3 seconds'', e_impact = Critical,
      e_status = (if n < 3000 then Pass else if n < 5000 then Warning else Fail),
      e_details = ''Page loaded in '' @ show_int n @ ''ms'',
      e_recommendations = (if n \<ge> 3000
             then [''Optimize images and compress assets'', ''Minimize HTTP requests'',
                   ''Use CDN for static assets'', ''Enable browser caching'']
             else []),
      e_checkTime = 0\<rparr>"
proof -
  have i: "15 < length (all_criteria (fullEvaluationCriteria other))"
    by (simp add: full_criteria_length)
  show ?thesis
    by (simp only: performEvaluation_nth[OF i] perf_001_position
          entry_of_Inr[OF call_check_perf_001]) simp
qed

lemma other_entry:
  assumes "i < 33" and "i \<noteq> 15"
  shows "items (fst (performEvaluation (fullEvaluationCriteria other) n s)) ! i =
     (case c_check (all_criteria (fullEvaluationCriteria other) ! i)
             (run_checks n (take i (all_criteria (fullEvaluationCriteria other))) (the_page s))
             None of
        (Inr result, q) \<Rightarrow>
          \<lparr>e_category = fst (registry_keys (fullEvaluationCriteria other) ! i),
           e_id = c_id (all_criteria (fullEvaluationCriteria other) ! i),
           e_name = c_name (all_criteria (fullEvaluationCriteria other) ! i),
           e_description = c_description (all_criteria (fullEvaluationCriteria other) ! i),
           e_impact = c_impact (all_criteria (fullEvaluationCriteria other) ! i),
           e_status = status_of (o_status result), e_details = o_details result,
           e_recommendations =
             (case o_recommendations result of Some rs \<Rightarrow> rs | None \<Rightarrow> []),
           e_checkTime = Date_now q - Date_now (run_checks n
             (take i (all_criteria (fullEvaluationCriteria other))) (the_page s))\<rparr>
      | (Inl message, q) \<Rightarrow>
          \<lparr>e_category = fst (registry_keys (fullEvaluationCriteria other) ! i),
           e_id = c_id (all_criteria (fullEvaluationCriteria other) ! i),
           e_name = c_name (all_criteria (fullEvaluationCriteria other) ! i),
           e_description = c_description (all_criteria (fullEvaluationCriteria other) ! i),
           e_impact = c_impact (all_criteria (fullEvaluationCriteria other) ! i),
           e_status = Error, e_details = ''Evaluation failed: '' @ message,
           e_recommendations = [''Unable to evaluate - check page accessibility''],
           e_checkTime = 0\<rparr>)"
proof -
  have i: "i < length (all_criteria (fullEvaluationCriteria other))"
    using assms(1) by (simp add: full_criteria_length)
  have c: "call_check (all_criteria (fullEvaluationCriteria other) ! i) n p =
      c_check (all_criteria (fullEvaluationCriteria other) ! i) p None" for p
    by (rule call_check_other[OF not_perf_001[OF assms]])
  show ?thesis
    by (simp only: performEvaluation_nth[OF i] entry_of_def c)
qed

lemma completed_perf_001_entry:
  assumes "analyzeUrl (fullEvaluationCriteria other) u viewports opts s = (Inr run, s')"
  shows "items (ar_analysis run) ! 15 =
     \<lparr>e_category = ''performance'', e_id = ''perf-001'', e_name = ''Page Load Time'',
      e_description = ''Page loads within 3 seconds'', e_impact = Critical,
      e_status = (if int (p_elapsed (the_page s) (p_calls (the_page s))) < 3000 then Pass
                  else if int (p_elapsed (the_page s) (p_calls (the_page s))) < 5000
                  then Warning else Fail),
      e_details = ''Page loaded in '' @
        show_int (int (p_elapsed (the_page s) (p_calls (the_page s)))) @ ''ms'',
      e_recommendations = (if int (p_elapsed (the_page s) (p_calls (the_page s))) \<ge> 3000
             then [''Optimize images and compress assets'', ''Minimize HTTP requests'',
                   ''Use CDN for static assets'', ''Enable browser caching'']
             else []),
      e_checkTime = 0\<rparr>"
proof -
  from analyzeUrl_analysis[OF assms] obtain n s1 where
    o: "open_page u opts (logger LInfo (''Starting analysis for '' @ u) s) = (Inr n, s1)"
    and a: "ar_analysis run =
               fst (performEvaluation (fullEvaluationCriteria other) n
                      (snd (takeScreenshots (uuid s) viewports
                              (wait_for_network_idle (wait_for_selector opts s1)))))"
    by blast
  from open_page_navigationTime[OF o]
  have n: "n = int (p_elapsed (the_page s) (p_calls (the_page s)))"
    by (simp only: page_calls_logger)
  show ?thesis
    by (simp only: a perf_001_entry n)
qed

text \<open>The sample run over the shipped registry.\<close>

lemma sample_navigation_value:
  "fst sample_navigation = Inr 10"
  "Date_now (the_page (snd sample_navigation)) = 1025"
  by (simp_all add: sample_navigation_def no_options_def open_page_def initialize_def
        await_svc_def logger_def goto_def await_page_def Date_now_def response_ok_def
        sample_defs Let_def
      cong: prod.case_cong_weak let_weak_cong)

lemma sample_evaluation_clock:
  "Date_now (the_page sample_evaluation_state) = 1070"
  by (simp add: sample_evaluation_state_def sample_navigation_def no_options_def
        desktop_only_def page_defs service_defs sample_defs Let_def
      cong: prod.case_cong_weak let_weak_cong)

lemma sample_accessibility_checks:
  "run_checks n (take 15 (all_criteria (fullEvaluationCriteria sample_other))) p = p"
  by (simp add: all_criteria_def fullEvaluationCriteria_def evaluationCriteria_def
        extendedCriteria_def category_of_def call_check_def sample_other_def)

lemma sample_run_analysis:
  "ar_analysis (projr (fst (analyzeUrl (fullEvaluationCriteria sample_other)
      ''https://example.com'' desktop_only no_options sample_service))) =
   fst (performEvaluation (fullEvaluationCriteria sample_other) 10 sample_evaluation_state)"
proof -
  from analyzeUrl_succeeds[OF sample_service_runs] obtain run s' where
    eq: "analyzeUrl (fullEvaluationCriteria sample_other) ''https://example.com''
           desktop_only no_options sample_service = (Inr run, s')"
    by blast
  from analyzeUrl_analysis[OF eq] obtain n s1 where
    o: "open_page ''https://example.com'' no_options
          (logger LInfo (''Starting analysis for '' @ ''https://example.com'') sample_service)
        = (Inr n, s1)"
    and a: "ar_analysis run =
               fst (performEvaluation (fullEvaluationCriteria sample_other) n
                      (snd (takeScreenshots (uuid sample_service) desktop_only
                              (wait_for_network_idle (wait_for_selector no_options s1)))))"
    by blast
  from o have sn: "sample_navigation = (Inr n, s1)" by (simp only: sample_navigation_def)
  from sn sample_navigation_value(1) have n: "n = 10" by (metis fst_conv sum.inject(2))
  from sn have s1: "s1 = snd sample_navigation" by (metis snd_conv)
  have "ar_analysis run =
      fst (performEvaluation (fullEvaluationCriteria sample_other) 10 sample_evaluation_state)"
    by (simp only: a n s1 sample_evaluation_state_def)
  with eq show ?thesis by simp
qed

section \<open>The score of an evaluation\<close>

lemma evaluation_summary:
  "total (summary (fst (performEvaluation reg n s))) = length (all_criteria reg)"
  "passed (summary (fst (performEvaluation reg n s))) \<le>
     total (summary (fst (performEvaluation reg n s)))"
  "score (summary (fst (performEvaluation reg n s))) =
     compute_score (passed (summary (fst (performEvaluation reg n s))))
       (total (summary (fst (performEvaluation reg n s))))"
proof -
  let ?v = "fst (eval_categories n reg
        (\<lparr>results = [], totalItems = 0, passedItems = 0\<rparr>,
         logger LInfo ''Starting 67-point evaluation...'' s))"
  have c: "counted ?v" by (rule performEvaluation_counted)
  have "length (all_criteria reg) = length (items (fst (performEvaluation reg n s)))"
    by (simp only: performEvaluation_length)
  also have "\<dots> = length (results ?v)" by (simp only: performEvaluation_items)
  finally show "total (summary (fst (performEvaluation reg n s))) = length (all_criteria reg)"
    using c by (simp add: performEvaluation_summary counted_def)
  show "passed (summary (fst (performEvaluation reg n s))) \<le>
     total (summary (fst (performEvaluation reg n s)))"
    using c by (simp add: performEvaluation_summary counted_def)
  show "score (summary (fst (performEvaluation reg n s))) =
     compute_score (passed (summary (fst (performEvaluation reg n s))))
       (total (summary (fst (performEvaluation reg n s))))"
    by (simp add: performEvaluation_summary)
qed

lemma odd_score_is_round:
  assumes "odd (total (summary (fst (performEvaluation reg n s))))"
    and "total (summary (fst (performEvaluation reg n s))) < 2 ^ 32"
  shows "int (score (summary (fst (performEvaluation reg n s)))) =
           round (real (passed (summary (fst (performEvaluation reg n s)))) /
                  real (total (summary (fst (performEvaluation reg n s)))) * 100)"
proof -
  let ?sm = "summary (fst (performEvaluation reg n s))"
  from assms(1) have pos: "0 < total ?sm" by (cases "total ?sm = 0") simp_all
  from score_is_round[OF pos evaluation_summary(2) assms(2) not_half_odd[OF assms(1)]]
  show ?thesis by (simp only: evaluation_summary(3)[symmetric])
qed

lemma shipped_score_is_round:
  "total (summary (fst (performEvaluation (fullEvaluationCriteria other) n s))) = 33"
  "int (score (summary (fst (performEvaluation (fullEvaluationCriteria other) n s)))) =
     round (real (passed (summary (fst (performEvaluation (fullEvaluationCriteria other) n s)))) /
            real (total (summary (fst (performEvaluation (fullEvaluationCriteria other) n s))))
            * 100)"
proof -
  show t: "total (summary (fst (performEvaluation (fullEvaluationCriteria other) n s))) = 33"
    by (simp only: evaluation_summary(1) full_criteria_length)
  have "odd (total (summary (fst (performEvaluation (fullEvaluationCriteria other) n s))))"
    by (simp only: t) simp
  moreover have "total (summary (fst (performEvaluation (fullEvaluationCriteria other) n s)))
      < 2 ^ 32"
    by (simp only: t) simp
  ultimately show "int (score (summary (fst (performEvaluation
      (fullEvaluationCriteria other) n s)))) =
     round (real (passed (summary (fst (performEvaluation (fullEvaluationCriteria other) n s)))) /
            real (total (summary (fst (performEvaluation (fullEvaluationCriteria other) n s))))
            * 100)"
    by (rule odd_score_is_round)
qed

lemma empty_summary:
  "summary (fst (performEvaluation [] n s)) =
     \<lparr>total = 0, passed = 0, failed = 0, score = 0,
      by_category = \<lparr>n_accessibility = 0, n_performance = 0, n_seo = 0, n_security = 0,
                     n_usability = 0\<rparr>\<rparr>"
  by (simp add: performEvaluation_def compute_score_def count_category_def Let_def)

lemma round_45_67: "round (real 45 / real 67 * 100) = (67 :: int)"
  by (simp add: round_def)

text \<open>The sample evaluation of the shipped registry: 29 of the 33 checks pass.\<close>

lemma sample_full_statuses:
  "map e_status (items (fst (performEvaluation (fullEvaluationCriteria sample_other) 10
      sample_service))) =
     [Pass, Pass, Pass, Pass, Pass, Pass, Pass, Pass, Pass, Pass, Pass, Pass, Pass, Pass, Pass,
      Pass, Pass, Pass, Pass, Pass, Pass, Pass, Pass,
      Error, Fail, Pass, Pass,
      Pass, Pass, Pass,
      Fail, Pass, Warning]"
  by (simp add: performEvaluation_entries(1) registered_def entry_of_def call_check_def
        page_defs registry_defs sample_defs Let_def
      cong: prod.case_cong_weak let_weak_cong)

lemma sample_full_passed:
  "passed (summary (fst (performEvaluation (fullEvaluationCriteria sample_other) 10
      sample_service))) = 29"
proof -
  let ?a = "fst (performEvaluation (fullEvaluationCriteria sample_other) 10 sample_service)"
  let ?v = "fst (eval_categories 10 (fullEvaluationCriteria sample_other)
        (\<lparr>results = [], totalItems = 0, passedItems = 0\<rparr>,
         logger LInfo ''Starting 67-point evaluation...'' sample_service))"
  have c: "counted ?v" by (rule performEvaluation_counted)
  have i: "items ?a = results ?v" by (rule performEvaluation_items)
  have "length (filter (\<lambda>r. e_status r = Pass) (items ?a)) =
          length (filter (\<lambda>x. x = Pass) (map e_status (items ?a)))"
    by (simp add: filter_map comp_def)
  also have "\<dots> = 29" by (simp only: sample_full_statuses) simp
  finally show ?thesis using c by (simp add: counted_def i performEvaluation_summary)
qed

lemma compute_score_29_33: "compute_score 29 33 = 88"
  by (simp add: number_defs Let_def)

section \<open>The claims\<close>

text \<open>
  C1. For every completed analysis run, the summary satisfies
  \<open>passed + failed = total = length of the result list\<close>, and \<open>passed\<close> counts exactly
  the results with status \<open>pass\<close>.
\<close>

theorem summary_counts_agree:
  assumes "analyzeUrl reg u viewports opts s = (Inr run, s')"
  shows "passed (summary (ar_analysis run)) + failed (summary (ar_analysis run)) =
           total (summary (ar_analysis run))
       \<and> total (summary (ar_analysis run)) = length (items (ar_analysis run))
       \<and> passed (summary (ar_analysis run)) =
           length (filter (\<lambda>r. e_status r = Pass) (items (ar_analysis run)))"
proof -
  from analyzeUrl_completed[OF assms] obtain n s1
    where a: "ar_analysis run = fst (performEvaluation reg n s1)" by blast
  let ?v = "fst (eval_categories n reg
        (\<lparr>results = [], totalItems = 0, passedItems = 0\<rparr>,
         logger LInfo ''Starting 67-point evaluation...'' s1))"
  have c: "counted ?v" by (rule performEvaluation_counted)
  have le: "passedItems ?v \<le> totalItems ?v"
    using c by (simp add: counted_def)
  show ?thesis
    using c le
    by (simp add: a performEvaluation_summary performEvaluation_items counted_def)
qed

theorem summary_counts_agree_witness:
  "\<exists>run s'. analyzeUrl sample_registry ''https://example.com'' [] sample_options sample_service
               = (Inr run, s')
     \<and> passed (summary (ar_analysis run)) + failed (summary (ar_analysis run)) =
           total (summary (ar_analysis run))
     \<and> total (summary (ar_analysis run)) = length (items (ar_analysis run))
     \<and> passed (summary (ar_analysis run)) =
           length (filter (\<lambda>r. e_status r = Pass) (items (ar_analysis run)))"
proof -
  from analyzeUrl_succeeds[OF sample_service_runs] obtain run s' where
    eq: "analyzeUrl sample_registry ''https://example.com'' [] sample_options sample_service
           = (Inr run, s')"
    by blast
  from summary_counts_agree[OF eq] eq show ?thesis by blast
qed

text \<open>
  C2. For every evaluation over a list of criteria, the summary score equals
  \<open>round(passed / total * 100)\<close> as an integer percentage, and equals 0 when total is 0;
  in particular, 67 criteria with 45 passes yield the score 67. The score is computed in
  double arithmetic, \<open>Math.round((passedItems / totalItems) * 100)\<close>, the quotient and the
  product each rounded to a double. For the registry the program evaluates, which has
  33 criteria, and for every odd number of criteria below \<open>2 ^ 32\<close>, the result is the
  exact percentage rounded to the nearest integer, whatever the checks do: the error of
  the two roundings is too small to cross a rounding boundary, and with an odd total the
  exact percentage is never on one.
\<close>

theorem score_is_rounded_percentage:
  "total (summary (fst (performEvaluation (fullEvaluationCriteria other) n s))) = 33
   \<and> int (score (summary (fst (performEvaluation (fullEvaluationCriteria other) n s)))) =
       round (real (passed (summary (fst (performEvaluation (fullEvaluationCriteria other) n s))))
              / real (total (summary (fst (performEvaluation (fullEvaluationCriteria other) n s))))
              * 100)
   \<and> (analyzeUrl (fullEvaluationCriteria other) u viewports opts svc = (Inr run, s') \<longrightarrow>
        total (summary (ar_analysis run)) = 33
        \<and> int (score (summary (ar_analysis run))) =
            round (real (passed (summary (ar_analysis run))) /
                   real (total (summary (ar_analysis run))) * 100))
   \<and> (total (summary (fst (performEvaluation reg n s))) = 0 \<longrightarrow>
        score (summary (fst (performEvaluation reg n s))) = 0)
   \<and> summary (fst (performEvaluation [] n s)) =
       \<lparr>total = 0, passed = 0, failed = 0, score = 0,
        by_category = \<lparr>n_accessibility = 0, n_performance = 0, n_seo = 0, n_security = 0,
                       n_usability = 0\<rparr>\<rparr>
   \<and> (odd (total (summary (fst (performEvaluation reg n s)))) \<and>
      total (summary (fst (performEvaluation reg n s))) < 2 ^ 32 \<longrightarrow>
        int (score (summary (fst (performEvaluation reg n s)))) =
          round (real (passed (summary (fst (performEvaluation reg n s)))) /
                 real (total (summary (fst (performEvaluation reg n s)))) * 100))
   \<and> total (summary (fst (performEvaluation (tally_registry 45 20 2) n s))) = 67
   \<and> passed (summary (fst (performEvaluation (tally_registry 45 20 2) n s))) = 45
   \<and> failed (summary (fst (performEvaluation (tally_registry 45 20 2) n s))) = 22
   \<and> score (summary (fst (performEvaluation (tally_registry 45 20 2) n s))) = 67
   \<and> round (real 45 / real 67 * 100) = (67 :: int)"
proof (intro conjI impI)
  show "total (summary (fst (performEvaluation (fullEvaluationCriteria other) n s))) = 33"
    by (rule shipped_score_is_round(1))
next
  show "int (score (summary (fst (performEvaluation (fullEvaluationCriteria other) n s)))) =
       round (real (passed (summary (fst (performEvaluation (fullEvaluationCriteria other) n s))))
              / real (total (summary (fst (performEvaluation (fullEvaluationCriteria other) n s))))
              * 100)"
    by (rule shipped_score_is_round(2))
next
  assume "analyzeUrl (fullEvaluationCriteria other) u viewports opts svc = (Inr run, s')"
  from analyzeUrl_completed[OF this] obtain m s1
    where a: "ar_analysis run = fst (performEvaluation (fullEvaluationCriteria other) m s1)"
    by blast
  show "total (summary (ar_analysis run)) = 33"
    by (simp only: a shipped_score_is_round(1))
  show "int (score (summary (ar_analysis run))) =
            round (real (passed (summary (ar_analysis run))) /
                   real (total (summary (ar_analysis run))) * 100)"
    unfolding a by (rule shipped_score_is_round(2))
next
  assume "total (summary (fst (performEvaluation reg n s))) = 0"
  then show "score (summary (fst (performEvaluation reg n s))) = 0"
    by (simp add: evaluation_summary(3)[of reg n s] compute_score_def)
next
  show "summary (fst (performEvaluation [] n s)) =
       \<lparr>total = 0, passed = 0, failed = 0, score = 0,
        by_category = \<lparr>n_accessibility = 0, n_performance = 0, n_seo = 0, n_security = 0,
                       n_usability = 0\<rparr>\<rparr>"
    by (rule empty_summary)
next
  assume h: "odd (total (summary (fst (performEvaluation reg n s)))) \<and>
      total (summary (fst (performEvaluation reg n s))) < 2 ^ 32"
  from h have 1: "odd (total (summary (fst (performEvaluation reg n s))))" by (rule conjunct1)
  from h have 2: "total (summary (fst (performEvaluation reg n s))) < 2 ^ 32"
    by (rule conjunct2)
  from 1 2 show "int (score (summary (fst (performEvaluation reg n s)))) =
          round (real (passed (summary (fst (performEvaluation reg n s)))) /
                 real (total (summary (fst (performEvaluation reg n s)))) * 100)"
    by (rule odd_score_is_round)
next
  show "total (summary (fst (performEvaluation (tally_registry 45 20 2) n s))) = 67"
    by (simp add: tally_summary(1))
next
  show "passed (summary (fst (performEvaluation (tally_registry 45 20 2) n s))) = 45"
    by (rule tally_summary(2))
next
  show "failed (summary (fst (performEvaluation (tally_registry 45 20 2) n s))) = 22"
    by (simp add: tally_summary(3))
next
  have "score (summary (fst (performEvaluation (tally_registry 45 20 2) n s))) =
          compute_score 45 (45 + 20 + 2)"
    by (rule tally_summary(4))
  also have "(45::nat) + 20 + 2 = 67" by simp
  finally show "score (summary (fst (performEvaluation (tally_registry 45 20 2) n s))) = 67"
    by (simp only: compute_score_45_67)
next
  show "round (real 45 / real 67 * 100) = (67 :: int)" by (rule round_45_67)
qed

theorem score_is_rounded_percentage_witness:
  "total (summary (fst (performEvaluation (fullEvaluationCriteria sample_other) 10
      sample_service))) = 33
   \<and> passed (summary (fst (performEvaluation (fullEvaluationCriteria sample_other) 10
      sample_service))) = 29
   \<and> score (summary (fst (performEvaluation (fullEvaluationCriteria sample_other) 10
      sample_service))) = 88
   \<and> round (real 29 / real 33 * 100) = (88 :: int)
   \<and> (\<exists>run s'. analyzeUrl (fullEvaluationCriteria sample_other) ''https://example.com'' []
                  sample_options sample_service = (Inr run, s')
        \<and> total (summary (ar_analysis run)) = 33
        \<and> int (score (summary (ar_analysis run))) =
            round (real (passed (summary (ar_analysis run))) /
                   real (total (summary (ar_analysis run))) * 100))
   \<and> total (summary (fst (performEvaluation [] 10 sample_service))) = 0
   \<and> score (summary (fst (performEvaluation [] 10 sample_service))) = 0
   \<and> total (summary (fst (performEvaluation sample_registry 10 sample_service))) = 5
   \<and> int (score (summary (fst (performEvaluation sample_registry 10 sample_service)))) =
       round (real (passed (summary (fst (performEvaluation sample_registry 10 sample_service))))
              / real (total (summary (fst (performEvaluation sample_registry 10 sample_service))))
              * 100)"
proof -
  let ?full = "summary (fst (performEvaluation (fullEvaluationCriteria sample_other) 10
      sample_service))"
  let ?none = "summary (fst (performEvaluation [] 10 sample_service))"
  let ?five = "summary (fst (performEvaluation sample_registry 10 sample_service))"
  from analyzeUrl_succeeds[OF sample_service_runs] obtain run s' where
    eq: "analyzeUrl (fullEvaluationCriteria sample_other) ''https://example.com'' []
           sample_options sample_service = (Inr run, s')"
    by blast
  note t1 = score_is_rounded_percentage[where other = sample_other and n = 10
      and s = sample_service and u = "''https://example.com''" and viewports = "[]"
      and opts = sample_options and svc = sample_service and run = run and s' = s'
      and reg = "[]"]
  note t2 = score_is_rounded_percentage[where other = sample_other and n = 10
      and s = sample_service and u = "''https://example.com''" and viewports = "[]"
      and opts = sample_options and svc = sample_service and run = run and s' = s'
      and reg = sample_registry]
  have a: "total ?full = 33" by (rule t1[THEN conjunct1])
  have "int (score ?full) = round (real (passed ?full) / real (total ?full) * 100)"
    by (rule t1[THEN conjunct2, THEN conjunct1])
  then have "int (score ?full) = round (real 29 / real 33 * 100)"
    by (simp only: a sample_full_passed)
  moreover have r: "round (real 29 / real 33 * 100) = (88 :: int)" by (simp add: round_def)
  ultimately have b: "score ?full = 88" by simp
  from mp[OF t1[THEN conjunct2, THEN conjunct2, THEN conjunct1] eq] eq
  have c: "\<exists>run s'. analyzeUrl (fullEvaluationCriteria sample_other) ''https://example.com'' []
                  sample_options sample_service = (Inr run, s')
        \<and> total (summary (ar_analysis run)) = 33
        \<and> int (score (summary (ar_analysis run))) =
            round (real (passed (summary (ar_analysis run))) /
                   real (total (summary (ar_analysis run))) * 100)"
    by (intro exI[of _ run] exI[of _ s']) (rule conjI)
  have z: "total ?none = 0" by (simp add: evaluation_summary(1) all_criteria_def)
  from mp[OF t1[THEN conjunct2, THEN conjunct2, THEN conjunct2, THEN conjunct1] z]
  have d: "score ?none = 0" .
  have f: "total ?five = 5" by (simp add: evaluation_summary(1) sample_criteria)
  have o: "odd (total ?five) \<and> total ?five < 2 ^ 32" by (simp only: f) simp
  from mp[OF t2[THEN conjunct2, THEN conjunct2, THEN conjunct2, THEN conjunct2, THEN conjunct2,
          THEN conjunct1] o]
  have g: "int (score ?five) = round (real (passed ?five) / real (total ?five) * 100)" .
  show ?thesis
    by (intro conjI) (fact a sample_full_passed b r c z d f g)+
qed

text \<open>
  C3. For every criterion whose check throws or rejects during evaluation, the
  orchestrator continues to evaluate all remaining criteria, and every registered
  criterion still yields exactly one result in the run's result list. Whatever the checks
  do, the entries are those of the registry, one each and in its order, and a throwing
  check contributes the entry with status \<open>error\<close>. Every check is called, in registry
  order, on the page as the checks before it left it, whether or not any of them threw:
  the entry at position \<open>i\<close> is made of what the \<open>i\<close>-th check returns or throws on that
  page, and the page after the evaluation is the one that all the checks, called in
  turn, leave behind.
\<close>

theorem check_failure_is_isolated:
  "map entry_key (items (fst (performEvaluation reg n s))) = registry_keys reg
   \<and> (analyzeUrl reg u viewports opts s0 = (Inr run, s') \<longrightarrow>
        map entry_key (items (ar_analysis run)) = registry_keys reg
        \<and> (\<exists>m s1. open_page u opts (logger LInfo (''Starting analysis for '' @ u) s0)
                     = (Inr m, s1)
             \<and> ar_analysis run =
                 fst (performEvaluation reg m
                        (snd (takeScreenshots (uuid s0) viewports
                                (wait_for_network_idle (wait_for_selector opts s1)))))))
   \<and> (call_check c n (the_page s) = (Inl message, p') \<longrightarrow>
        results (fst (eval_criterion category n c (v, s))) =
          results v @ [\<lparr>e_category = category, e_id = c_id c, e_name = c_name c,
                         e_description = c_description c, e_impact = c_impact c,
                         e_status = Error, e_details = ''Evaluation failed: '' @ message,
                         e_recommendations =
                           [''Unable to evaluate - check page accessibility''],
                         e_checkTime = 0\<rparr>])
   \<and> length (items (fst (performEvaluation reg n s))) = length (all_criteria reg)
   \<and> the_page (snd (performEvaluation reg n s)) = run_checks n (all_criteria reg) (the_page s)
   \<and> (i < length (all_criteria reg) \<and>
      call_check (all_criteria reg ! i) n (run_checks n (take i (all_criteria reg)) (the_page s))
        = (Inr result, q) \<longrightarrow>
        items (fst (performEvaluation reg n s)) ! i =
          \<lparr>e_category = fst (registry_keys reg ! i), e_id = c_id (all_criteria reg ! i),
           e_name = c_name (all_criteria reg ! i),
           e_description = c_description (all_criteria reg ! i),
           e_impact = c_impact (all_criteria reg ! i),
           e_status = status_of (o_status result), e_details = o_details result,
           e_recommendations =
             (case o_recommendations result of Some rs \<Rightarrow> rs | None \<Rightarrow> []),
           e_checkTime =
             Date_now q - Date_now (run_checks n (take i (all_criteria reg)) (the_page s))\<rparr>)
   \<and> (i < length (all_criteria reg) \<and>
      call_check (all_criteria reg ! i) n (run_checks n (take i (all_criteria reg)) (the_page s))
        = (Inl thrown_message, q) \<longrightarrow>
        items (fst (performEvaluation reg n s)) ! i =
          \<lparr>e_category = fst (registry_keys reg ! i), e_id = c_id (all_criteria reg ! i),
           e_name = c_name (all_criteria reg ! i),
           e_description = c_description (all_criteria reg ! i),
           e_impact = c_impact (all_criteria reg ! i),
           e_status = Error, e_details = ''Evaluation failed: '' @ thrown_message,
           e_recommendations = [''Unable to evaluate - check page accessibility''],
           e_checkTime = 0\<rparr>)"
proof (intro conjI impI)
  show "map entry_key (items (fst (performEvaluation reg n s))) = registry_keys reg"
    by (rule performEvaluation_keys)
next
  assume "analyzeUrl reg u viewports opts s0 = (Inr run, s')"
  from analyzeUrl_completed[OF this] obtain m s1
    where "ar_analysis run = fst (performEvaluation reg m s1)" by blast
  then show "map entry_key (items (ar_analysis run)) = registry_keys reg"
    by (simp add: performEvaluation_keys)
next
  assume "analyzeUrl reg u viewports opts s0 = (Inr run, s')"
  then show "\<exists>m s1. open_page u opts (logger LInfo (''Starting analysis for '' @ u) s0)
                     = (Inr m, s1)
             \<and> ar_analysis run =
                 fst (performEvaluation reg m
                        (snd (takeScreenshots (uuid s0) viewports
                                (wait_for_network_idle (wait_for_selector opts s1)))))"
    by (rule analyzeUrl_analysis)
next
  assume "call_check c n (the_page s) = (Inl message, p')"
  then show "results (fst (eval_criterion category n c (v, s))) =
          results v @ [\<lparr>e_category = category, e_id = c_id c, e_name = c_name c,
                         e_description = c_description c, e_impact = c_impact c,
                         e_status = Error, e_details = ''Evaluation failed: '' @ message,
                         e_recommendations =
                           [''Unable to evaluate - check page accessibility''],
                         e_checkTime = 0\<rparr>]"
    by (rule eval_criterion_throws)
next
  show "length (items (fst (performEvaluation reg n s))) = length (all_criteria reg)"
    by (rule performEvaluation_length)
next
  show "the_page (snd (performEvaluation reg n s)) =
          run_checks n (all_criteria reg) (the_page s)"
    by (rule performEvaluation_entries(2))
next
  assume h: "i < length (all_criteria reg) \<and>
      call_check (all_criteria reg ! i) n (run_checks n (take i (all_criteria reg)) (the_page s))
        = (Inr result, q)"
  from h have i: "i < length (all_criteria reg)" by (rule conjunct1)
  from h have c: "call_check (all_criteria reg ! i) n
      (run_checks n (take i (all_criteria reg)) (the_page s)) = (Inr result, q)"
    by (rule conjunct2)
  show "items (fst (performEvaluation reg n s)) ! i =
          \<lparr>e_category = fst (registry_keys reg ! i), e_id = c_id (all_criteria reg ! i),
           e_name = c_name (all_criteria reg ! i),
           e_description = c_description (all_criteria reg ! i),
           e_impact = c_impact (all_criteria reg ! i),
           e_status = status_of (o_status result), e_details = o_details result,
           e_recommendations =
             (case o_recommendations result of Some rs \<Rightarrow> rs | None \<Rightarrow> []),
           e_checkTime =
             Date_now q - Date_now (run_checks n (take i (all_criteria reg)) (the_page s))\<rparr>"
    by (simp only: performEvaluation_nth[OF i] entry_of_Inr[OF c])
next
  assume h: "i < length (all_criteria reg) \<and>
      call_check (all_criteria reg ! i) n (run_checks n (take i (all_criteria reg)) (the_page s))
        = (Inl thrown_message, q)"
  from h have i: "i < length (all_criteria reg)" by (rule conjunct1)
  from h have c: "call_check (all_criteria reg ! i) n
      (run_checks n (take i (all_criteria reg)) (the_page s)) = (Inl thrown_message, q)"
    by (rule conjunct2)
  show "items (fst (performEvaluation reg n s)) ! i =
          \<lparr>e_category = fst (registry_keys reg ! i), e_id = c_id (all_criteria reg ! i),
           e_name = c_name (all_criteria reg ! i),
           e_description = c_description (all_criteria reg ! i),
           e_impact = c_impact (all_criteria reg ! i),
           e_status = Error, e_details = ''Evaluation failed: '' @ thrown_message,
           e_recommendations = [''Unable to evaluate - check page accessibility''],
           e_checkTime = 0\<rparr>"
    by (simp only: performEvaluation_nth[OF i] entry_of_Inl[OF c])
qed

theorem check_failure_is_isolated_witness:
  "map entry_key (items (fst (performEvaluation sample_registry 100 sample_service))) =
     [(''performance'', ''perf-001''), (''performance'', ''perf-002''),
      (''performance'', ''perf-003''), (''seo'', ''seo-001''), (''seo'', ''seo-002'')]
   \<and> (\<exists>run s'. analyzeUrl sample_registry ''https://example.com'' [] sample_options
                  sample_service = (Inr run, s')
        \<and> map entry_key (items (ar_analysis run)) = registry_keys sample_registry
        \<and> (\<exists>m s1. ar_analysis run = fst (performEvaluation sample_registry m s1)))
   \<and> call_check (category_of (evaluationCriteria sample_other) ''seo'' ! 0) 100
        (the_page sample_service) = (Inl ''Target closed'', sample_page)
   \<and> map e_status (results (fst (eval_criterion ''seo'' 100
          (category_of (evaluationCriteria sample_other) ''seo'' ! 0)
          (\<lparr>results = [], totalItems = 0, passedItems = 0\<rparr>, sample_service)))) = [Error]
   \<and> length (items (fst (performEvaluation sample_registry 100 sample_service))) = 5
   \<and> the_page (snd (performEvaluation sample_registry 100 sample_service)) = sample_page
   \<and> call_check (all_criteria sample_registry ! 3) 100
        (run_checks 100 (take 3 (all_criteria sample_registry)) (the_page sample_service))
       = (Inl ''Target closed'', sample_page)
   \<and> items (fst (performEvaluation sample_registry 100 sample_service)) ! 3 =
       \<lparr>e_category = ''seo'', e_id = ''seo-001'', e_name = ''Title Tag'',
        e_description = ''Page has unique and descriptive title'', e_impact = Critical,
        e_status = Error, e_details = ''Evaluation failed: Target closed'',
        e_recommendations = [''Unable to evaluate - check page accessibility''],
        e_checkTime = 0\<rparr>
   \<and> call_check (all_criteria sample_registry ! 4) 100
        (run_checks 100 (take 4 (all_criteria sample_registry)) (the_page sample_service))
       = (Inr \<lparr>o_status = VFail, o_details = ''checked'', o_recommendations = None\<rparr>,
          sample_page)
   \<and> items (fst (performEvaluation sample_registry 100 sample_service)) ! 4 =
       \<lparr>e_category = ''seo'', e_id = ''seo-002'', e_name = ''Meta Description'',
        e_description = ''Page has compelling meta description'', e_impact = Major,
        e_status = Fail, e_details = ''checked'', e_recommendations = [], e_checkTime = 0\<rparr>
   \<and> map e_status (items (fst (performEvaluation sample_registry 100 sample_service))) =
       [Pass, Pass, Pass, Error, Fail]"
proof -
  let ?c = "category_of (evaluationCriteria sample_other) ''seo'' ! 0"
  let ?v = "\<lparr>results = [], totalItems = 0, passedItems = 0\<rparr>"
  let ?items = "items (fst (performEvaluation sample_registry 100 sample_service))"
  from analyzeUrl_succeeds[OF sample_service_runs] obtain run s' where
    eq: "analyzeUrl sample_registry ''https://example.com'' [] sample_options sample_service
           = (Inr run, s')"
    by blast
  note t3 = check_failure_is_isolated[of sample_registry 100 sample_service
      "''https://example.com''" "[]" sample_options sample_service run s'
      ?c "''Target closed''" sample_page "''seo''" ?v 3 _ _ "''Target closed''"]
  note t4 = check_failure_is_isolated[of sample_registry 100 sample_service
      "''https://example.com''" "[]" sample_options sample_service run s'
      ?c "''Target closed''" sample_page "''seo''" ?v 4
      "\<lparr>o_status = VFail, o_details = ''checked'', o_recommendations = None\<rparr>" sample_page]
  have len: "length (all_criteria sample_registry) = 5" by (simp add: sample_criteria)
  from t3 have "map entry_key ?items = registry_keys sample_registry" by (rule conjunct1)
  then have 1: "map entry_key ?items =
     [(''performance'', ''perf-001''), (''performance'', ''perf-002''),
      (''performance'', ''perf-003''), (''seo'', ''seo-001''), (''seo'', ''seo-002'')]"
    by (simp only: registry_keys_sample)
  from t3 have "analyzeUrl sample_registry ''https://example.com'' [] sample_options
       sample_service = (Inr run, s') \<longrightarrow>
     map entry_key (items (ar_analysis run)) = registry_keys sample_registry
     \<and> (\<exists>m s1. open_page ''https://example.com'' sample_options
                  (logger LInfo (''Starting analysis for '' @ ''https://example.com'')
                     sample_service) = (Inr m, s1)
          \<and> ar_analysis run =
              fst (performEvaluation sample_registry m
                     (snd (takeScreenshots (uuid sample_service) []
                             (wait_for_network_idle (wait_for_selector sample_options s1))))))"
    by (rule conjunct1[OF conjunct2])
  from mp[OF this eq] have ra: "map entry_key (items (ar_analysis run)) =
      registry_keys sample_registry"
    and rb: "\<exists>m s1. ar_analysis run = fst (performEvaluation sample_registry m s1)"
    by blast+
  from eq ra rb have 2: "\<exists>run s'. analyzeUrl sample_registry ''https://example.com'' []
         sample_options sample_service = (Inr run, s')
        \<and> map entry_key (items (ar_analysis run)) = registry_keys sample_registry
        \<and> (\<exists>m s1. ar_analysis run = fst (performEvaluation sample_registry m s1))"
    by (intro exI[of _ run] exI[of _ s'] conjI)
  from t3 sample_seo_001_throws
  have 3: "map e_status (results (fst (eval_criterion ''seo'' 100 ?c (?v, sample_service))))
             = [Error]"
    by simp
  have "length ?items = length (all_criteria sample_registry)"
    by (rule t3[THEN conjunct2, THEN conjunct2, THEN conjunct2, THEN conjunct1])
  then have 4: "length ?items = 5" by (simp only: len)
  have "the_page (snd (performEvaluation sample_registry 100 sample_service)) =
      run_checks 100 (all_criteria sample_registry) (the_page sample_service)"
    by (rule t3[THEN conjunct2, THEN conjunct2, THEN conjunct2, THEN conjunct2,
          THEN conjunct1])
  then have 5: "the_page (snd (performEvaluation sample_registry 100 sample_service)) =
      sample_page"
    by (simp add: sample_criteria call_check_def perf_001_check_def sample_other_def
        sample_service_def Let_def)
  have k: "registry_keys sample_registry ! 3 = (''seo'', ''seo-001'')"
    "registry_keys sample_registry ! 4 = (''seo'', ''seo-002'')"
    by (simp_all add: registry_keys_sample)
  have h3: "3 < length (all_criteria sample_registry) \<and>
      call_check (all_criteria sample_registry ! 3) 100
        (run_checks 100 (take 3 (all_criteria sample_registry)) (the_page sample_service))
        = (Inl ''Target closed'', sample_page)"
    using sample_calls(1) by (simp only: len) simp
  have "3 < length (all_criteria sample_registry) \<and>
      call_check (all_criteria sample_registry ! 3) 100
        (run_checks 100 (take 3 (all_criteria sample_registry)) (the_page sample_service))
        = (Inl ''Target closed'', sample_page) \<longrightarrow>
      ?items ! 3 =
          \<lparr>e_category = fst (registry_keys sample_registry ! 3),
           e_id = c_id (all_criteria sample_registry ! 3),
           e_name = c_name (all_criteria sample_registry ! 3),
           e_description = c_description (all_criteria sample_registry ! 3),
           e_impact = c_impact (all_criteria sample_registry ! 3),
           e_status = Error, e_details = ''Evaluation failed: '' @ ''Target closed'',
           e_recommendations = [''Unable to evaluate - check page accessibility''],
           e_checkTime = 0\<rparr>"
    by (rule t3[THEN conjunct2, THEN conjunct2, THEN conjunct2, THEN conjunct2,
          THEN conjunct2, THEN conjunct2])
  from mp[OF this h3] have 6: "?items ! 3 =
       \<lparr>e_category = ''seo'', e_id = ''seo-001'', e_name = ''Title Tag'',
        e_description = ''Page has unique and descriptive title'', e_impact = Critical,
        e_status = Error, e_details = ''Evaluation failed: Target closed'',
        e_recommendations = [''Unable to evaluate - check page accessibility''],
        e_checkTime = 0\<rparr>"
    by (simp add: k sample_criteria)
  have h4: "4 < length (all_criteria sample_registry) \<and>
      call_check (all_criteria sample_registry ! 4) 100
        (run_checks 100 (take 4 (all_criteria sample_registry)) (the_page sample_service))
        = (Inr \<lparr>o_status = VFail, o_details = ''checked'', o_recommendations = None\<rparr>,
           sample_page)"
    using sample_calls(2) by (simp only: len) simp
  have d: "Date_now sample_page -
      Date_now (run_checks 100 (take 4 (all_criteria sample_registry)) (the_page sample_service))
      = 0"
    by (simp add: sample_criteria call_check_def perf_001_check_def sample_other_def
        sample_service_def Let_def)
  have "4 < length (all_criteria sample_registry) \<and>
      call_check (all_criteria sample_registry ! 4) 100
        (run_checks 100 (take 4 (all_criteria sample_registry)) (the_page sample_service))
        = (Inr \<lparr>o_status = VFail, o_details = ''checked'', o_recommendations = None\<rparr>,
           sample_page) \<longrightarrow>
      ?items ! 4 =
          \<lparr>e_category = fst (registry_keys sample_registry ! 4),
           e_id = c_id (all_criteria sample_registry ! 4),
           e_name = c_name (all_criteria sample_registry ! 4),
           e_description = c_description (all_criteria sample_registry ! 4),
           e_impact = c_impact (all_criteria sample_registry ! 4),
           e_status = status_of (o_status
             \<lparr>o_status = VFail, o_details = ''checked'', o_recommendations = None\<rparr>),
           e_details = o_details
             \<lparr>o_status = VFail, o_details = ''checked'', o_recommendations = None\<rparr>,
           e_recommendations =
             (case o_recommendations
                \<lparr>o_status = VFail, o_details = ''checked'', o_recommendations = None\<rparr>
              of Some rs \<Rightarrow> rs | None \<Rightarrow> []),
           e_checkTime = Date_now sample_page -
             Date_now (run_checks 100 (take 4 (all_criteria sample_registry))
                         (the_page sample_service))\<rparr>"
    by (rule t4[THEN conjunct2, THEN conjunct2, THEN conjunct2, THEN conjunct2,
          THEN conjunct2, THEN conjunct1])
  from mp[OF this h4] have 7: "?items ! 4 =
       \<lparr>e_category = ''seo'', e_id = ''seo-002'', e_name = ''Meta Description'',
        e_description = ''Page has compelling meta description'', e_impact = Major,
        e_status = Fail, e_details = ''checked'', e_recommendations = [], e_checkTime = 0\<rparr>"
    by (simp only: d) (simp add: k sample_criteria)
  show ?thesis
    by (intro conjI) (fact 1 2 sample_seo_001_throws 3 4 5 sample_calls 6 7 sample_statuses)+
qed

text \<open>
  C4. For every result with status \<open>error\<close>, \<open>checkTime\<close> is 0, the recommendations
  are the single generic one, and the details describe the failure.
\<close>

theorem error_results_have_fixed_shape:
  "\<forall>r \<in> set (items (fst (performEvaluation reg n s))).
     e_status r = Error \<longrightarrow>
       e_checkTime r = 0 \<and>
       e_recommendations r = [''Unable to evaluate - check page accessibility''] \<and>
       (\<exists>message. e_details r = ''Evaluation failed: '' @ message)"
proof (intro ballI impI)
  fix r
  assume r: "r \<in> set (items (fst (performEvaluation reg n s)))" and e: "e_status r = Error"
  have "counted (fst (eval_categories n reg
        (\<lparr>results = [], totalItems = 0, passedItems = 0\<rparr>,
         logger LInfo ''Starting 67-point evaluation...'' s)))"
    by (rule performEvaluation_counted)
  with r have "error_shape r"
    by (simp add: performEvaluation_items counted_def)
  from error_shape_details[OF this e]
  show "e_checkTime r = 0 \<and>
       e_recommendations r = [''Unable to evaluate - check page accessibility''] \<and>
       (\<exists>message. e_details r = ''Evaluation failed: '' @ message)"
    by blast
qed

theorem error_results_have_fixed_shape_witness:
  "items (fst (performEvaluation sample_registry 100 sample_service)) ! 3
     \<in> set (items (fst (performEvaluation sample_registry 100 sample_service)))
   \<and> e_id (items (fst (performEvaluation sample_registry 100 sample_service)) ! 3) = ''seo-001''
   \<and> e_status (items (fst (performEvaluation sample_registry 100 sample_service)) ! 3) = Error
   \<and> e_checkTime (items (fst (performEvaluation sample_registry 100 sample_service)) ! 3) = 0
   \<and> e_recommendations (items (fst (performEvaluation sample_registry 100 sample_service)) ! 3)
       = [''Unable to evaluate - check page accessibility'']
   \<and> (\<exists>message. e_details (items (fst (performEvaluation sample_registry 100
          sample_service)) ! 3) = ''Evaluation failed: '' @ message)"
proof -
  let ?items = "items (fst (performEvaluation sample_registry 100 sample_service))"
  have "length (map entry_key ?items) = 5"
    by (simp only: performEvaluation_keys registry_keys_sample) simp
  then have m: "?items ! 3 \<in> set ?items" by simp
  have e: "e_status (?items ! 3) = Error" and i: "e_id (?items ! 3) = ''seo-001''"
    by (simp_all add: sample_seo_001)
  from error_results_have_fixed_shape[of sample_registry 100 sample_service] m e i
  show ?thesis by blast
qed

text \<open>
  C5. For every navigation that returns no response or a non-2xx HTTP status, the run
  aborts with a typed fatal error before any result is produced, and the caller
  receives the error, not a partial analysis: \<open>analyzeUrl\<close> throws the \<open>AppError\<close>
  with status code 502 and code \<open>PAGE_LOAD_FAILED\<close> or \<open>HTTP_ERROR\<close>; the navigation is
  the only page call made, and the outcome and final state are the same for every
  registry, so that no criterion was looked at.
\<close>

theorem navigation_failure_aborts:
  assumes "browser_starts s" and "navigation_reply s = Inr reply"
  shows "(reply = None \<longrightarrow>
           fst (analyzeUrl reg u viewports opts s) =
             Inl \<lparr>ae_message = ''Failed to load page'', ae_statusCode = 502,
                  ae_code = ''PAGE_LOAD_FAILED'', ae_details = []\<rparr>)
       \<and> (\<forall>resp. reply = Some resp \<and> r_status resp \<noteq> 0 \<and> r_status resp \<notin> {200..299} \<longrightarrow>
           fst (analyzeUrl reg u viewports opts s) =
             Inl \<lparr>ae_message = ''HTTP '' @ show_nat (r_status resp) @ '': '' @
                                r_statusText resp,
                  ae_statusCode = 502, ae_code = ''HTTP_ERROR'',
                  ae_details = [(''status'', DNum (int (r_status resp))),
                                (''statusText'', DStr (r_statusText resp))]\<rparr>)
       \<and> ((reply = None \<or> (\<exists>resp. reply = Some resp \<and> r_status resp \<noteq> 0 \<and>
                               r_status resp \<notin> {200..299})) \<longrightarrow>
           analyzeUrl reg u viewports opts s = analyzeUrl reg' u viewports' opts s \<and>
           p_calls (the_page (snd (analyzeUrl reg u viewports opts s))) =
             Suc (p_calls (the_page s)))"
proof -
  let ?s = "logger LInfo (''Starting analysis for '' @ u) s"
  have b: "browser_starts ?s" and n: "navigation_reply ?s = Inr reply"
    using assms by simp_all
  have none: "reply = None \<Longrightarrow>
      \<exists>s1. (\<forall>reg viewports. analyzeUrl reg u viewports opts s =
              (Inl \<lparr>ae_message = ''Failed to load page'', ae_statusCode = 502,
                    ae_code = ''PAGE_LOAD_FAILED'', ae_details = []\<rparr>,
               logger LError (''Analysis failed for '' @ u @ '':'') s1))
          \<and> p_calls (the_page s1) = Suc (p_calls (the_page s))"
  proof -
    assume "reply = None"
    with n have "navigation_reply ?s = Inr None" by simp
    from open_page_no_response[OF b this, of u opts] obtain s1 where
      o: "open_page u opts ?s =
            (Inl (AppErr \<lparr>ae_message = ''Failed to load page'', ae_statusCode = 502,
                           ae_code = ''PAGE_LOAD_FAILED'', ae_details = []\<rparr>), s1)"
      and c: "p_calls (the_page s1) = Suc (p_calls (the_page ?s))"
      by blast
    from analyzeUrl_open_page_throws[OF o] c show ?thesis
      by (intro exI[of _ s1]) simp
  qed
  have http: "reply = Some resp \<Longrightarrow> r_status resp \<noteq> 0 \<Longrightarrow> r_status resp \<notin> {200..299} \<Longrightarrow>
      \<exists>s1. (\<forall>reg viewports. analyzeUrl reg u viewports opts s =
              (Inl \<lparr>ae_message = ''HTTP '' @ show_nat (r_status resp) @ '': '' @
                                  r_statusText resp,
                    ae_statusCode = 502, ae_code = ''HTTP_ERROR'',
                    ae_details = [(''status'', DNum (int (r_status resp))),
                                  (''statusText'', DStr (r_statusText resp))]\<rparr>,
               logger LError (''Analysis failed for '' @ u @ '':'') s1))
          \<and> p_calls (the_page s1) = Suc (p_calls (the_page s))" for resp
  proof -
    assume r: "reply = Some resp" and "r_status resp \<noteq> 0" "r_status resp \<notin> {200..299}"
    then have bad: "\<not> response_ok resp" by (auto simp: response_ok_def)
    from r n have "navigation_reply ?s = Inr (Some resp)" by simp
    from open_page_http_error[OF b this bad, of u opts] obtain s1 where
      o: "open_page u opts ?s =
            (Inl (AppErr \<lparr>ae_message = ''HTTP '' @ show_nat (r_status resp) @ '': '' @
                                       r_statusText resp,
                          ae_statusCode = 502, ae_code = ''HTTP_ERROR'',
                          ae_details = [(''status'', DNum (int (r_status resp))),
                                        (''statusText'', DStr (r_statusText resp))]\<rparr>), s1)"
      and c: "p_calls (the_page s1) = Suc (p_calls (the_page ?s))"
      by blast
    from analyzeUrl_open_page_throws[OF o] c show ?thesis
      by (intro exI[of _ s1]) simp
  qed
  show ?thesis
  proof (intro conjI impI allI)
    assume "reply = None"
    from none[OF this] show "fst (analyzeUrl reg u viewports opts s) =
             Inl \<lparr>ae_message = ''Failed to load page'', ae_statusCode = 502,
                  ae_code = ''PAGE_LOAD_FAILED'', ae_details = []\<rparr>"
      by auto
  next
    fix resp
    assume "reply = Some resp \<and> r_status resp \<noteq> 0 \<and> r_status resp \<notin> {200..299}"
    with http[of resp] show "fst (analyzeUrl reg u viewports opts s) =
             Inl \<lparr>ae_message = ''HTTP '' @ show_nat (r_status resp) @ '': '' @
                                r_statusText resp,
                  ae_statusCode = 502, ae_code = ''HTTP_ERROR'',
                  ae_details = [(''status'', DNum (int (r_status resp))),
                                (''statusText'', DStr (r_statusText resp))]\<rparr>"
      by auto
  next
    assume "reply = None \<or> (\<exists>resp. reply = Some resp \<and> r_status resp \<noteq> 0 \<and>
                               r_status resp \<notin> {200..299})"
    with none http show "analyzeUrl reg u viewports opts s = analyzeUrl reg' u viewports' opts s"
      by auto
  next
    assume "reply = None \<or> (\<exists>resp. reply = Some resp \<and> r_status resp \<noteq> 0 \<and>
                               r_status resp \<notin> {200..299})"
    with none http show "p_calls (the_page (snd (analyzeUrl reg u viewports opts s))) =
             Suc (p_calls (the_page s))"
      by auto
  qed
qed

theorem navigation_failure_aborts_witness:
  "browser_starts http_500_service
   \<and> navigation_reply http_500_service =
       Inr (Some \<lparr>r_status = 500, r_statusText = ''Internal Server Error''\<rparr>)
   \<and> fst (analyzeUrl sample_registry ''https://example.com/500'' [] sample_options
            http_500_service) =
       Inl \<lparr>ae_message = ''HTTP 500: Internal Server Error'', ae_statusCode = 502,
            ae_code = ''HTTP_ERROR'',
            ae_details = [(''status'', DNum 500),
                          (''statusText'', DStr ''Internal Server Error'')]\<rparr>
   \<and> analyzeUrl sample_registry ''https://example.com/500'' [] sample_options
        http_500_service =
       analyzeUrl [] ''https://example.com/500'' defaultViewports sample_options
        http_500_service
   \<and> p_calls (the_page (snd (analyzeUrl sample_registry ''https://example.com/500'' []
        sample_options http_500_service))) = 1"
proof -
  let ?resp = "\<lparr>r_status = 500, r_statusText = ''Internal Server Error''\<rparr>"
  note t = navigation_failure_aborts[OF http_500_service_replies(1,2),
      of sample_registry "''https://example.com/500''" "[]" sample_options
         "[]" defaultViewports]
  have h: "Some ?resp = Some ?resp \<and> r_status ?resp \<noteq> 0 \<and> r_status ?resp \<notin> {200..299}"
    by simp
  from t h have 1: "fst (analyzeUrl sample_registry ''https://example.com/500'' []
      sample_options http_500_service) =
       Inl \<lparr>ae_message = ''HTTP '' @ show_nat (r_status ?resp) @ '': '' @ r_statusText ?resp,
            ae_statusCode = 502, ae_code = ''HTTP_ERROR'',
            ae_details = [(''status'', DNum (int (r_status ?resp))),
                          (''statusText'', DStr (r_statusText ?resp))]\<rparr>"
    by blast
  have 2: "fst (analyzeUrl sample_registry ''https://example.com/500'' []
      sample_options http_500_service) =
       Inl \<lparr>ae_message = ''HTTP 500: Internal Server Error'', ae_statusCode = 502,
            ae_code = ''HTTP_ERROR'',
            ae_details = [(''status'', DNum 500),
                          (''statusText'', DStr ''Internal Server Error'')]\<rparr>"
    by (subst 1) (simp add: show_nat.simps)
  from t h have 3: "analyzeUrl sample_registry ''https://example.com/500'' [] sample_options
        http_500_service =
       analyzeUrl [] ''https://example.com/500'' defaultViewports sample_options
        http_500_service"
    by blast
  from t h have 4: "p_calls (the_page (snd (analyzeUrl sample_registry
      ''https://example.com/500'' [] sample_options http_500_service))) =
      Suc (p_calls (the_page http_500_service))"
    by blast
  have 5: "Suc (p_calls (the_page http_500_service)) = 1"
    by (simp add: http_500_service_def sample_service_def sample_page_def)
  from 2 3 4 5 http_500_service_replies(1,2) show ?thesis
    by (intro conjI) simp_all
qed

text \<open>
  C6. For every analysis run, the browser page and context are released at the end of
  the run regardless of success or failure. The code closes the context on the path
  that returns only: the run below, against a page that answers HTTP 500, ends with
  the \<open>HTTP_ERROR\<close> thrown and the context it opened still open, whereas the run that
  completes leaves it closed.
\<close>

theorem context_left_open_after_http_500:
  "\<not> context_open http_500_service
   \<and> isl (fst (analyzeUrl sample_registry ''https://example.com/500'' [] sample_options
                 http_500_service))
   \<and> ae_code (projl (fst (analyzeUrl sample_registry ''https://example.com/500'' []
                 sample_options http_500_service))) = ''HTTP_ERROR''
   \<and> context_open (snd (analyzeUrl sample_registry ''https://example.com/500'' []
                 sample_options http_500_service))
   \<and> \<not> isl (fst (analyzeUrl sample_registry ''https://example.com'' [] sample_options
                 sample_service))
   \<and> \<not> context_open (snd (analyzeUrl sample_registry ''https://example.com'' []
                 sample_options sample_service))"
proof -
  have bad: "\<not> response_ok \<lparr>r_status = 500, r_statusText = ''Internal Server Error''\<rparr>"
    by (simp add: response_ok_def)
  from analyzeUrl_http_error_state[OF http_500_service_replies(1,2) bad] obtain e s' where
    "analyzeUrl sample_registry ''https://example.com/500'' [] sample_options
       http_500_service = (Inl e, s')"
    and "ae_code e = ''HTTP_ERROR''" and "context_open s'"
    by blast
  moreover
  from analyzeUrl_succeeds[OF sample_service_runs] obtain run s'' where
    eq: "analyzeUrl sample_registry ''https://example.com'' [] sample_options sample_service
           = (Inr run, s'')"
    by blast
  from analyzeUrl_closes_context[OF eq] eq
  have "\<not> isl (fst (analyzeUrl sample_registry ''https://example.com'' [] sample_options
                 sample_service))"
    and "\<not> context_open (snd (analyzeUrl sample_registry ''https://example.com'' []
                 sample_options sample_service))"
    by simp_all
  ultimately show ?thesis
    using http_500_service_replies(3) by simp
qed



text \<open>
  C8. For every run, the best-effort waits after navigation are not fatal: a timeout of
  the network-idle wait is logged and ignored, and a failure of the optional
  \<open>waitFor\<close> selector wait produces a warning only, after which evaluation proceeds.
  Once the page has been opened, and provided closing the context succeeds, the run
  returns its result with one entry per criterion whatever the two waits answer; a
  rejected wait leaves its warning in the log.
\<close>

theorem waits_are_not_fatal:
  assumes "browser_starts s" and "navigation_reply s = Inr (Some resp)" and "response_ok resp"
    and "close_reply s = None"
  shows "\<exists>run s'. analyzeUrl reg u viewports opts s = (Inr run, s')
          \<and> map entry_key (items (ar_analysis run)) = registry_keys reg
          \<and> (\<forall>selector e. opt_waitFor opts = Some selector \<and> selector \<noteq> [] \<and>
                p_rejects (the_page s) (p_calls (the_page s) + 1) = Some e \<longrightarrow>
                (LWarn, ''Wait for selector failed: '' @ selector) \<in> set (log s'))
          \<and> (\<forall>e. p_rejects (the_page s)
                    (p_calls (the_page s) +
                       (if has_waitFor opts then 2 else 1)) = Some e \<longrightarrow>
                (LWarn, ''Network idle timeout - continuing with analysis'') \<in> set (log s'))"
proof -
  let ?s = "logger LInfo (''Starting analysis for '' @ u) s"
  have "browser_starts ?s" "navigation_reply ?s = Inr (Some resp)"
    using assms(1,2) by simp_all
  from open_page_succeeds_page[OF this assms(3), of u opts] obtain n s1
    where o: "open_page u opts ?s = (Inr n, s1)" and c: "close_reply s1 = close_reply ?s"
      and pc: "p_calls (the_page s1) = Suc (p_calls (the_page s))"
      and pr: "p_rejects (the_page s1) = p_rejects (the_page s)"
    by auto
  let ?s2 = "wait_for_selector opts s1"
  let ?s3 = "wait_for_network_idle ?s2"
  have "close_reply ?s3 = None"
    using c assms(4) by (simp add: close_reply_waits)
  from finish_run_succeeds[OF this] obtain run s' where
    f: "finish_run reg u viewports (uuid s) (Date_now (the_page s)) n ?s3 = (Inr run, s')"
    by blast
  with o have r: "analyzeUrl reg u viewports opts s = (Inr run, s')"
    by (simp add: analyzeUrl_def Let_def)
  from analyzeUrl_completed[OF r] have k: "map entry_key (items (ar_analysis run)) = registry_keys reg"
    by (auto simp: performEvaluation_keys)
  have l3: "set (log ?s3) \<subseteq> set (log s')"
    using log_finish_run[of ?s3 reg u viewports "uuid s" "Date_now (the_page s)" n] f by simp
  have l2: "set (log ?s2) \<subseteq> set (log ?s3)" by (rule wait_for_network_idle_log)
  have w1: "(LWarn, ''Wait for selector failed: '' @ selector) \<in> set (log s')"
    if "opt_waitFor opts = Some selector" "selector \<noteq> []"
       "p_rejects (the_page s) (p_calls (the_page s) + 1) = Some e" for selector e
  proof -
    from that(3) pc pr have "p_rejects (the_page s1) (p_calls (the_page s1)) = Some e" by simp
    from wait_for_selector_warns[OF that(1,2) this] l2 l3 show ?thesis by blast
  qed
  have w2: "(LWarn, ''Network idle timeout - continuing with analysis'') \<in> set (log s')"
    if "p_rejects (the_page s)
          (p_calls (the_page s) + (if has_waitFor opts then 2 else 1)) = Some e"
    for e
  proof -
    have "p_rejects (the_page ?s2) (p_calls (the_page ?s2)) = Some e"
    proof (cases "has_waitFor opts")
      case True
      with that pc pr show ?thesis by (simp add: wait_for_selector_page)
    next
      case False
      with that pc pr show ?thesis by (simp add: wait_for_selector_page)
    qed
    from wait_for_network_idle_warns[OF this] l3 show ?thesis by blast
  qed
  from r k w1 w2 show ?thesis by blast
qed

theorem waits_are_not_fatal_witness:
  "\<exists>run s'. analyzeUrl sample_registry ''https://example.com'' [] sample_options
              waits_fail_service = (Inr run, s')
     \<and> map entry_key (items (ar_analysis run)) =
         [(''performance'', ''perf-001''), (''performance'', ''perf-002''),
          (''performance'', ''perf-003''), (''seo'', ''seo-001''), (''seo'', ''seo-002'')]
     \<and> p_rejects (the_page waits_fail_service) 1 =
         Some ''page.waitForSelector: Timeout 10000ms exceeded.''
     \<and> p_rejects (the_page waits_fail_service) 2 =
         Some ''page.waitForLoadState: Timeout 15000ms exceeded.''
     \<and> (LWarn, ''Wait for selector failed: main'') \<in> set (log s')
     \<and> (LWarn, ''Network idle timeout - continuing with analysis'') \<in> set (log s')"
proof -
  from waits_are_not_fatal[OF waits_fail_service_runs, of sample_registry
      "''https://example.com''" "[]" sample_options]
  obtain run s' where
    r: "analyzeUrl sample_registry ''https://example.com'' [] sample_options
          waits_fail_service = (Inr run, s')"
    and k: "map entry_key (items (ar_analysis run)) = registry_keys sample_registry"
    and w1: "\<And>selector e. opt_waitFor sample_options = Some selector \<Longrightarrow> selector \<noteq> [] \<Longrightarrow>
                p_rejects (the_page waits_fail_service)
                  (p_calls (the_page waits_fail_service) + 1) = Some e \<Longrightarrow>
                (LWarn, ''Wait for selector failed: '' @ selector) \<in> set (log s')"
    and w2: "\<And>e. p_rejects (the_page waits_fail_service)
                    (p_calls (the_page waits_fail_service) +
                       (if has_waitFor sample_options then 2 else 1)) = Some e
                \<Longrightarrow> (LWarn, ''Network idle timeout - continuing with analysis'') \<in> set (log s')"
    by blast
  have p1: "p_rejects (the_page waits_fail_service) 1 =
         Some ''page.waitForSelector: Timeout 10000ms exceeded.''"
    and p2: "p_rejects (the_page waits_fail_service) 2 =
         Some ''page.waitForLoadState: Timeout 15000ms exceeded.''"
    and c0: "p_calls (the_page waits_fail_service) = 0"
    and sel: "opt_waitFor sample_options = Some ''main''"
    by (simp_all add: waits_fail_service_def sample_service_def sample_page_def
          sample_options_def)
  have q1: "p_rejects (the_page waits_fail_service)
                  (p_calls (the_page waits_fail_service) + 1) =
         Some ''page.waitForSelector: Timeout 10000ms exceeded.''"
    and q2: "p_rejects (the_page waits_fail_service)
                    (p_calls (the_page waits_fail_service) +
                       (if has_waitFor sample_options then 2 else 1)) =
         Some ''page.waitForLoadState: Timeout 15000ms exceeded.''"
    by (simp_all add: has_waitFor_def waits_fail_service_def sample_service_def
          sample_page_def sample_options_def)
  have "(LWarn, ''Wait for selector failed: '' @ ''main'') \<in> set (log s')"
    by (rule w1[OF sel _ q1]) simp
  then have a: "(LWarn, ''Wait for selector failed: main'') \<in> set (log s')" by simp
  have b: "(LWarn, ''Network idle timeout - continuing with analysis'') \<in> set (log s')"
    by (rule w2[OF q2])
  from r k a b p1 p2 show ?thesis
    by (simp add: registry_keys_sample)
qed

text \<open>
  C9. During evaluation, exactly one criterion (\<open>perf-001\<close>) is invoked with an
  additional timing argument alongside the page handle, and every other criterion's
  check is invoked with the page handle only. As stated, the argument is a
  navigation-start timestamp. It is not: the code passes \<open>Date.now() - navigationTime\<close>,
  the time of the call less the duration of the navigation. In the run below, of the
  shipped registry, the navigation starts at 1015 and takes 10 ms; the evaluation starts
  after the idle wait and one screenshot, and the check of \<open>perf-001\<close>, the sixteenth to be
  called, is called at 1070 with the argument 1060. It reports a load time of 10 ms;
  called with the navigation start it would report 55 ms.
\<close>

theorem timing_argument_is_not_navigation_start:
  "fst sample_navigation = Inr 10
   \<and> Date_now (the_page (snd sample_navigation)) = 1025
   \<and> ar_analysis (projr (fst (analyzeUrl (fullEvaluationCriteria sample_other)
        ''https://example.com'' desktop_only no_options sample_service))) =
       fst (performEvaluation (fullEvaluationCriteria sample_other) 10 sample_evaluation_state)
   \<and> Date_now (run_checks 10 (take 15 (all_criteria (fullEvaluationCriteria sample_other)))
        (the_page sample_evaluation_state)) = 1070
   \<and> c_id (all_criteria (fullEvaluationCriteria sample_other) ! 15) = ''perf-001''
   \<and> call_check (all_criteria (fullEvaluationCriteria sample_other) ! 15) 10
        (run_checks 10 (take 15 (all_criteria (fullEvaluationCriteria sample_other)))
           (the_page sample_evaluation_state)) =
       perf_001_check
        (run_checks 10 (take 15 (all_criteria (fullEvaluationCriteria sample_other)))
           (the_page sample_evaluation_state))
        (Some 1060)
   \<and> e_id (items (ar_analysis (projr (fst (analyzeUrl (fullEvaluationCriteria sample_other)
        ''https://example.com'' desktop_only no_options sample_service)))) ! 15) = ''perf-001''
   \<and> e_details (items (ar_analysis (projr (fst (analyzeUrl
        (fullEvaluationCriteria sample_other)
        ''https://example.com'' desktop_only no_options sample_service)))) ! 15) =
       ''Page loaded in 10ms''
   \<and> o_details (projr (fst (perf_001_check
        (run_checks 10 (take 15 (all_criteria (fullEvaluationCriteria sample_other)))
           (the_page sample_evaluation_state))
        (Some 1015)))) = ''Page loaded in 55ms''"
proof -
  let ?p = "run_checks 10 (take 15 (all_criteria (fullEvaluationCriteria sample_other)))
        (the_page sample_evaluation_state)"
  have p: "?p = the_page sample_evaluation_state" by (rule sample_accessibility_checks)
  have a: "Date_now ?p = 1070" by (simp only: p sample_evaluation_clock)
  have b: "c_id (all_criteria (fullEvaluationCriteria sample_other) ! 15) = ''perf-001''"
    by (simp add: perf_001_position)
  have c: "call_check (all_criteria (fullEvaluationCriteria sample_other) ! 15) 10 ?p =
      perf_001_check ?p (Some 1060)"
    using a by (simp add: perf_001_position call_check_def)
  have d: "e_id (items (ar_analysis (projr (fst (analyzeUrl
        (fullEvaluationCriteria sample_other)
        ''https://example.com'' desktop_only no_options sample_service)))) ! 15) = ''perf-001''"
    by (simp only: sample_run_analysis perf_001_entry) simp
  have e: "e_details (items (ar_analysis (projr (fst (analyzeUrl
        (fullEvaluationCriteria sample_other)
        ''https://example.com'' desktop_only no_options sample_service)))) ! 15) =
       ''Page loaded in 10ms''"
    by (simp only: sample_run_analysis perf_001_entry)
       (simp add: show_int_def show_nat.simps)
  have f: "o_details (projr (fst (perf_001_check ?p (Some 1015)))) = ''Page loaded in 55ms''"
    using a by (simp add: perf_001_check_def show_int_def show_nat.simps Let_def)
  show ?thesis
    by (intro conjI) (fact sample_navigation_value sample_run_analysis a b c d e f)+
qed

text \<open>
  C9, amended. Exactly one criterion of the shipped registry has the id \<open>perf-001\<close>, the
  page-load-time criterion, the sixteenth in iteration order. Its check is called with
  the page and \<open>Date.now() - navigationTime\<close>, where \<open>navigationTime\<close> is the time the
  navigation took, so that the load time the check computes is \<open>navigationTime\<close>
  whenever it is called: the entry of \<open>perf-001\<close> in the result list reports that
  duration, and in a completed run it is the time the \<open>page.goto\<close> call took. Every
  other check is called with the page only: the entry of every other criterion is made
  of what its check returns or throws when called without a second argument, and
  without the criterion \<open>perf-001\<close> the evaluation does not depend on \<open>navigationTime\<close>
  at all.
\<close>

theorem timing_argument_only_for_perf_001:
  "filter (\<lambda>c. c_id c = ''perf-001'') (all_criteria (fullEvaluationCriteria other)) =
     [\<lparr>c_id = ''perf-001'', c_name = ''Page Load Time'',
       c_description = ''Page loads within 3 seconds'',
       c_impact = Critical, c_check = perf_001_check\<rparr>]
   \<and> (c_id c = ''perf-001'' \<longrightarrow>
        call_check c navigationTime p = c_check c p (Some (Date_now p - navigationTime)))
   \<and> (c_id c \<noteq> ''perf-001'' \<longrightarrow> call_check c navigationTime p = c_check c p None)
   \<and> (open_page u opts s = (Inr navigationTime, s_nav) \<longrightarrow>
        navigationTime = int (p_elapsed (the_page s) (p_calls (the_page s))))
   \<and> ((\<forall>c \<in> set (all_criteria reg). c_id c \<noteq> ''perf-001'') \<longrightarrow>
        performEvaluation reg navigationTime s = performEvaluation reg n' s)
   \<and> all_criteria (fullEvaluationCriteria other) ! 15 =
       \<lparr>c_id = ''perf-001'', c_name = ''Page Load Time'',
        c_description = ''Page loads within 3 seconds'',
        c_impact = Critical, c_check = perf_001_check\<rparr>
   \<and> call_check (all_criteria (fullEvaluationCriteria other) ! 15) navigationTime p =
       (Inr \<lparr>o_status = (if navigationTime < 3000 then VPass
                          else if navigationTime < 5000 then VWarning else VFail),
             o_details = ''Page loaded in '' @ show_int navigationTime @ ''ms'',
             o_recommendations = Some (if navigationTime \<ge> 3000
               then [''Optimize images and compress assets'', ''Minimize HTTP requests'',
                     ''Use CDN for static assets'', ''Enable browser caching'']
               else [])\<rparr>, p)
   \<and> items (fst (performEvaluation (fullEvaluationCriteria other) navigationTime s)) ! 15 =
       \<lparr>e_category = ''performance'', e_id = ''perf-001'', e_name = ''Page Load Time'',
        e_description = ''Page loads within 3 seconds'', e_impact = Critical,
        e_status = (if navigationTime < 3000 then Pass
                    else if navigationTime < 5000 then Warning else Fail),
        e_details = ''Page loaded in '' @ show_int navigationTime @ ''ms'',
        e_recommendations = (if navigationTime \<ge> 3000
               then [''Optimize images and compress assets'', ''Minimize HTTP requests'',
                     ''Use CDN for static assets'', ''Enable browser caching'']
               else []),
        e_checkTime = 0\<rparr>
   \<and> (i < 33 \<and> i \<noteq> 15 \<longrightarrow>
       items (fst (performEvaluation (fullEvaluationCriteria other) navigationTime s)) ! i =
        (case c_check (all_criteria (fullEvaluationCriteria other) ! i)
                (run_checks navigationTime
                   (take i (all_criteria (fullEvaluationCriteria other))) (the_page s))
                None of
           (Inr result, q) \<Rightarrow>
             \<lparr>e_category = fst (registry_keys (fullEvaluationCriteria other) ! i),
              e_id = c_id (all_criteria (fullEvaluationCriteria other) ! i),
              e_name = c_name (all_criteria (fullEvaluationCriteria other) ! i),
              e_description = c_description (all_criteria (fullEvaluationCriteria other) ! i),
              e_impact = c_impact (all_criteria (fullEvaluationCriteria other) ! i),
              e_status = status_of (o_status result), e_details = o_details result,
              e_recommendations =
                (case o_recommendations result of Some rs \<Rightarrow> rs | None \<Rightarrow> []),
              e_checkTime = Date_now q - Date_now (run_checks navigationTime
                (take i (all_criteria (fullEvaluationCriteria other))) (the_page s))\<rparr>
         | (Inl message, q) \<Rightarrow>
             \<lparr>e_category = fst (registry_keys (fullEvaluationCriteria other) ! i),
              e_id = c_id (all_criteria (fullEvaluationCriteria other) ! i),
              e_name = c_name (all_criteria (fullEvaluationCriteria other) ! i),
              e_description = c_description (all_criteria (fullEvaluationCriteria other) ! i),
              e_impact = c_impact (all_criteria (fullEvaluationCriteria other) ! i),
              e_status = Error, e_details = ''Evaluation failed: '' @ message,
              e_recommendations = [''Unable to evaluate - check page accessibility''],
              e_checkTime = 0\<rparr>))
   \<and> (analyzeUrl (fullEvaluationCriteria other) u viewports opts svc = (Inr run, s') \<longrightarrow>
       items (ar_analysis run) ! 15 =
        \<lparr>e_category = ''performance'', e_id = ''perf-001'', e_name = ''Page Load Time'',
         e_description = ''Page loads within 3 seconds'', e_impact = Critical,
         e_status = (if int (p_elapsed (the_page svc) (p_calls (the_page svc))) < 3000 then Pass
                     else if int (p_elapsed (the_page svc) (p_calls (the_page svc))) < 5000
                     then Warning else Fail),
         e_details = ''Page loaded in '' @
           show_int (int (p_elapsed (the_page svc) (p_calls (the_page svc)))) @ ''ms'',
         e_recommendations =
           (if int (p_elapsed (the_page svc) (p_calls (the_page svc))) \<ge> 3000
            then [''Optimize images and compress assets'', ''Minimize HTTP requests'',
                  ''Use CDN for static assets'', ''Enable browser caching'']
            else []),
         e_checkTime = 0\<rparr>)"
proof (intro conjI impI)
  show "filter (\<lambda>c. c_id c = ''perf-001'') (all_criteria (fullEvaluationCriteria other)) =
     [\<lparr>c_id = ''perf-001'', c_name = ''Page Load Time'',
       c_description = ''Page loads within 3 seconds'',
       c_impact = Critical, c_check = perf_001_check\<rparr>]"
    by (rule perf_001_in_registry)
next
  assume "c_id c = ''perf-001''"
  then show "call_check c navigationTime p = c_check c p (Some (Date_now p - navigationTime))"
    by (simp add: call_check_def)
next
  assume "c_id c \<noteq> ''perf-001''"
  then show "call_check c navigationTime p = c_check c p None"
    by (rule call_check_other)
next
  assume "open_page u opts s = (Inr navigationTime, s_nav)"
  then show "navigationTime = int (p_elapsed (the_page s) (p_calls (the_page s)))"
    by (rule open_page_navigationTime)
next
  assume "\<forall>c \<in> set (all_criteria reg). c_id c \<noteq> ''perf-001''"
  then show "performEvaluation reg navigationTime s = performEvaluation reg n' s"
    by (rule performEvaluation_independent)
next
  show "all_criteria (fullEvaluationCriteria other) ! 15 =
       \<lparr>c_id = ''perf-001'', c_name = ''Page Load Time'',
        c_description = ''Page loads within 3 seconds'',
        c_impact = Critical, c_check = perf_001_check\<rparr>"
    by (rule perf_001_position(1))
next
  show "call_check (all_criteria (fullEvaluationCriteria other) ! 15) navigationTime p =
       (Inr \<lparr>o_status = (if navigationTime < 3000 then VPass
                          else if navigationTime < 5000 then VWarning else VFail),
             o_details = ''Page loaded in '' @ show_int navigationTime @ ''ms'',
             o_recommendations = Some (if navigationTime \<ge> 3000
               then [''Optimize images and compress assets'', ''Minimize HTTP requests'',
                     ''Use CDN for static assets'', ''Enable browser caching'']
               else [])\<rparr>, p)"
    by (simp only: perf_001_position(1) call_check_perf_001)
next
  show "items (fst (performEvaluation (fullEvaluationCriteria other) navigationTime s)) ! 15 =
       \<lparr>e_category = ''performance'', e_id = ''perf-001'', e_name = ''Page Load Time'',
        e_description = ''Page loads within 3 seconds'', e_impact = Critical,
        e_status = (if navigationTime < 3000 then Pass
                    else if navigationTime < 5000 then Warning else Fail),
        e_details = ''Page loaded in '' @ show_int navigationTime @ ''ms'',
        e_recommendations = (if navigationTime \<ge> 3000
               then [''Optimize images and compress assets'', ''Minimize HTTP requests'',
                     ''Use CDN for static assets'', ''Enable browser caching'']
               else []),
        e_checkTime = 0\<rparr>"
    by (rule perf_001_entry)
next
  assume h: "i < 33 \<and> i \<noteq> 15"
  from h have 1: "i < 33" by (rule conjunct1)
  from h have 2: "i \<noteq> 15" by (rule conjunct2)
  show "items (fst (performEvaluation (fullEvaluationCriteria other) navigationTime s)) ! i =
        (case c_check (all_criteria (fullEvaluationCriteria other) ! i)
                (run_checks navigationTime
                   (take i (all_criteria (fullEvaluationCriteria other))) (the_page s))
                None of
           (Inr result, q) \<Rightarrow>
             \<lparr>e_category = fst (registry_keys (fullEvaluationCriteria other) ! i),
              e_id = c_id (all_criteria (fullEvaluationCriteria other) ! i),
              e_name = c_name (all_criteria (fullEvaluationCriteria other) ! i),
              e_description = c_description (all_criteria (fullEvaluationCriteria other) ! i),
              e_impact = c_impact (all_criteria (fullEvaluationCriteria other) ! i),
              e_status = status_of (o_status result), e_details = o_details result,
              e_recommendations =
                (case o_recommendations result of Some rs \<Rightarrow> rs | None \<Rightarrow> []),
              e_checkTime = Date_now q - Date_now (run_checks navigationTime
                (take i (all_criteria (fullEvaluationCriteria other))) (the_page s))\<rparr>
         | (Inl message, q) \<Rightarrow>
             \<lparr>e_category = fst (registry_keys (fullEvaluationCriteria other) ! i),
              e_id = c_id (all_criteria (fullEvaluationCriteria other) ! i),
              e_name = c_name (all_criteria (fullEvaluationCriteria other) ! i),
              e_description = c_description (all_criteria (fullEvaluationCriteria other) ! i),
              e_impact = c_impact (all_criteria (fullEvaluationCriteria other) ! i),
              e_status = Error, e_details = ''Evaluation failed: '' @ message,
              e_recommendations = [''Unable to evaluate - check page accessibility''],
              e_checkTime = 0\<rparr>)"
    by (rule other_entry[OF 1 2])
next
  assume "analyzeUrl (fullEvaluationCriteria other) u viewports opts svc = (Inr run, s')"
  then show "items (ar_analysis run) ! 15 =
        \<lparr>e_category = ''performance'', e_id = ''perf-001'', e_name = ''Page Load Time'',
         e_description = ''Page loads within 3 seconds'', e_impact = Critical,
         e_status = (if int (p_elapsed (the_page svc) (p_calls (the_page svc))) < 3000 then Pass
                     else if int (p_elapsed (the_page svc) (p_calls (the_page svc))) < 5000
                     then Warning else Fail),
         e_details = ''Page loaded in '' @
           show_int (int (p_elapsed (the_page svc) (p_calls (the_page svc)))) @ ''ms'',
         e_recommendations =
           (if int (p_elapsed (the_page svc) (p_calls (the_page svc))) \<ge> 3000
            then [''Optimize images and compress assets'', ''Minimize HTTP requests'',
                  ''Use CDN for static assets'', ''Enable browser caching'']
            else []),
         e_checkTime = 0\<rparr>"
    by (rule completed_perf_001_entry)
qed

theorem timing_argument_only_for_perf_001_witness:
  "c_id (hd (category_of (evaluationCriteria sample_other) ''performance'')) = ''perf-001''
   \<and> fst (call_check (hd (category_of (evaluationCriteria sample_other) ''performance'')) 10
          (sample_page\<lparr>p_clock := 1070\<rparr>)) =
       Inr \<lparr>o_status = VPass, o_details = ''Page loaded in 10ms'',
            o_recommendations = Some []\<rparr>
   \<and> c_id (hd (category_of (evaluationCriteria sample_other) ''seo'')) \<noteq> ''perf-001''
   \<and> call_check (hd (category_of (evaluationCriteria sample_other) ''seo'')) 10 sample_page =
       sample_other ''seo-001'' sample_page None
   \<and> fst (open_page ''https://example.com'' sample_options sample_service) = Inr 10
   \<and> p_elapsed (the_page sample_service) (p_calls (the_page sample_service)) = 10
   \<and> map c_id (all_criteria [(''seo'', category_of (evaluationCriteria sample_other) ''seo'')]) =
       [''seo-001'', ''seo-002'']
   \<and> performEvaluation [(''seo'', category_of (evaluationCriteria sample_other) ''seo'')] 10
         sample_service =
       performEvaluation [(''seo'', category_of (evaluationCriteria sample_other) ''seo'')] 6000
         sample_service
   \<and> items (fst (performEvaluation (fullEvaluationCriteria sample_other) 10 sample_service))
        ! 15 =
       \<lparr>e_category = ''performance'', e_id = ''perf-001'', e_name = ''Page Load Time'',
        e_description = ''Page loads within 3 seconds'', e_impact = Critical,
        e_status = Pass, e_details = ''Page loaded in 10ms'', e_recommendations = [],
        e_checkTime = 0\<rparr>
   \<and> items (fst (performEvaluation (fullEvaluationCriteria sample_other) 10 sample_service))
        ! 23 =
       \<lparr>e_category = ''seo'', e_id = ''seo-001'', e_name = ''Title Tag'',
        e_description = ''Page has unique and descriptive title'', e_impact = Critical,
        e_status = Error, e_details = ''Evaluation failed: Target closed'',
        e_recommendations = [''Unable to evaluate - check page accessibility''],
        e_checkTime = 0\<rparr>
   \<and> items (fst (performEvaluation (fullEvaluationCriteria sample_other) 10 sample_service))
        ! 24 =
       \<lparr>e_category = ''seo'', e_id = ''seo-002'', e_name = ''Meta Description'',
        e_description = ''Page has compelling meta description'', e_impact = Major,
        e_status = Fail, e_details = ''checked'', e_recommendations = [], e_checkTime = 0\<rparr>
   \<and> (\<exists>run s'. analyzeUrl (fullEvaluationCriteria sample_other) ''https://example.com'' []
                  sample_options sample_service = (Inr run, s')
        \<and> items (ar_analysis run) ! 15 =
            \<lparr>e_category = ''performance'', e_id = ''perf-001'', e_name = ''Page Load Time'',
             e_description = ''Page loads within 3 seconds'', e_impact = Critical,
             e_status = Pass, e_details = ''Page loaded in 10ms'', e_recommendations = [],
             e_checkTime = 0\<rparr>)"
proof -
  let ?perf = "hd (category_of (evaluationCriteria sample_other) ''performance'')"
  let ?seo = "hd (category_of (evaluationCriteria sample_other) ''seo'')"
  let ?reg = "[(''seo'', category_of (evaluationCriteria sample_other) ''seo'')]"
  let ?nav = "snd (open_page ''https://example.com'' sample_options sample_service)"
  let ?items = "items (fst (performEvaluation (fullEvaluationCriteria sample_other) 10
      sample_service))"
  have i1: "c_id ?perf = ''perf-001''" and c1: "c_check ?perf = perf_001_check"
    and i2: "c_id ?seo \<noteq> ''perf-001''" and c2: "c_check ?seo = sample_other ''seo-001''"
    and i3: "\<forall>c \<in> set (all_criteria ?reg). c_id c \<noteq> ''perf-001''"
    and i4: "map c_id (all_criteria ?reg) = [''seo-001'', ''seo-002'']"
    by (simp_all add: category_of_def evaluationCriteria_def all_criteria_def)
  have o: "\<not> isl (fst (open_page ''https://example.com'' sample_options sample_service))"
    by (simp add: open_page_def initialize_def await_svc_def logger_def goto_def
          await_page_def Date_now_def response_ok_def sample_defs Let_def
        cong: prod.case_cong_weak let_weak_cong)
  then obtain n where o': "open_page ''https://example.com'' sample_options sample_service
      = (Inr n, ?nav)"
    by (cases "open_page ''https://example.com'' sample_options sample_service";
        cases "fst (open_page ''https://example.com'' sample_options sample_service)") auto
  have e: "p_elapsed (the_page sample_service) (p_calls (the_page sample_service)) = 10"
    by (simp add: sample_defs)
  from analyzeUrl_succeeds[OF sample_service_runs] obtain run s' where
    eq: "analyzeUrl (fullEvaluationCriteria sample_other) ''https://example.com'' []
           sample_options sample_service = (Inr run, s')"
    by blast
  note t1 = timing_argument_only_for_perf_001[where other = sample_other and c = ?perf
      and navigationTime = 10 and p = "sample_page\<lparr>p_clock := 1070\<rparr>"
      and u = "''https://example.com''" and opts = sample_options and s = sample_service
      and s_nav = ?nav and reg = ?reg and n' = 6000 and i = 23 and viewports = "[]"
      and svc = sample_service and run = run and s' = s']
  note t2 = timing_argument_only_for_perf_001[where other = sample_other and c = ?seo
      and navigationTime = n and p = sample_page
      and u = "''https://example.com''" and opts = sample_options and s = sample_service
      and s_nav = ?nav and reg = ?reg and n' = 6000 and i = 24 and viewports = "[]"
      and svc = sample_service and run = run and s' = s']
  note t3 = timing_argument_only_for_perf_001[where other = sample_other and c = ?seo
      and navigationTime = 10 and p = sample_page
      and u = "''https://example.com''" and opts = sample_options and s = sample_service
      and s_nav = ?nav and reg = ?reg and n' = 6000 and i = 24 and viewports = "[]"
      and svc = sample_service and run = run and s' = s']
  from t1 i1 have "call_check ?perf 10 (sample_page\<lparr>p_clock := 1070\<rparr>) =
      c_check ?perf (sample_page\<lparr>p_clock := 1070\<rparr>)
        (Some (Date_now (sample_page\<lparr>p_clock := 1070\<rparr>) - 10))"
    by blast
  then have a: "fst (call_check ?perf 10 (sample_page\<lparr>p_clock := 1070\<rparr>)) =
       Inr \<lparr>o_status = VPass, o_details = ''Page loaded in 10ms'',
            o_recommendations = Some []\<rparr>"
    by (simp add: c1 perf_001_check_def Date_now_def show_int_def show_nat.simps Let_def)
  have "open_page ''https://example.com'' sample_options sample_service = (Inr n, ?nav) \<longrightarrow>
      n = int (p_elapsed (the_page sample_service) (p_calls (the_page sample_service)))"
    by (rule t2[THEN conjunct2, THEN conjunct2, THEN conjunct2, THEN conjunct1])
  from mp[OF this o'] e have n: "n = 10" by simp
  have "c_id ?seo \<noteq> ''perf-001'' \<longrightarrow> call_check ?seo 10 sample_page = c_check ?seo sample_page None"
    by (rule t3[THEN conjunct2, THEN conjunct2, THEN conjunct1])
  from mp[OF this i2] c2
  have b: "call_check ?seo 10 sample_page = sample_other ''seo-001'' sample_page None"
    by simp
  from o' n have c: "fst (open_page ''https://example.com'' sample_options sample_service)
      = Inr 10" by (metis fst_conv)
  have "(\<forall>c \<in> set (all_criteria ?reg). c_id c \<noteq> ''perf-001'') \<longrightarrow>
      performEvaluation ?reg 10 sample_service = performEvaluation ?reg 6000 sample_service"
    by (rule t1[THEN conjunct2, THEN conjunct2, THEN conjunct2, THEN conjunct2, THEN conjunct1])
  from mp[OF this i3] have d: "performEvaluation ?reg 10 sample_service =
      performEvaluation ?reg 6000 sample_service" .
  have "?items ! 15 =
       \<lparr>e_category = ''performance'', e_id = ''perf-001'', e_name = ''Page Load Time'',
        e_description = ''Page loads within 3 seconds'', e_impact = Critical,
        e_status = (if (10::int) < 3000 then Pass else if (10::int) < 5000 then Warning else Fail),
        e_details = ''Page loaded in '' @ show_int 10 @ ''ms'',
        e_recommendations = (if (10::int) \<ge> 3000
               then [''Optimize images and compress assets'', ''Minimize HTTP requests'',
                     ''Use CDN for static assets'', ''Enable browser caching'']
               else []),
        e_checkTime = 0\<rparr>"
    by (rule t1[THEN conjunct2, THEN conjunct2, THEN conjunct2, THEN conjunct2, THEN conjunct2,
          THEN conjunct2, THEN conjunct2, THEN conjunct1])
  then have f: "?items ! 15 =
       \<lparr>e_category = ''performance'', e_id = ''perf-001'', e_name = ''Page Load Time'',
        e_description = ''Page loads within 3 seconds'', e_impact = Critical,
        e_status = Pass, e_details = ''Page loaded in 10ms'', e_recommendations = [],
        e_checkTime = 0\<rparr>"
    by (simp add: show_int_def show_nat.simps)
  have ids: "all_criteria (fullEvaluationCriteria sample_other) ! 23 =
       \<lparr>c_id = ''seo-001'', c_name = ''Title Tag'',
        c_description = ''Page has unique and descriptive title'',
        c_impact = Critical, c_check = sample_other ''seo-001''\<rparr>"
    "all_criteria (fullEvaluationCriteria sample_other) ! 24 =
       \<lparr>c_id = ''seo-002'', c_name = ''Meta Description'',
        c_description = ''Page has compelling meta description'',
        c_impact = Major, c_check = sample_other ''seo-002''\<rparr>"
    "registry_keys (fullEvaluationCriteria sample_other) ! 23 = (''seo'', ''seo-001'')"
    "registry_keys (fullEvaluationCriteria sample_other) ! 24 = (''seo'', ''seo-002'')"
    by (simp_all add: all_criteria_def registry_keys_def fullEvaluationCriteria_def
        evaluationCriteria_def extendedCriteria_def category_of_def)
  have pg: "run_checks 10 (take i (all_criteria (fullEvaluationCriteria sample_other)))
      (the_page sample_service) = sample_page" if "i = 23 \<or> i = 24" for i
    using that
    by (auto simp: all_criteria_def fullEvaluationCriteria_def evaluationCriteria_def
        extendedCriteria_def category_of_def call_check_def sample_other_def perf_001_check_def
        sample_service_def Let_def)
  have h23: "(23::nat) < 33 \<and> (23::nat) \<noteq> 15" by simp
  have h24: "(24::nat) < 33 \<and> (24::nat) \<noteq> 15" by simp
  from mp[OF t1[THEN conjunct2, THEN conjunct2, THEN conjunct2, THEN conjunct2, THEN conjunct2,
          THEN conjunct2, THEN conjunct2, THEN conjunct2, THEN conjunct1] h23]
  have g: "?items ! 23 =
       \<lparr>e_category = ''seo'', e_id = ''seo-001'', e_name = ''Title Tag'',
        e_description = ''Page has unique and descriptive title'', e_impact = Critical,
        e_status = Error, e_details = ''Evaluation failed: Target closed'',
        e_recommendations = [''Unable to evaluate - check page accessibility''],
        e_checkTime = 0\<rparr>"
    by (simp add: ids pg sample_other_def)
  from mp[OF t3[THEN conjunct2, THEN conjunct2, THEN conjunct2, THEN conjunct2, THEN conjunct2,
          THEN conjunct2, THEN conjunct2, THEN conjunct2, THEN conjunct1] h24]
  have h: "?items ! 24 =
       \<lparr>e_category = ''seo'', e_id = ''seo-002'', e_name = ''Meta Description'',
        e_description = ''Page has compelling meta description'', e_impact = Major,
        e_status = Fail, e_details = ''checked'', e_recommendations = [], e_checkTime = 0\<rparr>"
    by (simp add: ids pg sample_other_def)
  from mp[OF t1[THEN conjunct2, THEN conjunct2, THEN conjunct2, THEN conjunct2, THEN conjunct2,
          THEN conjunct2, THEN conjunct2, THEN conjunct2, THEN conjunct2] eq]
  have "items (ar_analysis run) ! 15 =
            \<lparr>e_category = ''performance'', e_id = ''perf-001'', e_name = ''Page Load Time'',
             e_description = ''Page loads within 3 seconds'', e_impact = Critical,
             e_status = Pass, e_details = ''Page loaded in 10ms'', e_recommendations = [],
             e_checkTime = 0\<rparr>"
    by (simp add: e show_int_def show_nat.simps)
  with eq have r: "\<exists>run s'. analyzeUrl (fullEvaluationCriteria sample_other)
        ''https://example.com'' [] sample_options sample_service = (Inr run, s')
        \<and> items (ar_analysis run) ! 15 =
            \<lparr>e_category = ''performance'', e_id = ''perf-001'', e_name = ''Page Load Time'',
             e_description = ''Page loads within 3 seconds'', e_impact = Critical,
             e_status = Pass, e_details = ''Page loaded in 10ms'', e_recommendations = [],
             e_checkTime = 0\<rparr>"
    by (intro exI[of _ run] exI[of _ s'] conjI)
  show ?thesis
    by (intro conjI) (fact i1 a i2 b c e i4 d f g h r)+
qed

text \<open>
  C10. The mobile-responsive check (\<open>use-001\<close>) sets the live page viewport to
  375 x 667 and does not restore the previous one, so every check executed after it in
  the same run observes that viewport; screenshots are unaffected because they are
  taken before evaluation. Once its resize call has resolved, the viewport is 375 x 667
  when the check ends, whatever it was before; the criteria that follow it in the
  registry are \<open>use-002\<close> and \<open>use-003\<close>, whose checks leave the viewport alone, so
  each is called on a page of that size, and so is the page left after the evaluation
  whenever the entry of \<open>use-001\<close> is not an error. The screenshots of a run are the same
  for every registry.
\<close>

theorem mobile_check_leaves_viewport_resized:
  "(p_rejects p (p_calls p) = None \<longrightarrow> p_viewport (snd (use_001_check p arg)) = (375, 667))
   \<and> p_viewport (snd (use_002_check p arg)) = p_viewport p
   \<and> p_viewport (snd (use_003_check p arg)) = p_viewport p
   \<and> dropWhile (\<lambda>c. c_id c \<noteq> ''use-001'') (all_criteria (fullEvaluationCriteria other)) =
       [use_001, use_002, use_003]
   \<and> (p_rejects (the_page s) (p_calls (the_page s)) = None \<longrightarrow>
        p_viewport (the_page (snd (eval_criterion ''usability'' n use_001 (v, s)))) = (375, 667)
        \<and> p_viewport (the_page (snd (eval_criterion ''usability'' n use_002
              (eval_criterion ''usability'' n use_001 (v, s))))) = (375, 667)
        \<and> p_viewport (the_page (snd (eval_criterion ''usability'' n use_003
              (eval_criterion ''usability'' n use_002
                (eval_criterion ''usability'' n use_001 (v, s)))))) = (375, 667))
   \<and> ((\<exists>r \<in> set (items (fst (performEvaluation (fullEvaluationCriteria other) n s))).
          e_id r = ''use-001'' \<and> e_status r \<noteq> Error) \<longrightarrow>
        p_viewport (the_page (snd (performEvaluation (fullEvaluationCriteria other) n s)))
          = (375, 667))
   \<and> (analyzeUrl reg u viewports opts s = (Inr run, s') \<and>
        analyzeUrl reg' u viewports opts s = (Inr run', s'') \<longrightarrow>
        ar_screenshots run = ar_screenshots run')"
  using use_001_resizes[of p arg] use_002_viewport[of p arg] use_003_viewport[of p arg]
    after_use_001[of other] usability_turns[of s n v]
    viewport_after_evaluation[of _ other n s]
    screenshots_independent_of_registry[of reg u viewports opts s run s' reg' run' s'']
  by blast

theorem mobile_check_leaves_viewport_resized_witness:
  "p_rejects sample_page (p_calls sample_page) = None
   \<and> p_viewport sample_page = (1280, 720)
   \<and> p_viewport (snd (use_001_check sample_page None)) = (375, 667)
   \<and> p_viewport (the_page (snd (eval_criterion ''usability'' 10 use_002
         (eval_criterion ''usability'' 10 use_001
            (\<lparr>results = [], totalItems = 0, passedItems = 0\<rparr>, sample_service))))) = (375, 667)
   \<and> e_id (items (fst (performEvaluation (fullEvaluationCriteria sample_other) 10
         sample_service)) ! 30) = ''use-001''
   \<and> e_status (items (fst (performEvaluation (fullEvaluationCriteria sample_other) 10
         sample_service)) ! 30) = Fail
   \<and> p_viewport (the_page (snd (performEvaluation (fullEvaluationCriteria sample_other) 10
         sample_service))) = (375, 667)
   \<and> (\<exists>run s' run' s''.
         analyzeUrl sample_registry ''https://example.com'' [] sample_options sample_service
           = (Inr run, s') \<and>
         analyzeUrl (probe_registry 0) ''https://example.com'' [] sample_options sample_service
           = (Inr run', s'') \<and>
         ar_screenshots run = ar_screenshots run')"
proof -
  let ?v = "\<lparr>results = [], totalItems = 0, passedItems = 0\<rparr>"
  let ?items = "items (fst (performEvaluation (fullEvaluationCriteria sample_other) 10
         sample_service))"
  from analyzeUrl_succeeds[OF sample_service_runs] obtain run s' where
    r1: "analyzeUrl sample_registry ''https://example.com'' [] sample_options sample_service
           = (Inr run, s')"
    by blast
  from analyzeUrl_succeeds[OF sample_service_runs] obtain run' s'' where
    r2: "analyzeUrl (probe_registry 0) ''https://example.com'' [] sample_options sample_service
           = (Inr run', s'')"
    by blast
  note t = mobile_check_leaves_viewport_resized[of sample_page None sample_other
      sample_service 10 ?v sample_registry "''https://example.com''" "[]" sample_options
      run s' "probe_registry 0" run' s'']
  have a: "p_rejects sample_page (p_calls sample_page) = None"
    and a': "p_rejects (the_page sample_service) (p_calls (the_page sample_service)) = None"
    and b: "p_viewport sample_page = (1280, 720)"
    by (simp_all add: sample_page_def sample_service_def)
  from t a have c: "p_viewport (snd (use_001_check sample_page None)) = (375, 667)"
    by blast
  from t a' have d: "p_viewport (the_page (snd (eval_criterion ''usability'' 10 use_002
         (eval_criterion ''usability'' 10 use_001 (?v, sample_service))))) = (375, 667)"
    by blast
  have l: "length ?items = 33"
    using performEvaluation_keys[of "fullEvaluationCriteria sample_other" 10 sample_service,
        THEN arg_cong, of length]
    by (simp add: registry_keys_def fullEvaluationCriteria_def evaluationCriteria_def
          extendedCriteria_def category_of_def)
  have "(\<lambda>r. (e_id r, e_status r)) (?items ! 30) =
          map (\<lambda>r. (e_id r, e_status r)) (drop 30 ?items) ! 0"
    using l by simp
  also have "\<dots> = (''use-001'', Fail)"
    by (simp only: sample_usability_entries) simp
  finally have e: "e_id (?items ! 30) = ''use-001''" and f: "e_status (?items ! 30) = Fail"
    by simp_all
  have m: "?items ! 30 \<in> set ?items" using l by simp
  from e f m have "\<exists>r \<in> set ?items. e_id r = ''use-001'' \<and> e_status r \<noteq> Error"
    by (intro bexI[of _ "?items ! 30"]) simp_all
  with t have g: "p_viewport (the_page (snd (performEvaluation
      (fullEvaluationCriteria sample_other) 10 sample_service))) = (375, 667)"
    by blast
  from t r1 r2 have h: "ar_screenshots run = ar_screenshots run'" by blast
  from r1 r2 h have i: "\<exists>run s' run' s''.
         analyzeUrl sample_registry ''https://example.com'' [] sample_options sample_service
           = (Inr run, s') \<and>
         analyzeUrl (probe_registry 0) ''https://example.com'' [] sample_options sample_service
           = (Inr run', s'') \<and>
         ar_screenshots run = ar_screenshots run'"
    by blast
  show ?thesis
    by (intro conjI) (fact a b c d e f g i)+
qed

end
